theory Spec2Isabelle
  imports Complex_Main "HOL-Library.Word"
begin

unbundle bit_operations_syntax

section \<open>Qt string helpers used by the DFD compiler\<close>

text \<open>
  \<^verbatim>\<open>QString\<close> values are modelled as \<^typ>\<open>string\<close>. \<^verbatim>\<open>QString::mid(pos)\<close> and
  \<^verbatim>\<open>QString::mid(pos, n)\<close> return the empty string when \<^verbatim>\<open>pos\<close> is past the end,
  which is what \<^const>\<open>drop\<close> and \<^const>\<open>take\<close> do.
\<close>

definition mid :: "string \<Rightarrow> nat \<Rightarrow> string" where
  "mid s pos = drop pos s"

definition midn :: "string \<Rightarrow> nat \<Rightarrow> nat \<Rightarrow> string" where
  "midn s pos n = take n (drop pos s)"

definition isDigit :: "char \<Rightarrow> bool" where
  "isDigit c = (48 \<le> (of_char c :: nat) \<and> (of_char c :: nat) \<le> 57)"

definition digitValue :: "char \<Rightarrow> nat" where
  "digitValue c = (of_char c :: nat) - 48"

definition digitChar :: "nat \<Rightarrow> char" where
  "digitChar d = char_of (48 + d)"

text \<open>
  \<^verbatim>\<open>QString::toInt()\<close> converts in the C locale: white space around the number is
  ignored, a sign may stand before the decimal digits, and the result is 0 when the
  text is not such a number or when the number is outside the range of a 32-bit
  \<^verbatim>\<open>int\<close>. \<^verbatim>\<open>QChar::isSpace\<close> holds for the characters 9 to 13, the blank, and the
  characters 0x85 and 0xA0.
\<close>

definition isSpace :: "char \<Rightarrow> bool" where
  "isSpace c = ((of_char c :: nat) \<in> {9, 10, 11, 12, 13, 32, 133, 160})"

definition trimmed :: "string \<Rightarrow> string" where
  "trimmed s = rev (dropWhile isSpace (rev (dropWhile isSpace s)))"

definition digitsValue :: "string \<Rightarrow> nat" where
  "digitsValue s = foldl (\<lambda>a c. 10 * a + digitValue c) 0 s"

definition toInt :: "string \<Rightarrow> int" where
  "toInt s =
     (let t = trimmed s;
          signed = (t \<noteq> [] \<and> (hd t = CHR ''-'' \<or> hd t = CHR ''+''));
          digits = (if signed then tl t else t);
          v = (if t \<noteq> [] \<and> hd t = CHR ''-'' then - int (digitsValue digits)
               else int (digitsValue digits))
      in if digits \<noteq> [] \<and> list_all isDigit digits \<and> - 2147483648 \<le> v \<and> v \<le> 2147483647
         then v else 0)"

text \<open>\<^verbatim>\<open>QString::number(int)\<close>: the decimal digits, with a minus sign for a negative value.\<close>

function natToStr :: "nat \<Rightarrow> string" where
  "natToStr n = (if n < 10 then [digitChar n] else natToStr (n div 10) @ [digitChar (n mod 10)])"
  by pat_completeness auto
termination
  by (relation "measure id") auto

declare natToStr.simps [simp del]

definition number :: "int \<Rightarrow> string" where
  "number i = (if i < 0 then CHR ''-'' # natToStr (nat (- i)) else natToStr (nat i))"

section \<open>Runway records of the relational source\<close>

text \<open>
  One row of \<^verbatim>\<open>src.tbl_runways_pr\<close> as an \<^verbatim>\<open>SqlRecord\<close>, with the columns listed in
  \<^verbatim>\<open>writeRunwaysForAirport\<close>. A column that may hold SQL null is an option
  (\<^verbatim>\<open>valueStr\<close> reads null as the empty string). The field \<^verbatim>\<open>is_closed\<close> is not a
  column of the source: \<^verbatim>\<open>pairRunways\<close> appends it to the records it synthesizes, so
  it is \<^const>\<open>None\<close> on a source row. Float columns are idealised as reals.
\<close>

record SqlRecord =
  area_code :: string
  icao_code :: string
  airport_identifier :: string
  runway_identifier :: string
  runway_latitude :: real
  runway_longitude :: real
  runway_gradient :: real
  runway_magnetic_bearing :: real
  runway_true_bearing :: real
  landing_threshold_elevation :: int
  displaced_threshold_distance :: int
  threshold_crossing_height :: int
  runway_length :: int
  runway_width :: int
  llz_identifier :: "string option"
  llz_mls_gls_category :: string
  is_closed :: "bool option"

definition valueStrOpt :: "string option \<Rightarrow> string" where
  "valueStrOpt v = (case v of None \<Rightarrow> [] | Some s \<Rightarrow> s)"

text \<open>\<^verbatim>\<open>valueBool(name, defaultValue)\<close>: the default when the record has no such field.\<close>

definition valueBoolOpt :: "bool option \<Rightarrow> bool \<Rightarrow> bool" where
  "valueBoolOpt v dflt = (case v of None \<Rightarrow> dflt | Some b \<Rightarrow> b)"

section \<open>Geometry and magnetic model interface\<close>

text \<open>
  The functions of \<^verbatim>\<open>geo/calculations.h\<close>, \<^verbatim>\<open>geo::Pos\<close> and the magnetic
  declination reader are not part of the sources at hand; the compiler is modelled
  over them as parameters. A position is a pair (longitude, latitude).
\<close>

type_synonym Pos = "real \<times> real"

record GeoOps =
  opposedCourseDeg :: "real \<Rightarrow> real"
  normalizeCourse :: "real \<Rightarrow> real"
  feetToMeter :: "real \<Rightarrow> real"
  nmToMeter :: "real \<Rightarrow> real"
  endpoint :: "Pos \<Rightarrow> real \<Rightarrow> real \<Rightarrow> Pos"
  normalize :: "Pos \<Rightarrow> Pos"
  distanceMeterTo :: "Pos \<Rightarrow> Pos \<Rightarrow> real"
  getMagVar :: "Pos \<Rightarrow> real"

section \<open>DfdCompiler::pairRunways\<close>

text \<open>
  The name of the opposed runway end as the loop body computes it from
  \<^verbatim>\<open>rwident\<close>: \<^verbatim>\<open>rname\<close>, \<^verbatim>\<open>rnum\<close>, \<^verbatim>\<open>desig\<close>, \<^verbatim>\<open>opposedDesig\<close>, \<^verbatim>\<open>opposedRnum\<close>
  and \<^verbatim>\<open>opposedRname\<close> are the variables of the source.
\<close>

definition opposedDesig :: "string \<Rightarrow> string" where
  "opposedDesig desig = (if desig = ''R'' then ''L'' else if desig = ''L'' then ''R'' else desig)"

definition opposedRnum :: "int \<Rightarrow> int" where
  "opposedRnum rnum = (let n = rnum + 18 in if n > 36 then n - 36 else n)"

definition opposedRname :: "string \<Rightarrow> string" where
  "opposedRname rwident =
     (let rname = mid rwident 2;
          rnum = toInt (midn rname 0 2);
          desig = (if length rname > 2 then [rname ! 2] else []);
          n = opposedRnum rnum
      in ''RW'' @ (if n < 10 then ''0'' else []) @ number n @ opposedDesig desig)"

text \<open>The closed stub end synthesized when no opposite end is found.\<close>

definition closedEnd :: "GeoOps \<Rightarrow> SqlRecord \<Rightarrow> SqlRecord" where
  "closedEnd g rw =
     rw\<lparr> runway_identifier := opposedRname (runway_identifier rw),
          displaced_threshold_distance := 0,
          llz_identifier := None,
          runway_true_bearing := opposedCourseDeg g (runway_true_bearing rw),
          is_closed := Some True \<rparr>"

text \<open>
  One iteration of the outer loop over \<^verbatim>\<open>runways\<close>. The state is the set \<^verbatim>\<open>found\<close> and
  the list \<^verbatim>\<open>runwaypairs\<close>; the inner loop stops at the first record carrying the
  opposed name, which is \<^const>\<open>find\<close>.
\<close>

definition pairStep ::
  "GeoOps \<Rightarrow> SqlRecord list \<Rightarrow> string set \<times> (SqlRecord \<times> SqlRecord) list \<Rightarrow> SqlRecord
   \<Rightarrow> string set \<times> (SqlRecord \<times> SqlRecord) list" where
  "pairStep g runways st rw =
     (let found = fst st; runwaypairs = snd st; rwident = runway_identifier rw in
      if rwident \<in> found then st
      else
        (case find (\<lambda>orw. runway_identifier orw = opposedRname rwident) runways of
           Some orw \<Rightarrow>
             (insert rwident (insert (opposedRname rwident) found), runwaypairs @ [(rw, orw)])
         | None \<Rightarrow> (found, runwaypairs @ [(rw, closedEnd g rw)])))"

text \<open>The loop state after the records \<^verbatim>\<open>done\<close> (a prefix of \<^verbatim>\<open>runways\<close>) have been visited.\<close>

definition pairState ::
  "GeoOps \<Rightarrow> SqlRecord list \<Rightarrow> (SqlRecord \<times> SqlRecord) list \<Rightarrow> SqlRecord list
   \<Rightarrow> string set \<times> (SqlRecord \<times> SqlRecord) list" where
  "pairState g runways runwaypairs visited = foldl (pairStep g runways) ({}, runwaypairs) visited"

definition pairRunways ::
  "GeoOps \<Rightarrow> (SqlRecord \<times> SqlRecord) list \<Rightarrow> SqlRecord list \<Rightarrow> (SqlRecord \<times> SqlRecord) list" where
  "pairRunways g runwaypairs runways = snd (pairState g runways runwaypairs runways)"

section \<open>Bounding rectangles\<close>

text \<open>
  Modelled from the spec: \<^verbatim>\<open>geo::Rect\<close> is not part of the sources at hand. The spec
  stores a bounding rectangle as four columns (top-left longitude and latitude,
  bottom-right longitude and latitude), starts the airport rectangle as a square around
  the reference point and extends it by points; a segment's rectangle is the union of its
  endpoints. The top-left corner holds the western longitude and the northern latitude.
\<close>

record Rect =
  topLeft :: Pos
  bottomRight :: Pos

definition getLonX :: "Pos \<Rightarrow> real" where
  "getLonX p = fst p"

definition getLatY :: "Pos \<Rightarrow> real" where
  "getLatY p = snd p"

definition rectOfPos :: "Pos \<Rightarrow> Rect" where
  "rectOfPos p = \<lparr> topLeft = p, bottomRight = p \<rparr>"

definition inflateRect :: "Rect \<Rightarrow> real \<Rightarrow> real \<Rightarrow> Rect" where
  "inflateRect r degreesLon degreesLat =
     \<lparr> topLeft = (getLonX (topLeft r) - degreesLon, getLatY (topLeft r) + degreesLat),
       bottomRight = (getLonX (bottomRight r) + degreesLon, getLatY (bottomRight r) - degreesLat) \<rparr>"

definition extendRect :: "Rect \<Rightarrow> Pos \<Rightarrow> Rect" where
  "extendRect r p =
     \<lparr> topLeft = (min (getLonX (topLeft r)) (getLonX p), max (getLatY (topLeft r)) (getLatY p)),
       bottomRight = (max (getLonX (bottomRight r)) (getLonX p),
                      min (getLatY (bottomRight r)) (getLatY p)) \<rparr>"


section \<open>DfdCompiler: airports and runways\<close>

text \<open>
  The rows the compiler writes. Columns bound to a constant (the ``not available''
  defaults) and the name, country and military columns of the airport are left out: no
  statement below reads them.
\<close>

record AirportSource =
  src_airport_identifier :: string
  airport_ref_longitude :: real
  airport_ref_latitude :: real
  elevation :: real
  longest_runway_surface_code :: string

record AirportRow =
  airport_id :: int
  ident :: string
  left_lonx :: real
  top_laty :: real
  right_lonx :: real
  bottom_laty :: real
  apt_mag_var :: real
  apt_altitude :: real
  apt_lonx :: real
  apt_laty :: real
  num_runway_hard :: int
  num_runway_soft :: int
  num_runway_water :: int
  longest_runway_length :: int
  longest_runway_width :: int
  longest_runway_heading :: real
  num_runway_end_ils :: int
  num_runways :: int

record RunwayRow =
  runway_id :: int
  rw_airport_id :: int
  primary_end_id :: int
  secondary_end_id :: int
  rw_length :: int
  rw_width :: int
  rw_heading :: real
  primary_lonx :: real
  primary_laty :: real
  secondary_lonx :: real
  secondary_laty :: real
  rw_altitude :: int
  rw_lonx :: real
  rw_laty :: real

record RunwayEndRow =
  runway_end_id :: int
  name :: string
  end_type :: string
  offset_threshold :: int
  is_takeoff :: bool
  is_landing :: bool
  ils_ident :: string
  end_heading :: real
  end_lonx :: real
  end_laty :: real

text \<open>
  The compiler's members that the airport and runway writers use. \<^verbatim>\<open>AirportIndex\<close> is
  a lookup from identifier to airport id; \<^verbatim>\<open>getAirportId\<close> of an unknown identifier is -1.
\<close>

record DfdCompiler =
  airportRectMap :: "string \<rightharpoonup> Rect"
  longestRunwaySurfaceMap :: "string \<rightharpoonup> string"
  airportIndex :: "string \<rightharpoonup> int"
  curAirportId :: int
  curRunwayId :: int
  curRunwayEndId :: int
  airportTable :: "AirportRow list"
  runwayTable :: "RunwayRow list"
  runwayEndTable :: "RunwayEndRow list"

definition getAirportId :: "(string \<rightharpoonup> int) \<Rightarrow> string \<Rightarrow> int" where
  "getAirportId idx apt = (case idx apt of None \<Rightarrow> -1 | Some i \<Rightarrow> i)"

text \<open>
  One iteration of the loop of \<^verbatim>\<open>writeAirports\<close> over \<^verbatim>\<open>airportQuery\<close>.
  \<^verbatim>\<open>POS_EPSILON_100M\<close> is a constant of \<^verbatim>\<open>geo::Pos\<close> and a parameter here.
\<close>

definition writeAirport :: "GeoOps \<Rightarrow> real \<Rightarrow> DfdCompiler \<Rightarrow> AirportSource \<Rightarrow> DfdCompiler" where
  "writeAirport g POS_EPSILON_100M c a =
     (let pos = (airport_ref_longitude a, airport_ref_latitude a);
          ident = src_airport_identifier a;
          airportRect = inflateRect (rectOfPos pos) POS_EPSILON_100M POS_EPSILON_100M;
          newId = curAirportId c + 1
      in c\<lparr> airportRectMap := (airportRectMap c)(ident \<mapsto> airportRect),
            longestRunwaySurfaceMap := (longestRunwaySurfaceMap c)(ident \<mapsto> longest_runway_surface_code a),
            curAirportId := newId,
            airportIndex := (airportIndex c)(ident \<mapsto> newId),
            airportTable := airportTable c @
              [\<lparr> airport_id = newId, ident = ident,
                 left_lonx = getLonX (topLeft airportRect), top_laty = getLatY (topLeft airportRect),
                 right_lonx = getLonX (bottomRight airportRect),
                 bottom_laty = getLatY (bottomRight airportRect),
                 apt_mag_var = getMagVar g pos, apt_altitude = elevation a,
                 apt_lonx = getLonX pos, apt_laty = getLatY pos,
                 num_runway_hard = 0, num_runway_soft = 0, num_runway_water = 0,
                 longest_runway_length = 0, longest_runway_width = 0, longest_runway_heading = 0,
                 num_runway_end_ils = 0, num_runways = 0 \<rparr>] \<rparr>)"

definition writeAirports :: "GeoOps \<Rightarrow> real \<Rightarrow> DfdCompiler \<Rightarrow> AirportSource list \<Rightarrow> DfdCompiler" where
  "writeAirports g POS_EPSILON_100M c airports =
     foldl (writeAirport g POS_EPSILON_100M)
       (c\<lparr> airportRectMap := Map.empty, longestRunwaySurfaceMap := Map.empty \<rparr>) airports"

text \<open>C++ integer division truncates towards zero.\<close>

definition cdiv :: "int \<Rightarrow> int \<Rightarrow> int" where
  "cdiv a b = sgn a * sgn b * (\<bar>a\<bar> div \<bar>b\<bar>)"

text \<open>
  The local variables of \<^verbatim>\<open>writeRunwaysForAirport\<close> that the loop over the pairs
  updates, together with the id counters and the rows written.
\<close>

record RunwayLoop =
  numRunways :: int
  numRunwayIls :: int
  longestRunwayLength :: int
  longestRunwayWidth :: int
  longestRunwayHeading :: real
  airportRect :: Rect
  loopRunwayId :: int
  loopRunwayEndId :: int
  runwayRows :: "RunwayRow list"
  runwayEndRows :: "RunwayEndRow list"

definition runwayPairStep ::
  "GeoOps \<Rightarrow> int \<Rightarrow> RunwayLoop \<Rightarrow> SqlRecord \<times> SqlRecord \<Rightarrow> RunwayLoop" where
  "runwayPairStep g aptId l runwaypair =
     (let primaryRec = fst runwaypair; secondaryRec = snd runwaypair;
          primaryEndId = loopRunwayEndId l + 1; secondaryEndId = loopRunwayEndId l + 2;
          len = runway_length primaryRec; width = runway_width primaryRec;
          alt = cdiv (landing_threshold_elevation primaryRec +
                      landing_threshold_elevation secondaryRec) 2;
          lonX = (runway_longitude primaryRec + runway_longitude secondaryRec) / 2;
          latY = (runway_latitude primaryRec + runway_latitude secondaryRec) / 2;
          pos = (lonX, latY);
          magvar = getMagVar g pos;
          heading = normalizeCourse g (runway_magnetic_bearing primaryRec + magvar);
          opposedHeading = normalizeCourse g (runway_magnetic_bearing secondaryRec + magvar);
          longer = len > longestRunwayLength l;
          lengthMeter = feetToMeter g (real_of_int len);
          primaryPos = normalize g (endpoint g pos (lengthMeter / 2) opposedHeading);
          secondaryPos = normalize g (endpoint g pos (lengthMeter / 2) heading);
          pClosed = valueBoolOpt (is_closed primaryRec) False;
          sClosed = valueBoolOpt (is_closed secondaryRec) False;
          runwayId = loopRunwayId l + 1
      in l\<lparr> numRunwayIls :=
              (if valueStrOpt (llz_identifier primaryRec) = [] then numRunwayIls l + 1
               else numRunwayIls l),
            longestRunwayLength := (if longer then len else longestRunwayLength l),
            longestRunwayWidth := (if longer then width else longestRunwayWidth l),
            longestRunwayHeading := (if longer then heading else longestRunwayHeading l),
            numRunways := numRunways l + 1,
            airportRect := extendRect (extendRect (airportRect l) primaryPos) secondaryPos,
            loopRunwayId := runwayId,
            loopRunwayEndId := secondaryEndId,
            runwayEndRows := runwayEndRows l @
              [\<lparr> runway_end_id = primaryEndId, name = mid (runway_identifier primaryRec) 2,
                 end_type = ''P'',
                 offset_threshold = displaced_threshold_distance primaryRec,
                 is_takeoff = (\<not> pClosed), is_landing = (\<not> pClosed),
                 ils_ident = valueStrOpt (llz_identifier primaryRec), end_heading = heading,
                 end_lonx = getLonX primaryPos, end_laty = getLatY primaryPos \<rparr>,
               \<lparr> runway_end_id = secondaryEndId, name = mid (runway_identifier secondaryRec) 2,
                 end_type = ''S'',
                 offset_threshold = displaced_threshold_distance secondaryRec,
                 is_takeoff = (\<not> sClosed), is_landing = (\<not> sClosed),
                 ils_ident = valueStrOpt (llz_identifier secondaryRec),
                 end_heading = opposedHeading,
                 end_lonx = getLonX secondaryPos, end_laty = getLatY secondaryPos \<rparr>],
            runwayRows := runwayRows l @
              [\<lparr> runway_id = runwayId, rw_airport_id = aptId,
                 primary_end_id = primaryEndId, secondary_end_id = secondaryEndId,
                 rw_length = len, rw_width = width, rw_heading = heading,
                 primary_lonx = getLonX primaryPos, primary_laty = getLatY primaryPos,
                 secondary_lonx = getLonX secondaryPos, secondary_laty = getLatY secondaryPos,
                 rw_altitude = alt, rw_lonx = lonX, rw_laty = latY \<rparr>] \<rparr>)"

text \<open>
  The state of the loop before the first pair. \<^verbatim>\<open>airportRectMap.value(apt)\<close> of an
  identifier that is not in the map is a default-constructed rectangle, a parameter here.
\<close>

definition runwayLoopInit :: "Rect \<Rightarrow> DfdCompiler \<Rightarrow> string \<Rightarrow> RunwayLoop" where
  "runwayLoopInit defaultRect c apt =
     \<lparr> numRunways = 0, numRunwayIls = 0, longestRunwayLength = 0, longestRunwayWidth = 0,
       longestRunwayHeading = 0,
       airportRect = (case airportRectMap c apt of None \<Rightarrow> defaultRect | Some r \<Rightarrow> r),
       loopRunwayId = curRunwayId c, loopRunwayEndId = curRunwayEndId c,
       runwayRows = [], runwayEndRows = [] \<rparr>"

definition runwayLoop :: "GeoOps \<Rightarrow> Rect \<Rightarrow> DfdCompiler \<Rightarrow> string \<Rightarrow> SqlRecord list \<Rightarrow> RunwayLoop" where
  "runwayLoop g defaultRect c apt runways =
     foldl (runwayPairStep g (getAirportId (airportIndex c) apt))
       (runwayLoopInit defaultRect c apt) (pairRunways g [] runways)"

text \<open>The statement \<^verbatim>\<open>airportUpdateQuery\<close>: an update of the rows with the bound airport id.\<close>

definition airportUpdate :: "int \<Rightarrow> string \<Rightarrow> RunwayLoop \<Rightarrow> AirportRow \<Rightarrow> AirportRow" where
  "airportUpdate aptid surface l row =
     (if airport_id row = aptid then
        row\<lparr> num_runway_hard :=
                (if surface = ''H'' then numRunways l
                 else if surface = ''S'' then numRunways l - 1
                 else if surface = ''W'' then numRunways l - 1 else 0),
              num_runway_soft := (if surface = ''S'' then 1 else 0),
              num_runway_water := (if surface = ''W'' then 1 else 0),
              longest_runway_length := longestRunwayLength l,
              longest_runway_width := longestRunwayWidth l,
              longest_runway_heading := longestRunwayHeading l,
              num_runway_end_ils := numRunwayIls l,
              num_runways := numRunways l,
              left_lonx := getLonX (topLeft (airportRect l)),
              top_laty := getLatY (topLeft (airportRect l)),
              right_lonx := getLonX (bottomRight (airportRect l)),
              bottom_laty := getLatY (bottomRight (airportRect l)) \<rparr>
      else row)"

definition writeRunwaysForAirport ::
  "GeoOps \<Rightarrow> Rect \<Rightarrow> DfdCompiler \<Rightarrow> SqlRecord list \<Rightarrow> string \<Rightarrow> DfdCompiler" where
  "writeRunwaysForAirport g defaultRect c runways apt =
     (let l = runwayLoop g defaultRect c apt runways;
          surface = (case longestRunwaySurfaceMap c apt of None \<Rightarrow> [] | Some s \<Rightarrow> s)
      in c\<lparr> curRunwayId := loopRunwayId l,
            curRunwayEndId := loopRunwayEndId l,
            runwayTable := runwayTable c @ runwayRows l,
            runwayEndTable := runwayEndTable c @ runwayEndRows l,
            airportTable :=
              map (airportUpdate (getAirportId (airportIndex c) apt) surface l) (airportTable c) \<rparr>)"

text \<open>
  \<^verbatim>\<open>writeRunways\<close>: the rows of \<^verbatim>\<open>runwayQuery\<close> are collected while the airport
  identifier stays the same and written when it changes and after the last row;
  \<^verbatim>\<open>writeRunwaysForAirport\<close> clears the collected list.
\<close>

definition writeRunwaysStep ::
  "GeoOps \<Rightarrow> Rect \<Rightarrow> DfdCompiler \<times> SqlRecord list \<times> string \<Rightarrow> SqlRecord
   \<Rightarrow> DfdCompiler \<times> SqlRecord list \<times> string" where
  "writeRunwaysStep g defaultRect st row =
     (let c = fst st; runways = fst (snd st); lastApt = snd (snd st);
          apt = airport_identifier row
      in if lastApt \<noteq> [] \<and> lastApt \<noteq> apt
         then (writeRunwaysForAirport g defaultRect c runways lastApt, [row], apt)
         else (c, runways @ [row], apt))"

definition writeRunways :: "GeoOps \<Rightarrow> Rect \<Rightarrow> DfdCompiler \<Rightarrow> SqlRecord list \<Rightarrow> DfdCompiler" where
  "writeRunways g defaultRect c rows =
     (let st = foldl (writeRunwaysStep g defaultRect) (c, [], []) rows
      in writeRunwaysForAirport g defaultRect (fst st) (fst (snd st)) (snd (snd st)))"

section \<open>DfdCompiler::writeAirways\<close>

text \<open>A row of the airway query (airways joined with waypoints, ordered by route and sequence).\<close>

record AirwayRow =
  route_identifier :: string
  seqno :: int
  flightlevel :: string
  waypoint_description_code :: string
  waypoint_id :: int
  direction_restriction :: string
  minimum_altitude1 :: int
  minimum_altitude2 :: int
  maximum_altitude :: int
  aw_lonx :: real
  aw_laty :: real

text \<open>A row inserted into the table \<^verbatim>\<open>airway\<close>.\<close>

record AirwaySegment =
  airway_name :: string
  airway_type :: string
  airway_fragment_no :: int
  sequence_no :: int
  from_waypoint_id :: int
  to_waypoint_id :: int
  direction :: string
  minimum_altitude :: int
  seg_maximum_altitude :: int
  seg_rect :: Rect
  from_pos :: Pos
  to_pos :: Pos

text \<open>
  The variables that live across the iterations of the loop, and the rows inserted so
  far. \<^verbatim>\<open>lastRec\<close> starts as an empty record, here \<^const>\<open>None\<close>.
\<close>

record AirwayLoop =
  lastRec :: "AirwayRow option"
  lastName :: string
  lastEndOfRoute :: bool
  sequenceNumber :: int
  fragmentNumber :: int
  inserted :: "AirwaySegment list"

definition airwayLoopInit :: AirwayLoop where
  "airwayLoopInit =
     \<lparr> lastRec = None, lastName = [], lastEndOfRoute = True, sequenceNumber = 1,
       fragmentNumber = 1, inserted = [] \<rparr>"

text \<open>\<^verbatim>\<open>code.size() > 1 && code.at(1) == "E"\<close>\<close>

definition endOfRouteCode :: "string \<Rightarrow> bool" where
  "endOfRouteCode code = (length code > 1 \<and> code ! 1 = CHR ''E'')"

text \<open>The row bound to the insert statement for the pair of the last and the current row.\<close>

definition airwaySegment :: "AirwayRow \<Rightarrow> AirwayRow \<Rightarrow> int \<Rightarrow> int \<Rightarrow> AirwaySegment" where
  "airwaySegment l cur fragment sequence =
     (let fromPos = (aw_lonx l, aw_laty l); toPos = (aw_lonx cur, aw_laty cur);
          awType = flightlevel l; dir = direction_restriction l
      in \<lparr> airway_name = route_identifier l,
           airway_type = (if awType = ''H'' then ''J'' else if awType = ''L'' then ''V'' else ''B''),
           airway_fragment_no = fragment,
           sequence_no = sequence,
           from_waypoint_id = waypoint_id l,
           to_waypoint_id = waypoint_id cur,
           direction = (if dir = [] \<or> dir = '' '' then ''N'' else dir),
           minimum_altitude = minimum_altitude1 l,
           seg_maximum_altitude = maximum_altitude l,
           seg_rect = extendRect (rectOfPos fromPos) toPos,
           from_pos = fromPos, to_pos = toPos \<rparr>)"

text \<open>
  One iteration of the loop. The three stages are the statements of the body in their
  order: the new fragment, the insert, and the assignments that close the iteration. The
  insert reads \<^verbatim>\<open>lastRec\<close> only when \<^verbatim>\<open>lastName\<close> is not empty, and both are assigned
  together, so the record is never the empty one there.
\<close>

definition airwayStep :: "AirwayLoop \<Rightarrow> AirwayRow \<Rightarrow> AirwayLoop" where
  "airwayStep s cur =
     (let name = route_identifier cur;
          code = waypoint_description_code cur;
          nameChange = (lastName s \<noteq> [] \<and> name \<noteq> lastName s);
          s1 = (if lastName s \<noteq> [] \<and> \<not> nameChange \<and> lastEndOfRoute s
                then s\<lparr> fragmentNumber := fragmentNumber s + 1, sequenceNumber := 1 \<rparr> else s);
          s2 = (if lastName s \<noteq> [] \<and> \<not> lastEndOfRoute s \<and> \<not> nameChange
                then (case lastRec s of
                        None \<Rightarrow> s1
                      | Some l \<Rightarrow>
                          s1\<lparr> inserted := inserted s1 @
                                 [airwaySegment l cur (fragmentNumber s1) (sequenceNumber s1)],
                               sequenceNumber := sequenceNumber s1 + 1 \<rparr>)
                else s1);
          s3 = s2\<lparr> lastRec := Some cur, lastName := name, lastEndOfRoute := endOfRouteCode code \<rparr>
      in if nameChange then s3\<lparr> fragmentNumber := 1, sequenceNumber := 1 \<rparr> else s3)"

definition airwayLoop :: "AirwayRow list \<Rightarrow> AirwayLoop" where
  "airwayLoop rows = foldl airwayStep airwayLoopInit rows"

definition writeAirways :: "AirwayRow list \<Rightarrow> AirwaySegment list" where
  "writeAirways rows = inserted (airwayLoop rows)"

section \<open>Column update passes\<close>

text \<open>
  Modelled from the spec: \<^verbatim>\<open>SqlUtil::updateColumnInTable\<close> is not part of the sources at
  hand. The spec describes it as the generic (select-columns, update-columns,
  transform-fn) tabular update primitive: the function is called for every row of the
  table with the selected columns and, when it returns true, the values it has bound are
  written to the update columns of that row. Here the function returns the bound values,
  or \<^const>\<open>None\<close> for false.
\<close>

definition updateColumnInTable :: "('row \<Rightarrow> 'v option) \<Rightarrow> ('row \<Rightarrow> 'v \<Rightarrow> 'row) \<Rightarrow> 'row list \<Rightarrow> 'row list" where
  "updateColumnInTable func bind rows =
     map (\<lambda>r. case func r of None \<Rightarrow> r | Some v \<Rightarrow> bind r v) rows"

text \<open>
  A row of a table with a position and a magnetic variation (\<^verbatim>\<open>waypoint\<close>, \<^verbatim>\<open>ndb\<close>);
  the other columns of these tables are left out, the update does not touch them.
\<close>

record PosRow =
  row_id :: int
  lonx :: real
  laty :: real
  mag_var :: real

record IlsRow =
  ils_id :: int
  ils_lonx :: real
  ils_laty :: real
  loc_heading :: real
  loc_width :: real
  end1_lonx :: real
  end1_laty :: real
  end_mid_lonx :: real
  end_mid_laty :: real
  end2_lonx :: real
  end2_laty :: real

record NavTables =
  waypoint :: "PosRow list"
  ndb :: "PosRow list"
  ils :: "IlsRow list"

definition magvarFunc :: "GeoOps \<Rightarrow> PosRow \<Rightarrow> real option" where
  "magvarFunc g from = Some (getMagVar g (lonx from, laty from))"

definition magvarBind :: "PosRow \<Rightarrow> real \<Rightarrow> PosRow" where
  "magvarBind to v = to\<lparr> mag_var := v \<rparr>"

definition updateMagvar :: "GeoOps \<Rightarrow> NavTables \<Rightarrow> NavTables" where
  "updateMagvar g db =
     db\<lparr> waypoint := updateColumnInTable (magvarFunc g) magvarBind (waypoint db),
          ndb := updateColumnInTable (magvarFunc g) magvarBind (ndb db) \<rparr>"

text \<open>
  The function of \<^verbatim>\<open>updateIlsGeometry\<close>; \<^verbatim>\<open>featherLen\<close> is the integer constant
  \<^verbatim>\<open>ILS_FEATHER_LEN_NM\<close> of the class declaration. It returns the points
  \<^verbatim>\<open>p1\<close>, \<^verbatim>\<open>pmid\<close> and \<^verbatim>\<open>p2\<close>.
\<close>

definition ilsFunc :: "GeoOps \<Rightarrow> int \<Rightarrow> IlsRow \<Rightarrow> (Pos \<times> Pos \<times> Pos) option" where
  "ilsFunc g featherLen from =
     (let origin = (ils_lonx from, ils_laty from);
          len = nmToMeter g (real_of_int featherLen);
          width = loc_width from;
          heading = opposedCourseDeg g (loc_heading from);
          p1 = normalize g (endpoint g origin len (heading - width / 2));
          p2 = normalize g (endpoint g origin len (heading + width / 2));
          featherWidth = distanceMeterTo g p1 p2;
          pmid = normalize g (endpoint g origin (len - featherWidth / 2) heading)
      in Some (p1, pmid, p2))"

definition ilsBind :: "IlsRow \<Rightarrow> Pos \<times> Pos \<times> Pos \<Rightarrow> IlsRow" where
  "ilsBind to v =
     (let p1 = fst v; pmid = fst (snd v); p2 = snd (snd v)
      in to\<lparr> end1_lonx := getLonX p1, end1_laty := getLatY p1,
             end_mid_lonx := getLonX pmid, end_mid_laty := getLatY pmid,
             end2_lonx := getLonX p2, end2_laty := getLatY p2 \<rparr>)"

definition updateIlsGeometry :: "GeoOps \<Rightarrow> int \<Rightarrow> NavTables \<Rightarrow> NavTables" where
  "updateIlsGeometry g featherLen db =
     db\<lparr> ils := updateColumnInTable (ilsFunc g featherLen) ilsBind (ils db) \<rparr>"

section \<open>The METAR index\<close>

text \<open>
  Modelled from the spec: \<^verbatim>\<open>metarindex.cpp\<close> and \<^verbatim>\<open>weathertypes.h\<close> are not part of the
  sources at hand, only the class declaration is. A METAR entry carries the station
  identifier, the timestamp and the raw METAR body. The declaration keeps the entries in
  \<^verbatim>\<open>spatialIndex\<close> and maps every identifier to the position of its entry there in
  \<^verbatim>\<open>identIndexMap\<close>. Timestamps are seconds since the epoch. The parser of the three
  file formats is outside the model: \<^verbatim>\<open>read\<close> takes the parsed records in file order.
\<close>

record MetarData =
  md_ident :: string
  md_metar :: string
  md_timestamp :: int

record MetarIndex =
  identIndexMap :: "string \<rightharpoonup> nat"
  spatialIndex :: "MetarData list"

definition clear :: MetarIndex where
  "clear = \<lparr> identIndexMap = Map.empty, spatialIndex = [] \<rparr>"

text \<open>
  Modelled from the spec: update or insert a METAR entry; on a duplicate station
  identifier the entry with the later timestamp wins. The spec does not say which of
  two entries with the same timestamp stays; here the one in the index does.
\<close>

definition updateOrInsert :: "MetarIndex \<Rightarrow> string \<Rightarrow> string \<Rightarrow> int \<Rightarrow> MetarIndex" where
  "updateOrInsert idx metar station lastTimestamp =
     (let entry = \<lparr> md_ident = station, md_metar = metar, md_timestamp = lastTimestamp \<rparr> in
      case identIndexMap idx station of
        Some i \<Rightarrow>
          (if i < length (spatialIndex idx) \<and> md_timestamp (spatialIndex idx ! i) < lastTimestamp
           then idx\<lparr> spatialIndex := (spatialIndex idx)[i := entry] \<rparr>
           else idx)
      | None \<Rightarrow>
          idx\<lparr> identIndexMap := (identIndexMap idx)(station \<mapsto> length (spatialIndex idx)),
               spatialIndex := spatialIndex idx @ [entry] \<rparr>)"

text \<open>
  Modelled from the spec: \<^verbatim>\<open>read(stream, file_name, merge)\<close> parses all records, clears
  the index first when \<^verbatim>\<open>merge\<close> is false, keeps the newer timestamp on a duplicate
  station identifier and returns the number of records read.
\<close>

definition read :: "MetarIndex \<Rightarrow> MetarData list \<Rightarrow> bool \<Rightarrow> MetarIndex \<times> int" where
  "read idx records merge =
     (foldl (\<lambda>i r. updateOrInsert i (md_metar r) (md_ident r) (md_timestamp r))
        (if merge then idx else clear) records,
      int (length records))"

text \<open>
  The index is well formed when \<^verbatim>\<open>identIndexMap\<close> maps exactly the identifiers of the
  entries, each to the position of an entry of that identifier.
\<close>

definition wellFormedIndex :: "MetarIndex \<Rightarrow> bool" where
  "wellFormedIndex idx =
     (\<forall>s i. identIndexMap idx s = Some i \<longleftrightarrow>
        (i < length (spatialIndex idx) \<and> md_ident (spatialIndex idx ! i) = s))"

section \<open>The binary record reader\<close>

text \<open>
  Modelled from the spec: \<^verbatim>\<open>io/binarystream.h\<close> and the class \<^verbatim>\<open>Record\<close> are not part of
  the sources at hand. The reader is sequential and position-tracking over a byte
  stream, integers are little-endian, a read past the end fails with \<^verbatim>\<open>EndOfStream\<close>,
  and every record begins with a 16-bit type tag and a 32-bit length. A float is kept as
  its 32 bits. \<^verbatim>\<open>OutOfFuel\<close> is the result of a loop that has not ended within the
  number of iterations it was given.
\<close>

datatype 'a Parse = Parsed 'a | EndOfStream | OutOfFuel

definition bindP :: "'a Parse \<Rightarrow> ('a \<Rightarrow> 'b Parse) \<Rightarrow> 'b Parse" where
  "bindP m f = (case m of Parsed x \<Rightarrow> f x | EndOfStream \<Rightarrow> EndOfStream | OutOfFuel \<Rightarrow> OutOfFuel)"

record BinaryStream =
  bs_data :: "8 word list"
  bs_pos :: nat

definition tellg :: "BinaryStream \<Rightarrow> nat" where
  "tellg bs = bs_pos bs"

definition seekg :: "BinaryStream \<Rightarrow> nat \<Rightarrow> BinaryStream" where
  "seekg bs p = bs\<lparr> bs_pos := p \<rparr>"

definition skip :: "BinaryStream \<Rightarrow> nat \<Rightarrow> BinaryStream" where
  "skip bs n = bs\<lparr> bs_pos := bs_pos bs + n \<rparr>"

definition readUByte :: "BinaryStream \<Rightarrow> (8 word \<times> BinaryStream) Parse" where
  "readUByte bs =
     (if bs_pos bs < length (bs_data bs)
      then Parsed (bs_data bs ! bs_pos bs, bs\<lparr> bs_pos := bs_pos bs + 1 \<rparr>)
      else EndOfStream)"

definition readByte :: "BinaryStream \<Rightarrow> (8 word \<times> BinaryStream) Parse" where
  "readByte bs = readUByte bs"

definition readUShort :: "BinaryStream \<Rightarrow> (16 word \<times> BinaryStream) Parse" where
  "readUShort bs =
     bindP (readUByte bs) (\<lambda>(b0, bs1).
     bindP (readUByte bs1) (\<lambda>(b1, bs2).
     Parsed (ucast b0 OR push_bit 8 (ucast b1), bs2)))"

definition readUInt :: "BinaryStream \<Rightarrow> (32 word \<times> BinaryStream) Parse" where
  "readUInt bs =
     bindP (readUShort bs) (\<lambda>(lo, bs1).
     bindP (readUShort bs1) (\<lambda>(hi, bs2).
     Parsed (ucast lo OR push_bit 16 (ucast hi), bs2)))"

definition readFloat :: "BinaryStream \<Rightarrow> (32 word \<times> BinaryStream) Parse" where
  "readFloat bs = readUInt bs"

record BglRecord =
  startOffset :: nat
  rec_id :: "16 word"
  rec_size :: "32 word"

definition readRecord :: "BinaryStream \<Rightarrow> (BglRecord \<times> BinaryStream) Parse" where
  "readRecord bs =
     bindP (readUShort bs) (\<lambda>(i, bs1).
     bindP (readUInt bs1) (\<lambda>(sz, bs2).
     Parsed (\<lparr> startOffset = tellg bs, rec_id = i, rec_size = sz \<rparr>, bs2)))"

definition seekToStart :: "BglRecord \<Rightarrow> BinaryStream \<Rightarrow> BinaryStream" where
  "seekToStart r bs = seekg bs (startOffset r)"

definition seekToEnd :: "BglRecord \<Rightarrow> BinaryStream \<Rightarrow> BinaryStream" where
  "seekToEnd r bs = seekg bs (startOffset r + unat (rec_size r))"

section \<open>bgl::Approach\<close>

text \<open>
  The record types the constructor dispatches on. Their numeric values are declared in
  \<^verbatim>\<open>recordtypes.h\<close>, which is not part of the sources at hand: the mapping from the tag
  to the type is a parameter, and a tag the enumeration does not name is carried as it is.
\<close>

datatype ApprRecordType =
  LEGS | LEGS_MSFS | LEGS_MSFS_116 | LEGS_MSFS_118
  | MISSED_LEGS | MISSED_LEGS_MSFS | MISSED_LEGS_MSFS_116 | MISSED_LEGS_MSFS_118
  | TRANSITION | TRANSITION_MSFS | TRANSITION_MSFS_116
  | UnnamedRecordType "16 word"

text \<open>The simulator types the sources name (\<^verbatim>\<open>FsPaths::SimulatorType\<close>).\<close>

datatype SimulatorType = P3D_V3 | P3D_V4 | P3D_V5 | XPLANE_11 | XPLANE_12 | MSFS | NAVIGRAPH | DFD

datatype QtMsgType = QtDebugMsg | QtInfoMsg | QtWarningMsg | QtCriticalMsg

record LogEntry =
  level :: QtMsgType
  log_recType :: ApprRecordType
  log_ident :: string
  log_offset :: nat

text \<open>
  What the constructor takes from its surroundings: the converter of packed identifiers,
  the constructors of the leg and transition records, the check of a subrecord, the
  options, and whether the build defines \<^verbatim>\<open>DEBUG_INFORMATION\<close>.
\<close>

record ('leg, 'trans) ApproachEnv =
  intToIcao :: "32 word \<Rightarrow> bool \<Rightarrow> string"
  readApproachLeg :: "BinaryStream \<Rightarrow> ApprRecordType \<Rightarrow> ('leg \<times> BinaryStream) Parse"
  readTransition :: "BinaryStream \<Rightarrow> ApprRecordType \<Rightarrow> ('trans \<times> BinaryStream) Parse"
  checkSubRecord :: "BglRecord \<Rightarrow> bool"
  apprRecordType :: "16 word \<Rightarrow> ApprRecordType"
  isIncludedApproachLeg :: bool
  getSimulatorType :: SimulatorType
  DEBUG_INFORMATION :: bool

record ('leg, 'trans) Approach =
  ap_record :: BglRecord
  suffix :: "8 word"
  runwayNumber :: "8 word"
  approachType :: "32 word"
  runwayDesignator :: "32 word"
  gpsOverlay :: bool
  numTransitions :: "8 word"
  fixType :: "32 word"
  fixIdent :: string
  fixRegion :: string
  fixAirportIdent :: string
  ap_altitude :: "32 word"
  ap_heading :: "32 word"
  missedAltitude :: "32 word"
  legs :: "'leg list"
  missedLegs :: "'leg list"
  transitions :: "'trans list"

text \<open>
  The constructor up to the loop over the subrecords. \<^verbatim>\<open>typeFlags\<close> is an \<^verbatim>\<open>int\<close>
  holding an unsigned byte, \<^verbatim>\<open>fixFlags\<close> and \<^verbatim>\<open>fixIdentFlags\<close> are unsigned 32-bit
  integers.
\<close>

definition readApproachHeader ::
  "('leg, 'trans) ApproachEnv \<Rightarrow> bool \<Rightarrow> BinaryStream
   \<Rightarrow> (('leg, 'trans) Approach \<times> BinaryStream) Parse" where
  "readApproachHeader env msfsApproachNew bs0 =
     bindP (readRecord bs0) (\<lambda>(r, bs).
     bindP (readByte bs) (\<lambda>(sfx, bs).
     bindP (readUByte bs) (\<lambda>(rwNum, bs).
     bindP (readUByte bs) (\<lambda>(flagsByte, bs).
     bindP (readUByte bs) (\<lambda>(numTrans, bs).
     bindP (readUByte bs) (\<lambda>(numLegs, bs).
     bindP (readUByte bs) (\<lambda>(numMissedLegs, bs).
     bindP (readUInt bs) (\<lambda>(fixFlags, bs).
     bindP (readUInt bs) (\<lambda>(fixIdentFlags, bs).
     bindP (readFloat bs) (\<lambda>(alt, bs).
     bindP (readFloat bs) (\<lambda>(hdg, bs).
     bindP (readFloat bs) (\<lambda>(missedAlt, bs).
     let typeFlags = (ucast flagsByte :: 32 word) in
     Parsed
       (\<lparr> ap_record = r, suffix = sfx, runwayNumber = rwNum,
          approachType = typeFlags AND 0xf,
          runwayDesignator = drop_bit 4 typeFlags AND 0x7,
          gpsOverlay = (typeFlags AND 0x80 = 0x80),
          numTransitions = numTrans,
          fixType = fixFlags AND 0xf,
          fixIdent = intToIcao env (drop_bit 5 fixFlags AND 0xfffffff) True,
          fixRegion = intToIcao env (fixIdentFlags AND 0x7ff) True,
          fixAirportIdent = intToIcao env (drop_bit 11 fixIdentFlags AND 0x1fffff) True,
          ap_altitude = alt, ap_heading = hdg, missedAltitude = missedAlt,
          legs = [], missedLegs = [], transitions = [] \<rparr>,
        if msfsApproachNew then skip bs 4 else bs)))))))))))))"

text \<open>The state of the loop over the subrecords: the approach, the stream and the log.\<close>

record ('leg, 'trans) ApproachLoop =
  approach :: "('leg, 'trans) Approach"
  stream :: BinaryStream
  log :: "LogEntry list"

datatype 'a LoopStep = Continue 'a | Return 'a

fun readLegs ::
  "('leg, 'trans) ApproachEnv \<Rightarrow> ApprRecordType \<Rightarrow> nat \<Rightarrow> BinaryStream
   \<Rightarrow> ('leg list \<times> BinaryStream) Parse" where
  "readLegs env recType 0 bs = Parsed ([], bs)"
| "readLegs env recType (Suc n) bs =
     bindP (readApproachLeg env bs recType) (\<lambda>(leg, bs1).
     bindP (readLegs env recType n bs1) (\<lambda>(ls, bs2).
     Parsed (leg # ls, bs2)))"

text \<open>
  The body of the loop: the header of the subrecord, \<^verbatim>\<open>checkSubRecord\<close> (the constructor
  returns when it holds), the switch over the record type, and \<^verbatim>\<open>seekToEnd\<close>. The
  warning of the default branch is guarded by the simulator type unless the build defines
  \<^verbatim>\<open>DEBUG_INFORMATION\<close>.
\<close>

definition subRecord ::
  "('leg, 'trans) ApproachEnv \<Rightarrow> ('leg, 'trans) ApproachLoop
   \<Rightarrow> ('leg, 'trans) ApproachLoop LoopStep Parse" where
  "subRecord env st =
     bindP (readRecord (stream st)) (\<lambda>(r, bs).
       let recType = apprRecordType env (rec_id r); a = approach st in
       if checkSubRecord env r then Parsed (Return (st\<lparr> stream := bs \<rparr>))
       else
         bindP
           (if recType \<in> {LEGS, LEGS_MSFS, LEGS_MSFS_116, LEGS_MSFS_118} then
              (if isIncludedApproachLeg env then
                 bindP (readUShort bs) (\<lambda>(num, bs1).
                 bindP (readLegs env recType (unat num) bs1) (\<lambda>(ls, bs2).
                 Parsed (st\<lparr> approach := a\<lparr> legs := legs a @ ls \<rparr>, stream := bs2 \<rparr>)))
               else Parsed (st\<lparr> stream := bs \<rparr>))
            else if recType \<in> {MISSED_LEGS, MISSED_LEGS_MSFS, MISSED_LEGS_MSFS_116,
                                MISSED_LEGS_MSFS_118} then
              (if isIncludedApproachLeg env then
                 bindP (readUShort bs) (\<lambda>(num, bs1).
                 bindP (readLegs env recType (unat num) bs1) (\<lambda>(ls, bs2).
                 Parsed (st\<lparr> approach := a\<lparr> missedLegs := missedLegs a @ ls \<rparr>, stream := bs2 \<rparr>)))
               else Parsed (st\<lparr> stream := bs \<rparr>))
            else if recType \<in> {TRANSITION, TRANSITION_MSFS, TRANSITION_MSFS_116} then
              bindP (readTransition env (seekToStart r bs) recType) (\<lambda>(t, bs1).
              Parsed (st\<lparr> approach := a\<lparr> transitions := transitions a @ [t] \<rparr>, stream := bs1 \<rparr>))
            else
              Parsed (st\<lparr> stream := bs,
                         log := (if DEBUG_INFORMATION env \<or> getSimulatorType env \<noteq> MSFS
                                 then log st @
                                   [\<lparr> level = QtWarningMsg, log_recType = recType,
                                      log_ident = fixAirportIdent a, log_offset = tellg bs \<rparr>]
                                 else log st) \<rparr>))
           (\<lambda>st1. Parsed (Continue (st1\<lparr> stream := seekToEnd r (stream st1) \<rparr>))))"

text \<open>
  \<^verbatim>\<open>while(bs->tellg() < startOffset + size)\<close>, with the number of iterations bounded by
  the first argument.
\<close>

fun subRecords ::
  "nat \<Rightarrow> ('leg, 'trans) ApproachEnv \<Rightarrow> ('leg, 'trans) ApproachLoop
   \<Rightarrow> ('leg, 'trans) ApproachLoop Parse" where
  "subRecords 0 env st =
     (let r = ap_record (approach st) in
      if tellg (stream st) < startOffset r + unat (rec_size r) then OutOfFuel else Parsed st)"
| "subRecords (Suc n) env st =
     (let r = ap_record (approach st) in
      if tellg (stream st) < startOffset r + unat (rec_size r) then
        bindP (subRecord env st) (\<lambda>step.
          case step of Return st1 \<Rightarrow> Parsed st1 | Continue st1 \<Rightarrow> subRecords n env st1)
      else Parsed st)"

definition readApproach ::
  "nat \<Rightarrow> ('leg, 'trans) ApproachEnv \<Rightarrow> bool \<Rightarrow> BinaryStream
   \<Rightarrow> ('leg, 'trans) ApproachLoop Parse" where
  "readApproach fuel env msfsApproachNew bs =
     bindP (readApproachHeader env msfsApproachNew bs) (\<lambda>(a, bs1).
       subRecords fuel env \<lparr> approach = a, stream = bs1, log = [] \<rparr>)"

section \<open>Statements of the specification\<close>

text \<open>
  The opposite designator as the specification words it: the number is
  \<open>(n + 18) mod 36\<close> with 0 remapped to 36, written with two digits, and the side
  letter L and R are swapped while any other designator stays.
\<close>

definition twoDigits :: "nat \<Rightarrow> string" where
  "twoDigits n = [digitChar (n div 10), digitChar (n mod 10)]"

definition spec_opposite_number :: "nat \<Rightarrow> nat" where
  "spec_opposite_number n = (let k = (n + 18) mod 36 in if k = 0 then 36 else k)"

definition spec_opposite_side :: "string \<Rightarrow> string" where
  "spec_opposite_side s = (if s = ''L'' then ''R'' else if s = ''R'' then ''L'' else s)"

text \<open>
  A runway identifier of the source: \<^verbatim>\<open>RW\<close>, a two-digit runway number from 01 to 36,
  and at most one more character.
\<close>

definition wfRunwayIdent :: "string \<Rightarrow> bool" where
  "wfRunwayIdent x =
     ((length x = 4 \<or> length x = 5) \<and> take 2 x = ''RW'' \<and> isDigit (x ! 2) \<and> isDigit (x ! 3) \<and>
      1 \<le> toInt (midn x 2 2) \<and> toInt (midn x 2 2) \<le> 36)"

text \<open>
  A pair of two source ends of the input \<^verbatim>\<open>runways\<close>, and an identifier that such a pair
  of the list \<^verbatim>\<open>pairs\<close> has consumed: it names one of the two ends of the pair.
\<close>

definition sourcePair :: "SqlRecord list \<Rightarrow> SqlRecord \<times> SqlRecord \<Rightarrow> bool" where
  "sourcePair runways p = (fst p \<in> set runways \<and> snd p \<in> set runways)"

definition pairIdents :: "SqlRecord \<times> SqlRecord \<Rightarrow> string set" where
  "pairIdents p = {runway_identifier (fst p), runway_identifier (snd p)}"

definition consumed :: "SqlRecord list \<Rightarrow> (SqlRecord \<times> SqlRecord) list \<Rightarrow> string \<Rightarrow> bool" where
  "consumed runways pairs x = (\<exists>p\<in>set pairs. sourcePair runways p \<and> x \<in> pairIdents p)"


section \<open>Sample data\<close>

text \<open>
  A flat stand-in for the geometry, for evaluating the model on concrete input: courses
  in degrees, a degree of longitude or latitude taken as 100 km, a course followed along
  the nearest of north, east, south and west with a sideways offset of one sixtieth of
  the distance for every degree off that direction, and a magnetic variation of a tenth
  of the longitude. Further down are rows with the columns that matter filled in.
\<close>

definition flatGeo :: GeoOps where
  "flatGeo =
     \<lparr> opposedCourseDeg = (\<lambda>c. if c < 180 then c + 180 else c - 180),
       normalizeCourse = (\<lambda>c. if c < 0 then c + 360 else if 360 \<le> c then c - 360 else c),
       feetToMeter = (\<lambda>f. f * 3 / 10),
       nmToMeter = (\<lambda>n. n * 1852),
       endpoint = (\<lambda>p d c.
          if 45 \<le> c \<and> c < 135
            then (fst p + d / 100000, snd p - d / 100000 * (c - 90) / 60)
          else if 135 \<le> c \<and> c < 225
            then (fst p - d / 100000 * (c - 180) / 60, snd p - d / 100000)
          else if 225 \<le> c \<and> c < 315
            then (fst p - d / 100000, snd p + d / 100000 * (c - 270) / 60)
          else (fst p + d / 100000 * (if 315 \<le> c then c - 360 else c) / 60, snd p + d / 100000)),
       normalize = (\<lambda>p. p),
       distanceMeterTo = (\<lambda>p q. (\<bar>fst p - fst q\<bar> + \<bar>snd p - snd q\<bar>) * 100000),
       getMagVar = (\<lambda>p. fst p / 10) \<rparr>"

definition runwayEnd :: "string \<Rightarrow> real \<Rightarrow> real \<Rightarrow> real \<Rightarrow> string option \<Rightarrow> SqlRecord" where
  "runwayEnd rwident lon lat bearing llz =
     \<lparr> area_code = ''USA'', icao_code = ''K6'', airport_identifier = ''KJFK'',
       runway_identifier = rwident, runway_latitude = lat, runway_longitude = lon,
       runway_gradient = 0, runway_magnetic_bearing = bearing, runway_true_bearing = bearing,
       landing_threshold_elevation = 100, displaced_threshold_distance = 50,
       threshold_crossing_height = 50, runway_length = 6000, runway_width = 150,
       llz_identifier = llz, llz_mls_gls_category = [], is_closed = None \<rparr>"

definition rw13L :: SqlRecord where
  "rw13L = runwayEnd ''RW13L'' (-7380 / 100) (4065 / 100) 133 (Some ''IJFK'')"

definition rw31R :: SqlRecord where
  "rw31R = runwayEnd ''RW31R'' (-7376 / 100) (4063 / 100) 313 None"

definition rw09 :: SqlRecord where
  "rw09 = runwayEnd ''RW09'' (-7379 / 100) (4064 / 100) 88 (Some ''IXYZ'')"

definition rw00 :: SqlRecord where
  "rw00 = runwayEnd ''RW00'' (-7378 / 100) (4064 / 100) 0 None"

definition rw18 :: SqlRecord where
  "rw18 = runwayEnd ''RW18'' (-7378 / 100) (4064 / 100) 180 None"

definition rw36 :: SqlRecord where
  "rw36 = runwayEnd ''RW36'' (-7378 / 100) (4064 / 100) 360 None"

definition nullRect :: Rect where
  "nullRect = \<lparr> topLeft = (0, 0), bottomRight = (0, 0) \<rparr>"

definition newCompiler :: DfdCompiler where
  "newCompiler =
     \<lparr> airportRectMap = Map.empty, longestRunwaySurfaceMap = Map.empty, airportIndex = Map.empty,
       curAirportId = 0, curRunwayId = 0, curRunwayEndId = 0,
       airportTable = [], runwayTable = [], runwayEndTable = [] \<rparr>"

definition airportKJFK :: AirportSource where
  "airportKJFK =
     \<lparr> src_airport_identifier = ''KJFK'', airport_ref_longitude = -7378 / 100,
       airport_ref_latitude = 4064 / 100, elevation = 13, longest_runway_surface_code = ''H'' \<rparr>"

definition sampleCompiler :: DfdCompiler where
  "sampleCompiler = writeAirports flatGeo (1 / 1000) newCompiler [airportKJFK]"

definition airwayRow :: "string \<Rightarrow> int \<Rightarrow> string \<Rightarrow> int \<Rightarrow> AirwayRow" where
  "airwayRow rname sq code wp =
     \<lparr> route_identifier = rname, seqno = sq, flightlevel = ''B'',
       waypoint_description_code = code, waypoint_id = wp, direction_restriction = [],
       minimum_altitude1 = 0, minimum_altitude2 = 0, maximum_altitude = 0,
       aw_lonx = 0, aw_laty = 0 \<rparr>"

definition sampleTables :: NavTables where
  "sampleTables =
     \<lparr> waypoint = [\<lparr> row_id = 1, lonx = 10, laty = 50, mag_var = 0 \<rparr>,
                   \<lparr> row_id = 2, lonx = -30, laty = 45, mag_var = 7 \<rparr>],
       ndb = [\<lparr> row_id = 7, lonx = -20, laty = 5, mag_var = 3 \<rparr>],
       ils = [\<lparr> ils_id = 1, ils_lonx = 0, ils_laty = 0, loc_heading = 90, loc_width = 4,
                 end1_lonx = 0, end1_laty = 0, end_mid_lonx = 0, end_mid_laty = 0,
                 end2_lonx = 0, end2_laty = 0 \<rparr>] \<rparr>"

text \<open>METAR records: two reports of one station, an hour apart, and one of another station.\<close>

definition kaaa_12 :: MetarData where
  "kaaa_12 = \<lparr> md_ident = ''KAAA'', md_metar = ''KAAA 011200Z 13007KT 10SM CLR 20/10 A2996'',
               md_timestamp = 43200 \<rparr>"

definition kaaa_13 :: MetarData where
  "kaaa_13 = \<lparr> md_ident = ''KAAA'', md_metar = ''KAAA 011300Z 14009KT 10SM SCT040 21/10 A2995'',
               md_timestamp = 46800 \<rparr>"

definition kbbb_12 :: MetarData where
  "kbbb_12 = \<lparr> md_ident = ''KBBB'', md_metar = ''KBBB 011200Z 00000KT CAVOK 18/09 Q1010'',
               md_timestamp = 43200 \<rparr>"

text \<open>
  An approach record of 40 bytes: the record header (tag, size 40), suffix, runway
  number 13, the flags byte \<open>0x95\<close>, three counters, the fix word \<open>0x00060722\<close>
  (code 12345 above the five low bits), the second fix word, three floats, and one
  subrecord of 8 bytes with the tag \<open>0x99\<close>. The stand-in surroundings map three tags
  to record types and leave every other tag unnamed, take a subrecord of size 0 as
  failing the check, read a leg as one byte and a transition as its tag, and name a fix
  by three letters and the last two decimal digits of its code.
\<close>

definition approachBytes :: "8 word list" where
  "approachBytes =
     [0x24, 0x00, 0x28, 0x00, 0x00, 0x00,
      0x30, 0x0d, 0x95, 0x00, 0x00, 0x00,
      0x22, 0x07, 0x06, 0x00,
      0x41, 0x10, 0x20, 0x00,
      0x00, 0x00, 0x7a, 0x44,
      0x00, 0x00, 0x05, 0x43,
      0x00, 0x00, 0xfa, 0x44,
      0x99, 0x00, 0x08, 0x00, 0x00, 0x00, 0xaa, 0xbb]"

definition approachStream :: BinaryStream where
  "approachStream = \<lparr> bs_data = approachBytes, bs_pos = 0 \<rparr>"

definition sampleEnv :: "SimulatorType \<Rightarrow> bool \<Rightarrow> (8 word, 16 word) ApproachEnv" where
  "sampleEnv sim debugInformation =
     \<lparr> intToIcao = (\<lambda>code noBitShift. ''FIX'' @ twoDigits (unat code mod 100)),
       readApproachLeg = (\<lambda>bs recType. readUByte bs),
       readTransition = (\<lambda>bs recType.
          bindP (readRecord bs) (\<lambda>(r, bs1). Parsed (rec_id r, seekToEnd r bs1))),
       checkSubRecord = (\<lambda>r. rec_size r = 0),
       apprRecordType = (\<lambda>t. if t = 0x2d then LEGS else if t = 0x2e then MISSED_LEGS
                              else if t = 0x2c then TRANSITION else UnnamedRecordType t),
       isIncludedApproachLeg = True,
       getSimulatorType = sim,
       DEBUG_INFORMATION = debugInformation \<rparr>"

text \<open>The approach that the header of these bytes holds, and the state before its subrecord.\<close>

definition sampleApproach :: "(8 word, 16 word) Approach" where
  "sampleApproach =
     \<lparr> ap_record = \<lparr> startOffset = 0, rec_id = 0x24, rec_size = 0x28 \<rparr>,
       suffix = 0x30, runwayNumber = 13, approachType = 5, runwayDesignator = 1,
       gpsOverlay = True, numTransitions = 0, fixType = 2,
       fixIdent = ''FIX45'', fixRegion = ''FIX65'', fixAirportIdent = ''FIX26'',
       ap_altitude = 0x447a0000, ap_heading = 0x43050000, missedAltitude = 0x44fa0000,
       legs = [], missedLegs = [], transitions = [] \<rparr>"

definition sampleLoop :: "(8 word, 16 word) ApproachLoop" where
  "sampleLoop =
     \<lparr> approach = sampleApproach, stream = \<lparr> bs_data = approachBytes, bs_pos = 32 \<rparr>, log = [] \<rparr>"

text \<open>The log of a finished parse.\<close>

definition parsedLog :: "('leg, 'trans) ApproachLoop Parse \<Rightarrow> LogEntry list option" where
  "parsedLog p = (case p of Parsed st \<Rightarrow> Some (log st) | EndOfStream \<Rightarrow> None | OutOfFuel \<Rightarrow> None)"

definition parsedPos :: "('leg, 'trans) ApproachLoop Parse \<Rightarrow> nat option" where
  "parsedPos p = (case p of Parsed st \<Rightarrow> Some (tellg (stream st)) | EndOfStream \<Rightarrow> None | OutOfFuel \<Rightarrow> None)"

text \<open>
  The airway rows of the specification's scenario (a code whose second character is E
  ends the route), a route of a single row, and two rows without a route identifier.
\<close>

definition n1_1 :: AirwayRow where "n1_1 = airwayRow ''N1'' 1 ''EA'' 101"
definition n1_2 :: AirwayRow where "n1_2 = airwayRow ''N1'' 2 ''EE'' 102"
definition n1_3 :: AirwayRow where "n1_3 = airwayRow ''N1'' 3 ''EA'' 103"
definition n1_4 :: AirwayRow where "n1_4 = airwayRow ''N1'' 4 ''EE'' 104"
definition n2_1 :: AirwayRow where "n2_1 = airwayRow ''N2'' 1 ''EA'' 201"
definition n2_2 :: AirwayRow where "n2_2 = airwayRow ''N2'' 2 ''EE'' 202"
definition n3_1 :: AirwayRow where "n3_1 = airwayRow ''N3'' 1 ''EA'' 301"
definition unnamed_1 :: AirwayRow where "unnamed_1 = airwayRow [] 1 ''EA'' 401"
definition unnamed_2 :: AirwayRow where "unnamed_2 = airwayRow [] 2 ''EA'' 402"

section \<open>Runway pairing: the opposite designator\<close>

subsection \<open>Digits and numbers\<close>

lemma of_char_digitChar: "d < 10 \<Longrightarrow> (of_char (digitChar d) :: nat) = 48 + d"
  by (simp add: digitChar_def)

lemma isDigit_digitChar: "d < 10 \<Longrightarrow> isDigit (digitChar d)"
  by (simp add: isDigit_def of_char_digitChar)

lemma digitValue_digitChar: "d < 10 \<Longrightarrow> digitValue (digitChar d) = d"
  by (simp add: digitValue_def of_char_digitChar)

lemma digitChar_digitValue: "isDigit c \<Longrightarrow> digitChar (digitValue c) = c"
  by (simp add: digitChar_def digitValue_def isDigit_def)

lemma digitValue_less: "isDigit c \<Longrightarrow> digitValue c < 10"
  by (auto simp add: digitValue_def isDigit_def)

lemma digitChar_0: "digitChar 0 = CHR ''0''"
  by code_simp

lemma natToStr_small: "n < 10 \<Longrightarrow> natToStr n = [digitChar n]"
  by (subst natToStr.simps) simp

lemma natToStr_two: "10 \<le> n \<Longrightarrow> n < 100 \<Longrightarrow> natToStr n = twoDigits n"
proof -
  assume a: "10 \<le> n" "n < 100"
  then have "n div 10 < 10" by simp
  then have "natToStr (n div 10) = [digitChar (n div 10)]" by (rule natToStr_small)
  with a show ?thesis
    by (subst natToStr.simps) (simp add: twoDigits_def)
qed

lemma padded_number: "n < 100 \<Longrightarrow> (if int n < 10 then ''0'' else []) @ number (int n) = twoDigits n"
proof (cases "n < 10")
  case True
  then show ?thesis by (simp add: number_def twoDigits_def natToStr_small digitChar_0)
next
  case False
  assume "n < 100"
  with False show ?thesis by (simp add: number_def natToStr_two)
qed

text \<open>A digit is neither white space nor a sign, so two digits convert to their value.\<close>

lemma isDigit_plain: "isDigit c \<Longrightarrow> \<not> isSpace c \<and> c \<noteq> CHR ''-'' \<and> c \<noteq> CHR ''+''"
  by (auto simp add: isDigit_def isSpace_def)

lemma toInt_digit_pair:
  assumes "isDigit a" "isDigit b"
  shows "toInt [a, b] = int (10 * digitValue a + digitValue b)"
proof -
  have t: "trimmed [a, b] = [a, b]"
    using assms by (simp add: trimmed_def isDigit_plain)
  have v: "digitsValue [a, b] = 10 * digitValue a + digitValue b"
    by (simp add: digitsValue_def)
  have "10 * digitValue a + digitValue b < 100"
    using digitValue_less [OF assms(1)] digitValue_less [OF assms(2)] by simp
  then show ?thesis
    using assms by (simp add: toInt_def t Let_def v isDigit_plain)
qed

lemma toInt_twoDigits: "n < 100 \<Longrightarrow> toInt (twoDigits n) = int n"
proof -
  assume "n < 100"
  then have "n div 10 < 10" "n mod 10 < 10" by simp_all
  then show ?thesis
    by (simp add: toInt_digit_pair twoDigits_def isDigit_digitChar digitValue_digitChar)
qed

text \<open>A sign before a digit is read as a sign.\<close>

lemma opposedRname_signed: "toInt ''-5'' = - 5 \<and> opposedRname ''RW-5'' = ''RW13''"
  by code_simp

subsection \<open>The opposed name\<close>

lemma opposedRname_twoDigits:
  assumes "n < 100" "length s \<le> 1"
  shows "opposedRname (''RW'' @ twoDigits n @ s) =
         ''RW'' @ twoDigits (nat (opposedRnum (int n))) @ opposedDesig s"
proof -
  have m: "midn (mid (''RW'' @ twoDigits n @ s) 2) 0 2 = twoDigits n"
    by (simp add: mid_def midn_def twoDigits_def)
  have d: "(if length (mid (''RW'' @ twoDigits n @ s) 2) > 2
            then [mid (''RW'' @ twoDigits n @ s) 2 ! 2] else []) = s"
    using assms(2) by (cases s) (simp_all add: mid_def twoDigits_def)
  have r: "0 \<le> opposedRnum (int n)" "opposedRnum (int n) < 100"
    using assms(1) by (simp_all add: opposedRnum_def Let_def)
  then have p: "(if opposedRnum (int n) < 10 then ''0'' else []) @ number (opposedRnum (int n))
               = twoDigits (nat (opposedRnum (int n)))"
    using padded_number [of "nat (opposedRnum (int n))"] by simp
  show ?thesis
    unfolding opposedRname_def Let_def m d toInt_twoDigits [OF assms(1)] using p by simp
qed

lemma opposedRnum_spec: "n \<le> 54 \<Longrightarrow> nat (opposedRnum (int n)) = spec_opposite_number n"
  unfolding opposedRnum_def spec_opposite_number_def Let_def
  by (cases "n + 18 < 36") (auto simp add: mod_if)

lemma opposedDesig_spec: "opposedDesig s = spec_opposite_side s"
  by (simp add: opposedDesig_def spec_opposite_side_def)

lemma wfRunwayIdent_form:
  assumes "wfRunwayIdent x"
  shows "\<exists>n s. 1 \<le> n \<and> n \<le> 36 \<and> length s \<le> 1 \<and> x = ''RW'' @ twoDigits n @ s"
proof -
  from assms have len: "length x = 4 \<or> length x = 5" and rw: "take 2 x = ''RW''"
    and d2: "isDigit (x ! 2)" and d3: "isDigit (x ! 3)"
    and lo: "1 \<le> toInt (midn x 2 2)" and hi: "toInt (midn x 2 2) \<le> 36"
    by (simp_all add: wfRunwayIdent_def)
  define n where "n = 10 * digitValue (x ! 2) + digitValue (x ! 3)"
  define s where "s = drop 4 x"
  have x: "x = ''RW'' @ [x ! 2, x ! 3] @ s"
  proof -
    from len have "2 < length x" "3 < length x" by auto
    then have "drop 2 x = x ! 2 # drop (Suc 2) x" "drop 3 x = x ! 3 # drop (Suc 3) x"
      by (simp_all only: Cons_nth_drop_Suc)
    then have "drop 2 x = x ! 2 # x ! 3 # drop 4 x"
      by simp
    then have "take 2 x @ drop 2 x = ''RW'' @ [x ! 2, x ! 3] @ s"
      using rw by (simp add: s_def)
    then show ?thesis by simp
  qed
  have td: "twoDigits n = [x ! 2, x ! 3]"
    using d2 d3 digitValue_less [OF d2] digitValue_less [OF d3]
    by (simp add: twoDigits_def n_def digitChar_digitValue)
  have m: "midn x 2 2 = [x ! 2, x ! 3]"
    by (subst x) (simp add: midn_def)
  have "toInt (midn x 2 2) = int n"
    using d2 d3 by (simp add: m toInt_digit_pair n_def)
  with lo hi have "1 \<le> n" "n \<le> 36" by simp_all
  moreover have "length s \<le> 1" using len by (auto simp add: s_def)
  moreover have "x = ''RW'' @ twoDigits n @ s" using x td by simp
  ultimately show ?thesis by blast
qed

lemma wfRunwayIdent_intro:
  assumes "1 \<le> n" "n \<le> 36" "length s \<le> 1"
  shows "wfRunwayIdent (''RW'' @ twoDigits n @ s)"
proof -
  from assms have "n div 10 < 10" "n mod 10 < 10" "n < 100" by simp_all
  moreover have "midn (''RW'' @ twoDigits n @ s) 2 2 = twoDigits n"
    by (simp add: midn_def twoDigits_def)
  moreover have "length s = 0 \<or> length s = 1" using assms(3) by linarith
  moreover have "length (twoDigits n) = 2" "take 2 (''RW'' @ twoDigits n @ s) = ''RW''"
    "(''RW'' @ twoDigits n @ s) ! 2 = digitChar (n div 10)"
    "(''RW'' @ twoDigits n @ s) ! 3 = digitChar (n mod 10)"
    by (simp_all add: twoDigits_def)
  ultimately show ?thesis
    using assms(1,2) unfolding wfRunwayIdent_def
    by (auto simp add: toInt_twoDigits isDigit_digitChar)
qed

lemma opposedRnum_range: "1 \<le> n \<Longrightarrow> n \<le> 36 \<Longrightarrow>
    1 \<le> nat (opposedRnum (int n)) \<and> nat (opposedRnum (int n)) \<le> 36 \<and>
    nat (opposedRnum (int (nat (opposedRnum (int n))))) = n"
  by (auto simp add: opposedRnum_def Let_def)

lemma opposedDesig_length: "length s \<le> 1 \<Longrightarrow> length (opposedDesig s) \<le> 1"
  by (simp add: opposedDesig_def)

lemma opposedDesig_invol: "opposedDesig (opposedDesig s) = s"
  by (simp add: opposedDesig_def)

lemma opposedRname_wf: "wfRunwayIdent x \<Longrightarrow> wfRunwayIdent (opposedRname x)"
proof -
  assume "wfRunwayIdent x"
  then obtain n s where ns: "1 \<le> n" "n \<le> 36" "length s \<le> 1" "x = ''RW'' @ twoDigits n @ s"
    using wfRunwayIdent_form by blast
  then have "opposedRname x = ''RW'' @ twoDigits (nat (opposedRnum (int n))) @ opposedDesig s"
    using opposedRname_twoDigits [of n s] by simp
  then show ?thesis
    using wfRunwayIdent_intro opposedRnum_range [OF ns(1,2)] opposedDesig_length [OF ns(3)] by simp
qed

lemma opposedRname_invol: "wfRunwayIdent x \<Longrightarrow> opposedRname (opposedRname x) = x"
proof -
  assume "wfRunwayIdent x"
  then obtain n s where ns: "1 \<le> n" "n \<le> 36" "length s \<le> 1" "x = ''RW'' @ twoDigits n @ s"
    using wfRunwayIdent_form by blast
  let ?m = "nat (opposedRnum (int n))"
  have 1: "opposedRname x = ''RW'' @ twoDigits ?m @ opposedDesig s"
    using opposedRname_twoDigits [of n s] ns by simp
  have "?m < 100" using opposedRnum_range [OF ns(1,2)] by simp
  then have "opposedRname (''RW'' @ twoDigits ?m @ opposedDesig s)
             = ''RW'' @ twoDigits (nat (opposedRnum (int ?m))) @ opposedDesig (opposedDesig s)"
    using opposedRname_twoDigits [of ?m "opposedDesig s"] opposedDesig_length [OF ns(3)] by simp
  then show ?thesis
    using 1 ns(4) opposedRnum_range [OF ns(1,2)] by (simp add: opposedDesig_invol)
qed

subsection \<open>The set of consumed identifiers\<close>

lemma pairState_snoc:
  "pairState g runways ps (visited @ [rw]) = pairStep g runways (pairState g runways ps visited) rw"
  by (simp add: pairState_def)

lemma find_ident_Some:
  "find (\<lambda>orw. runway_identifier orw = x) runways = Some orw
   \<Longrightarrow> orw \<in> set runways \<and> runway_identifier orw = x"
  by (auto simp add: find_Some_iff)

lemma find_ident_None:
  "find (\<lambda>orw. runway_identifier orw = x) runways = None
   \<longleftrightarrow> (\<forall>orw\<in>set runways. runway_identifier orw \<noteq> x)"
  by (auto simp add: find_None_iff)

lemma pairStep_skip:
  "runway_identifier rw \<in> found \<Longrightarrow> pairStep g runways (found, ps) rw = (found, ps)"
  by (simp add: pairStep_def)

lemma pairStep_pair:
  "runway_identifier rw \<notin> found
   \<Longrightarrow> find (\<lambda>orw. runway_identifier orw = opposedRname (runway_identifier rw)) runways = Some orw
   \<Longrightarrow> pairStep g runways (found, ps) rw
       = (insert (runway_identifier rw) (insert (opposedRname (runway_identifier rw)) found),
          ps @ [(rw, orw)])"
  by (simp add: pairStep_def Let_def)

lemma pairStep_stub:
  "runway_identifier rw \<notin> found
   \<Longrightarrow> find (\<lambda>orw. runway_identifier orw = opposedRname (runway_identifier rw)) runways = None
   \<Longrightarrow> pairStep g runways (found, ps) rw = (found, ps @ [(rw, closedEnd g rw)])"
  by (simp add: pairStep_def Let_def)

text \<open>
  With well-formed identifiers the consumed set holds only identifiers of the input,
  and with every identifier its opposite.
\<close>

lemma pairStep_found:
  assumes wf: "\<forall>r\<in>set runways. wfRunwayIdent (runway_identifier r)"
    and rw: "rw \<in> set runways"
    and inv: "\<forall>x\<in>found. x \<in> runway_identifier ` set runways \<and> opposedRname x \<in> found"
  shows "\<forall>x\<in>fst (pairStep g runways (found, ps) rw).
           x \<in> runway_identifier ` set runways \<and> opposedRname x \<in> fst (pairStep g runways (found, ps) rw)"
proof (cases "runway_identifier rw \<in> found")
  case True
  then show ?thesis using inv by (simp add: pairStep_skip)
next
  case False
  show ?thesis
  proof (cases "find (\<lambda>orw. runway_identifier orw = opposedRname (runway_identifier rw)) runways")
    case None
    then show ?thesis using False inv by (simp add: pairStep_stub)
  next
    case (Some orw)
    then have o: "orw \<in> set runways" "runway_identifier orw = opposedRname (runway_identifier rw)"
      using find_ident_Some by blast+
    have inv2: "opposedRname (opposedRname (runway_identifier rw)) = runway_identifier rw"
      using wf rw by (simp add: opposedRname_invol)
    have f: "fst (pairStep g runways (found, ps) rw)
             = insert (runway_identifier rw) (insert (opposedRname (runway_identifier rw)) found)"
      using False Some by (simp add: pairStep_pair)
    have "opposedRname (runway_identifier rw) \<in> runway_identifier ` set runways"
      using o by (metis imageI)
    then show ?thesis
      unfolding f using inv rw inv2 by auto
  qed
qed

lemma pairState_found:
  assumes wf: "\<forall>r\<in>set runways. wfRunwayIdent (runway_identifier r)"
    and sub: "set visited \<subseteq> set runways"
  shows "\<forall>x\<in>fst (pairState g runways ps visited).
           x \<in> runway_identifier ` set runways \<and> opposedRname x \<in> fst (pairState g runways ps visited)"
  using sub
proof (induction visited rule: rev_induct)
  case Nil
  then show ?case by (simp add: pairState_def)
next
  case (snoc rw visited)
  then have rw: "rw \<in> set runways" and sub': "set visited \<subseteq> set runways" by simp_all
  obtain found qs where st: "pairState g runways ps visited = (found, qs)"
    by (cases "pairState g runways ps visited")
  with snoc.IH [OF sub'] have inv:
    "\<forall>x\<in>found. x \<in> runway_identifier ` set runways \<and> opposedRname x \<in> found" by simp
  show ?case
    unfolding pairState_snoc st by (rule pairStep_found [OF wf rw inv])
qed

subsection \<open>The consumed identifiers are those of the emitted pairs\<close>

lemma consumed_Nil: "\<not> consumed runways [] x"
  by (simp add: consumed_def)

lemma consumed_snoc:
  "consumed runways (em @ [p]) x \<longleftrightarrow> consumed runways em x \<or> (sourcePair runways p \<and> x \<in> pairIdents p)"
  by (auto simp add: consumed_def)

lemma closedEnd_not_source:
  assumes "find (\<lambda>orw. runway_identifier orw = opposedRname (runway_identifier rw)) runways = None"
  shows "closedEnd g rw \<notin> set runways"
proof
  assume "closedEnd g rw \<in> set runways"
  with assms have "runway_identifier (closedEnd g rw) \<noteq> opposedRname (runway_identifier rw)"
    using find_ident_None [of "opposedRname (runway_identifier rw)" runways] by blast
  then show False by (simp add: closedEnd_def)
qed

text \<open>The three ways of an iteration: the end is skipped, paired, or given a closed end.\<close>

lemma pairStep_cases:
  obtains (skip) "runway_identifier rw \<in> found"
      "pairStep g runways (found, ps) rw = (found, ps)"
  | (pair) orw where "runway_identifier rw \<notin> found" "orw \<in> set runways"
      "runway_identifier orw = opposedRname (runway_identifier rw)"
      "pairStep g runways (found, ps) rw =
         (insert (runway_identifier rw) (insert (opposedRname (runway_identifier rw)) found),
          ps @ [(rw, orw)])"
  | (stub) "runway_identifier rw \<notin> found" "closedEnd g rw \<notin> set runways"
      "\<forall>orw\<in>set runways. runway_identifier orw \<noteq> opposedRname (runway_identifier rw)"
      "pairStep g runways (found, ps) rw = (found, ps @ [(rw, closedEnd g rw)])"
proof (cases "runway_identifier rw \<in> found")
  case True
  then show ?thesis using skip by (simp add: pairStep_skip)
next
  case False
  show ?thesis
  proof (cases "find (\<lambda>orw. runway_identifier orw = opposedRname (runway_identifier rw)) runways")
    case None
    show ?thesis
    proof (rule stub)
      show "runway_identifier rw \<notin> found" by (rule False)
      show "closedEnd g rw \<notin> set runways" using None by (rule closedEnd_not_source)
      show "\<forall>orw\<in>set runways. runway_identifier orw \<noteq> opposedRname (runway_identifier rw)"
        using None find_ident_None [of "opposedRname (runway_identifier rw)" runways] by blast
      show "pairStep g runways (found, ps) rw = (found, ps @ [(rw, closedEnd g rw)])"
        using False None by (rule pairStep_stub)
    qed
  next
    case (Some orw)
    show ?thesis
    proof (rule pair [of orw])
      show "runway_identifier rw \<notin> found" by (rule False)
      show "orw \<in> set runways" using Some find_ident_Some by blast
      show "runway_identifier orw = opposedRname (runway_identifier rw)"
        using Some find_ident_Some by blast
      show "pairStep g runways (found, ps) rw =
         (insert (runway_identifier rw) (insert (opposedRname (runway_identifier rw)) found),
          ps @ [(rw, orw)])"
        using False Some by (rule pairStep_pair)
    qed
  qed
qed

text \<open>
  The set \<^verbatim>\<open>found\<close> holds exactly the identifiers that the pairs emitted so far have
  consumed, and the pairs emitted are appended to the vector passed in.
\<close>

lemma pairState_emitted:
  assumes "set visited \<subseteq> set runways"
  shows "\<exists>em. pairState g runways ps visited = ({x. consumed runways em x}, ps @ em)"
  using assms
proof (induction visited rule: rev_induct)
  case Nil
  have "pairState g runways ps [] = ({x. consumed runways [] x}, ps @ [])"
    by (simp add: pairState_def consumed_Nil)
  then show ?case by blast
next
  case (snoc rw visited)
  then have rw: "rw \<in> set runways" and sub: "set visited \<subseteq> set runways" by simp_all
  from snoc.IH [OF sub] obtain em where
    st: "pairState g runways ps visited = ({x. consumed runways em x}, ps @ em)" by blast
  let ?found = "{x. consumed runways em x}"
  show ?case
  proof (cases rule: pairStep_cases [of rw ?found g runways "ps @ em"])
    case skip
    then show ?thesis unfolding pairState_snoc st by blast
  next
    case (pair orw)
    have "sourcePair runways (rw, orw)" using rw pair(2) by (simp add: sourcePair_def)
    then have "insert (runway_identifier rw) (insert (opposedRname (runway_identifier rw)) ?found)
        = {x. consumed runways (em @ [(rw, orw)]) x}"
      using pair(3) by (auto simp add: consumed_snoc pairIdents_def)
    then have "pairState g runways ps (visited @ [rw])
        = ({x. consumed runways (em @ [(rw, orw)]) x}, ps @ (em @ [(rw, orw)]))"
      unfolding pairState_snoc st pair(4) by simp
    then show ?thesis by blast
  next
    case stub
    have "\<not> sourcePair runways (rw, closedEnd g rw)" using stub(2) by (simp add: sourcePair_def)
    then have "?found = {x. consumed runways (em @ [(rw, closedEnd g rw)]) x}"
      by (simp add: consumed_snoc)
    then have "pairState g runways ps (visited @ [rw])
        = ({x. consumed runways (em @ [(rw, closedEnd g rw)]) x}, ps @ (em @ [(rw, closedEnd g rw)]))"
      unfolding pairState_snoc st stub(4) by simp
    then show ?thesis by blast
  qed
qed

lemma found_consumed:
  assumes "set visited \<subseteq> set runways"
  shows "x \<in> fst (pairState g runways ps visited)
         \<longleftrightarrow> consumed runways (drop (length ps) (snd (pairState g runways ps visited))) x"
proof -
  from pairState_emitted [OF assms, of g ps] obtain em where
    "pairState g runways ps visited = ({x. consumed runways em x}, ps @ em)" by blast
  then show ?thesis by simp
qed

text \<open>Part two of the claim, for well-formed identifiers.\<close>

lemma pairing_exact:
  assumes wf: "\<forall>r\<in>set runways. wfRunwayIdent (runway_identifier r)"
    and split: "runways = visited @ rw # rest"
  shows "(\<exists>orw\<in>set runways. runway_identifier orw = opposedRname (runway_identifier rw) \<and>
            snd (pairState g runways ps (visited @ [rw]))
              = snd (pairState g runways ps visited) @ [(rw, orw)])
         \<longleftrightarrow> ((\<exists>orw\<in>set runways. runway_identifier orw = opposedRname (runway_identifier rw)) \<and>
              \<not> consumed runways (drop (length ps) (snd (pairState g runways ps visited)))
                  (opposedRname (runway_identifier rw)))"
proof -
  let ?opp = "opposedRname (runway_identifier rw)"
  obtain found pairs where st: "pairState g runways ps visited = (found, pairs)"
    by (cases "pairState g runways ps visited")
  have rw: "rw \<in> set runways" and sub: "set visited \<subseteq> set runways"
    using split by auto
  have c: "\<And>x. x \<in> found \<longleftrightarrow> consumed runways (drop (length ps) pairs) x"
    using found_consumed [OF sub, of _ g ps] st by simp
  have inv: "\<forall>x\<in>found. x \<in> runway_identifier ` set runways \<and> opposedRname x \<in> found"
    using pairState_found [OF wf sub, of g ps] st by simp
  have inv2: "opposedRname ?opp = runway_identifier rw"
    using wf rw by (simp add: opposedRname_invol)
  have same: "runway_identifier rw \<in> found \<longleftrightarrow> ?opp \<in> found"
    using inv inv2 by metis
  have "(\<exists>orw\<in>set runways. runway_identifier orw = ?opp \<and>
            snd (pairStep g runways (found, pairs) rw) = pairs @ [(rw, orw)])
         \<longleftrightarrow> ((\<exists>orw\<in>set runways. runway_identifier orw = ?opp) \<and> ?opp \<notin> found)"
  proof (cases rule: pairStep_cases [of rw found g runways pairs])
    case skip
    then show ?thesis using same by simp
  next
    case (pair orw)
    then show ?thesis using same by auto
  next
    case stub
    then show ?thesis by auto
  qed
  then show ?thesis
    unfolding pairState_snoc st c by simp
qed

text \<open>
  With well-formed identifiers no identifier is consumed twice: two pairs of source ends
  emitted at different places share no identifier.
\<close>

lemma pairState_disjoint:
  assumes wf: "\<forall>r\<in>set runways. wfRunwayIdent (runway_identifier r)"
    and sub: "set visited \<subseteq> set runways"
    and em: "em = drop (length ps) (snd (pairState g runways ps visited))"
    and ij: "i < j" "j < length em"
    and src: "sourcePair runways (em ! i)" "sourcePair runways (em ! j)"
  shows "pairIdents (em ! i) \<inter> pairIdents (em ! j) = {}"
  using sub em ij src
proof (induction visited arbitrary: em i j rule: rev_induct)
  case Nil
  then show ?case by (simp add: pairState_def)
next
  case (snoc rw visited)
  then have rw: "rw \<in> set runways" and sub': "set visited \<subseteq> set runways" by simp_all
  from pairState_emitted [OF sub', of g ps] obtain em0 where
    st: "pairState g runways ps visited = ({x. consumed runways em0 x}, ps @ em0)" by blast
  let ?found = "{x. consumed runways em0 x}"
  have em0: "em0 = drop (length ps) (snd (pairState g runways ps visited))" by (simp add: st)
  note IH = snoc.IH [OF sub' em0]
  have inv: "\<forall>x\<in>?found. opposedRname x \<in> ?found"
    using pairState_found [OF wf sub', of g ps] st by simp
  have inv2: "opposedRname (opposedRname (runway_identifier rw)) = runway_identifier rw"
    using wf rw by (simp add: opposedRname_invol)
  show ?case
  proof (cases rule: pairStep_cases [of rw ?found g runways "ps @ em0"])
    case skip
    then have "em = em0" using snoc.prems(2) unfolding pairState_snoc st by simp
    then show ?thesis using IH snoc.prems(3-6) by simp
  next
    case (pair orw)
    then have e: "em = em0 @ [(rw, orw)]" using snoc.prems(2) unfolding pairState_snoc st by simp
    show ?thesis
    proof (cases "j < length em0")
      case True
      then show ?thesis using IH [of i j] snoc.prems(3-6) e by (simp add: nth_append)
    next
      case False
      then have j: "j = length em0" and i: "i < length em0"
        using snoc.prems(3,4) e by simp_all
      have pj: "pairIdents (em ! j) = {runway_identifier rw, opposedRname (runway_identifier rw)}"
        using pair(3) by (simp add: e j pairIdents_def)
      have si: "sourcePair runways (em0 ! i)" "em0 ! i \<in> set em0" "em ! i = em0 ! i"
        using snoc.prems(5) i e by (simp_all add: nth_append)
      then have cons: "\<forall>x\<in>pairIdents (em0 ! i). x \<in> ?found"
        by (auto simp add: consumed_def)
      have "runway_identifier rw \<notin> ?found" by (rule pair(1))
      moreover have "opposedRname (runway_identifier rw) \<notin> ?found"
        using inv inv2 pair(1) by metis
      ultimately show ?thesis
        unfolding pj si(3) using cons by blast
    qed
  next
    case stub
    then have e: "em = em0 @ [(rw, closedEnd g rw)]"
      using snoc.prems(2) unfolding pairState_snoc st by simp
    show ?thesis
    proof (cases "j < length em0")
      case True
      then show ?thesis using IH [of i j] snoc.prems(3-6) e by (simp add: nth_append)
    next
      case False
      then have "j = length em0" using snoc.prems(4) e by simp
      then have "\<not> sourcePair runways (em ! j)"
        using stub(2) by (simp add: e sourcePair_def)
      then show ?thesis using snoc.prems(6) by simp
    qed
  qed
qed

section \<open>Claims about the runway pairer\<close>

text \<open>
  Claim C1, as amended. For a runway identifier \<^verbatim>\<open>RW\<close>, two digits of a number \<open>n\<close> up
  to 54 and at most one designator character, the opposed name the pairer computes is
  \<^verbatim>\<open>RW\<close>, the number \<open>(n + 18) mod 36\<close> with 0 remapped to 36 in two digits, and the
  designator with L and R swapped and anything else unchanged. When all identifiers of
  the airport's input carry a runway number from 01 to 36, the iteration for an end
  appends a pair of that end with a source end of the opposed name to the pairs emitted
  so far exactly when the input holds an end of the opposed name and no pair of two
  source ends emitted before has an end of that name; and in the pairs that
  \<^verbatim>\<open>pairRunways\<close> emits, two pairs of source ends at different places share no
  identifier, so that no end is consumed twice. (The code adds 18 and subtracts 36 once
  when the sum exceeds 36, so for a number above 54 the result is not the remainder, and
  for other numbers than 01 to 36 an end can be paired with an end that is already
  consumed.)
\<close>

theorem C1_opposite_designator_and_pairing:
  "(n \<le> 54 \<and> length s \<le> 1 \<longrightarrow>
      opposedRname (''RW'' @ twoDigits n @ s)
        = ''RW'' @ twoDigits (spec_opposite_number n) @ spec_opposite_side s)
   \<and> ((\<forall>r\<in>set runways. wfRunwayIdent (runway_identifier r)) \<and> runways = visited @ rw # rest \<longrightarrow>
        ((\<exists>orw\<in>set runways. runway_identifier orw = opposedRname (runway_identifier rw) \<and>
            snd (pairState g runways ps (visited @ [rw]))
              = snd (pairState g runways ps visited) @ [(rw, orw)])
         \<longleftrightarrow> ((\<exists>orw\<in>set runways. runway_identifier orw = opposedRname (runway_identifier rw)) \<and>
              \<not> consumed runways (drop (length ps) (snd (pairState g runways ps visited)))
                  (opposedRname (runway_identifier rw)))))
   \<and> ((\<forall>r\<in>set runways. wfRunwayIdent (runway_identifier r)) \<and>
        i < j \<and> j < length (drop (length ps) (pairRunways g ps runways)) \<and>
        sourcePair runways (drop (length ps) (pairRunways g ps runways) ! i) \<and>
        sourcePair runways (drop (length ps) (pairRunways g ps runways) ! j) \<longrightarrow>
        pairIdents (drop (length ps) (pairRunways g ps runways) ! i) \<inter>
        pairIdents (drop (length ps) (pairRunways g ps runways) ! j) = {})"
proof (intro conjI impI)
  assume "n \<le> 54 \<and> length s \<le> 1"
  then show "opposedRname (''RW'' @ twoDigits n @ s)
        = ''RW'' @ twoDigits (spec_opposite_number n) @ spec_opposite_side s"
    using opposedRname_twoDigits [of n s] by (simp add: opposedRnum_spec opposedDesig_spec)
next
  assume "(\<forall>r\<in>set runways. wfRunwayIdent (runway_identifier r)) \<and> runways = visited @ rw # rest"
  then show "(\<exists>orw\<in>set runways. runway_identifier orw = opposedRname (runway_identifier rw) \<and>
            snd (pairState g runways ps (visited @ [rw]))
              = snd (pairState g runways ps visited) @ [(rw, orw)])
         \<longleftrightarrow> ((\<exists>orw\<in>set runways. runway_identifier orw = opposedRname (runway_identifier rw)) \<and>
              \<not> consumed runways (drop (length ps) (snd (pairState g runways ps visited)))
                  (opposedRname (runway_identifier rw)))"
    using pairing_exact [of runways visited rw rest g ps] by blast
next
  let ?out = "drop (length ps) (pairRunways g ps runways)"
  assume a: "(\<forall>r\<in>set runways. wfRunwayIdent (runway_identifier r)) \<and>
        i < j \<and> j < length ?out \<and> sourcePair runways (?out ! i) \<and> sourcePair runways (?out ! j)"
  have "?out = drop (length ps) (snd (pairState g runways ps runways))"
    by (simp add: pairRunways_def)
  with a show "pairIdents (?out ! i) \<inter> pairIdents (?out ! j) = {}"
    using pairState_disjoint [of runways runways ?out ps g i j] by blast
qed

theorem C1_witness:
  "opposedRname ''RW11R'' = ''RW29L''
   \<and> snd (pairState flatGeo [rw13L, rw31R] [] [rw13L]) = [(rw13L, rw31R)]
   \<and> consumed [rw13L, rw31R] [(rw13L, rw31R)] ''RW13L''
   \<and> snd (pairState flatGeo [rw13L, rw31R] [] [rw13L, rw31R]) \<noteq> [(rw13L, rw31R), (rw31R, rw13L)]
   \<and> pairRunways flatGeo [] [rw13L, rw31R] = [(rw13L, rw31R)]
   \<and> pairRunways flatGeo [] [rw13L, rw31R, rw18, rw36] = [(rw13L, rw31R), (rw18, rw36)]
   \<and> pairIdents (rw13L, rw31R) \<inter> pairIdents (rw18, rw36) = {}"
proof -
  have id: "runway_identifier rw13L = ''RW13L''" "runway_identifier rw31R = ''RW31R''"
    "runway_identifier rw18 = ''RW18''" "runway_identifier rw36 = ''RW36''"
    by (simp_all add: rw13L_def rw31R_def rw18_def rw36_def runwayEnd_def)
  have wf: "wfRunwayIdent ''RW13L''" "wfRunwayIdent ''RW31R''" "wfRunwayIdent ''RW18''"
    "wfRunwayIdent ''RW36''"
    by code_simp+
  have opp: "opposedRname ''RW13L'' = ''RW31R''" "opposedRname ''RW31R'' = ''RW13L''"
    by code_simp+
  have e1: "''RW'' @ twoDigits 11 @ ''R'' = ''RW11R''"
    "''RW'' @ twoDigits (spec_opposite_number 11) @ spec_opposite_side ''R'' = ''RW29L''"
    by code_simp+
  have s0: "snd (pairState flatGeo [rw13L, rw31R] [] []) = []"
    by (simp add: pairState_def)
  have s1: "snd (pairState flatGeo [rw13L, rw31R] [] [rw13L]) = [(rw13L, rw31R)]"
    by code_simp
  have p2: "pairRunways flatGeo [] [rw13L, rw31R] = [(rw13L, rw31R)]"
    by code_simp
  have p4: "pairRunways flatGeo [] [rw13L, rw31R, rw18, rw36] = [(rw13L, rw31R), (rw18, rw36)]"
    by code_simp
  have c: "consumed [rw13L, rw31R] [(rw13L, rw31R)] ''RW13L''"
    by (simp add: consumed_def sourcePair_def pairIdents_def id)
  have ne: "rw13L \<noteq> rw31R"
    using id(1,2) by auto
  txt \<open>The designator, and the first iteration, where nothing is consumed.\<close>
  note t1 = C1_opposite_designator_and_pairing
    [where n = 11 and s = "''R''" and runways = "[rw13L, rw31R]" and visited = "[]"
       and rw = rw13L and rest = "[rw31R]" and g = flatGeo and ps = "[]" and i = 0 and j = 1]
  have h1: "(11::nat) \<le> 54 \<and> length ''R'' \<le> 1" by simp
  from t1 h1 have c1: "opposedRname (''RW'' @ twoDigits 11 @ ''R'')
      = ''RW'' @ twoDigits (spec_opposite_number 11) @ spec_opposite_side ''R''" by blast
  have h2: "(\<forall>r\<in>set [rw13L, rw31R]. wfRunwayIdent (runway_identifier r)) \<and>
            [rw13L, rw31R] = [] @ rw13L # [rw31R]"
    by (simp add: id wf)
  from t1 h2 have c2: "(\<exists>orw\<in>set [rw13L, rw31R].
        runway_identifier orw = opposedRname (runway_identifier rw13L) \<and>
        snd (pairState flatGeo [rw13L, rw31R] [] ([] @ [rw13L]))
          = snd (pairState flatGeo [rw13L, rw31R] [] []) @ [(rw13L, orw)])
     \<longleftrightarrow> ((\<exists>orw\<in>set [rw13L, rw31R]. runway_identifier orw = opposedRname (runway_identifier rw13L)) \<and>
          \<not> consumed [rw13L, rw31R] (drop (length ([] :: (SqlRecord \<times> SqlRecord) list))
               (snd (pairState flatGeo [rw13L, rw31R] [] [])))
               (opposedRname (runway_identifier rw13L)))" by blast
  have "\<exists>orw\<in>set [rw13L, rw31R].
        runway_identifier orw = opposedRname (runway_identifier rw13L) \<and>
        snd (pairState flatGeo [rw13L, rw31R] [] ([] @ [rw13L]))
          = snd (pairState flatGeo [rw13L, rw31R] [] []) @ [(rw13L, orw)]"
    unfolding c2 by (simp add: s0 id opp consumed_Nil)
  then have r1: "snd (pairState flatGeo [rw13L, rw31R] [] [rw13L]) = [(rw13L, rw31R)]"
    by (auto simp add: s0 id opp)
  txt \<open>The second iteration, where the opposed name is consumed.\<close>
  note t2 = C1_opposite_designator_and_pairing
    [where n = 11 and s = "''R''" and runways = "[rw13L, rw31R]" and visited = "[rw13L]"
       and rw = rw31R and rest = "[]" and g = flatGeo and ps = "[]" and i = 0 and j = 1]
  have h3: "(\<forall>r\<in>set [rw13L, rw31R]. wfRunwayIdent (runway_identifier r)) \<and>
            [rw13L, rw31R] = [rw13L] @ rw31R # []"
    by (simp add: id wf)
  from t2 h3 have c3: "(\<exists>orw\<in>set [rw13L, rw31R].
        runway_identifier orw = opposedRname (runway_identifier rw31R) \<and>
        snd (pairState flatGeo [rw13L, rw31R] [] ([rw13L] @ [rw31R]))
          = snd (pairState flatGeo [rw13L, rw31R] [] [rw13L]) @ [(rw31R, orw)])
     \<longleftrightarrow> ((\<exists>orw\<in>set [rw13L, rw31R]. runway_identifier orw = opposedRname (runway_identifier rw31R)) \<and>
          \<not> consumed [rw13L, rw31R] (drop (length ([] :: (SqlRecord \<times> SqlRecord) list))
               (snd (pairState flatGeo [rw13L, rw31R] [] [rw13L])))
               (opposedRname (runway_identifier rw31R)))" by blast
  have "\<not> (\<exists>orw\<in>set [rw13L, rw31R].
        runway_identifier orw = opposedRname (runway_identifier rw31R) \<and>
        snd (pairState flatGeo [rw13L, rw31R] [] ([rw13L] @ [rw31R]))
          = snd (pairState flatGeo [rw13L, rw31R] [] [rw13L]) @ [(rw31R, orw)])"
    unfolding c3 using c by (simp add: s1 id opp)
  then have r2: "snd (pairState flatGeo [rw13L, rw31R] [] [rw13L, rw31R])
      \<noteq> [(rw13L, rw31R), (rw31R, rw13L)]"
    by (simp add: s1 id opp)
  txt \<open>Two pairs of source ends share no identifier.\<close>
  note t3 = C1_opposite_designator_and_pairing
    [where n = 11 and s = "''R''" and runways = "[rw13L, rw31R, rw18, rw36]" and visited = "[]"
       and rw = rw13L and rest = "[rw31R, rw18, rw36]" and g = flatGeo and ps = "[]"
       and i = 0 and j = 1]
  have h4: "(\<forall>r\<in>set [rw13L, rw31R, rw18, rw36]. wfRunwayIdent (runway_identifier r)) \<and>
      (0::nat) < 1 \<and> 1 < length (drop (length ([] :: (SqlRecord \<times> SqlRecord) list))
         (pairRunways flatGeo [] [rw13L, rw31R, rw18, rw36])) \<and>
      sourcePair [rw13L, rw31R, rw18, rw36]
        (drop (length ([] :: (SqlRecord \<times> SqlRecord) list))
           (pairRunways flatGeo [] [rw13L, rw31R, rw18, rw36]) ! 0) \<and>
      sourcePair [rw13L, rw31R, rw18, rw36]
        (drop (length ([] :: (SqlRecord \<times> SqlRecord) list))
           (pairRunways flatGeo [] [rw13L, rw31R, rw18, rw36]) ! 1)"
    by (simp add: p4 id wf sourcePair_def)
  from t3 h4 have "pairIdents (drop (length ([] :: (SqlRecord \<times> SqlRecord) list))
           (pairRunways flatGeo [] [rw13L, rw31R, rw18, rw36]) ! 0) \<inter>
      pairIdents (drop (length ([] :: (SqlRecord \<times> SqlRecord) list))
           (pairRunways flatGeo [] [rw13L, rw31R, rw18, rw36]) ! 1) = {}"
    by blast
  then have r3: "pairIdents (rw13L, rw31R) \<inter> pairIdents (rw18, rw36) = {}"
    by (simp add: p4)
  from c1 e1 have r0: "opposedRname ''RW11R'' = ''RW29L''" by simp
  from r0 r1 c r2 p2 p4 r3 show ?thesis by (intro conjI)
qed

theorem C1_counterexample:
  "opposedRname ''RW55'' = ''RW37''
   \<and> ''RW'' @ twoDigits (spec_opposite_number 55) @ spec_opposite_side [] = ''RW01''
   \<and> pairRunways flatGeo [] [rw00, rw18, rw36] = [(rw00, rw18), (rw36, rw18)]
   \<and> consumed [rw00, rw18, rw36] [(rw00, rw18)] (opposedRname (runway_identifier rw36))"
proof -
  have a: "opposedRname ''RW55'' = ''RW37''"
    "''RW'' @ twoDigits (spec_opposite_number 55) @ spec_opposite_side [] = ''RW01''"
    "pairRunways flatGeo [] [rw00, rw18, rw36] = [(rw00, rw18), (rw36, rw18)]"
    "opposedRname ''RW36'' = ''RW18''"
    by code_simp+
  have "consumed [rw00, rw18, rw36] [(rw00, rw18)] (opposedRname (runway_identifier rw36))"
    by (simp add: consumed_def sourcePair_def pairIdents_def rw18_def rw36_def runwayEnd_def a(4))
  with a(1-3) show ?thesis by (intro conjI)
qed

lemma closedEnd_ident: "runway_identifier (closedEnd g r) = opposedRname (runway_identifier r)"
  by (simp add: closedEnd_def)

text \<open>
  The pairs that hold an end whose opposite is missing, after any part of the loop: one
  pair with the closed end for every time the end has been visited.
\<close>

lemma pairState_orphan:
  assumes wf: "\<forall>r\<in>set runways. wfRunwayIdent (runway_identifier r)"
    and rw: "rw \<in> set runways"
    and none: "\<forall>orw\<in>set runways. runway_identifier orw \<noteq> opposedRname (runway_identifier rw)"
    and sub: "set visited \<subseteq> set runways"
  shows "filter (\<lambda>p. fst p = rw \<or> snd p = rw) (snd (pairState g runways [] visited))
         = replicate (count_list visited rw) (rw, closedEnd g rw)"
  using sub
proof (induction visited rule: rev_induct)
  case Nil
  then show ?case by (simp add: pairState_def)
next
  case (snoc r visited)
  then have r: "r \<in> set runways" and sub': "set visited \<subseteq> set runways" by simp_all
  obtain found qs where st: "pairState g runways [] visited = (found, qs)"
    by (cases "pairState g runways [] visited")
  have IH: "filter (\<lambda>p. fst p = rw \<or> snd p = rw) qs = replicate (count_list visited rw) (rw, closedEnd g rw)"
    using snoc.IH [OF sub'] st by simp
  have inv: "\<forall>x\<in>found. x \<in> runway_identifier ` set runways \<and> opposedRname x \<in> found"
    using pairState_found [OF wf sub', of g "[]"] st by simp
  have notfound: "runway_identifier rw \<notin> found"
  proof
    assume "runway_identifier rw \<in> found"
    then have "opposedRname (runway_identifier rw) \<in> runway_identifier ` set runways"
      using inv by blast
    then show False using none by auto
  qed
  have notsnd: "runway_identifier r' = opposedRname (runway_identifier r) \<Longrightarrow> r' \<noteq> rw" for r'
  proof
    assume a: "runway_identifier r' = opposedRname (runway_identifier r)" and "r' = rw"
    then have "opposedRname (runway_identifier rw) = opposedRname (opposedRname (runway_identifier r))"
      by simp
    also have "\<dots> = runway_identifier r" using wf r by (simp add: opposedRname_invol)
    finally show False using none r by auto
  qed
  have cnt: "count_list (visited @ [r]) rw = count_list visited rw + (if r = rw then 1 else 0)"
    by simp
  show ?case
  proof (cases "runway_identifier r \<in> found")
    case True
    then have "r \<noteq> rw" using notfound by auto
    then show ?thesis
      using True IH by (simp add: pairState_snoc st pairStep_skip)
  next
    case False
    show ?thesis
    proof (cases "find (\<lambda>orw. runway_identifier orw = opposedRname (runway_identifier r)) runways")
      case None
      have "closedEnd g r \<noteq> rw" using notsnd [of "closedEnd g r"] by (simp add: closedEnd_ident)
      then show ?thesis
        using False None IH
        by (simp add: pairState_snoc st pairStep_stub replicate_append_same)
    next
      case (Some orw)
      then have o: "orw \<in> set runways" "runway_identifier orw = opposedRname (runway_identifier r)"
        using find_ident_Some by blast+
      then have "orw \<noteq> rw" using notsnd by blast
      moreover have "r \<noteq> rw" using o none by auto
      ultimately show ?thesis
        using False Some IH by (simp add: pairState_snoc st pairStep_pair)
    qed
  qed
qed

text \<open>
  Claim C3, as amended. When the loop reaches a runway end that has not been consumed
  by an earlier pairing and no end of the airport's input carries its opposed name, it
  emits exactly one pair for it, and the secondary end of that pair is a copy of the end
  with the runway identifier replaced by the opposed name, the displaced threshold
  distance 0, the localizer identifier null, the true bearing the opposed course of the
  original one, and the flag \<^verbatim>\<open>is_closed\<close> appended and true. When all identifiers of the
  input carry a runway number from 01 to 36, an end whose opposite is missing is never
  consumed: the pairs of the result that hold it are this pair, once for every
  occurrence of the record in the input. (An end that an earlier end with another
  number has taken as its opposite is skipped, whether or not its own opposite exists.)
\<close>

theorem C3_closed_end_synthesized:
  "(runway_identifier rw \<notin> found \<and>
    (\<forall>orw\<in>set runways. runway_identifier orw \<noteq> opposedRname (runway_identifier rw)) \<longrightarrow>
      pairStep g runways (found, pairs) rw =
        (found, pairs @
           [(rw, rw\<lparr> runway_identifier := opposedRname (runway_identifier rw),
                     displaced_threshold_distance := 0,
                     llz_identifier := None,
                     runway_true_bearing := opposedCourseDeg g (runway_true_bearing rw),
                     is_closed := Some True \<rparr>)]))
   \<and> ((\<forall>r\<in>set runways. wfRunwayIdent (runway_identifier r)) \<and> rw \<in> set runways \<and>
       (\<forall>orw\<in>set runways. runway_identifier orw \<noteq> opposedRname (runway_identifier rw)) \<longrightarrow>
      filter (\<lambda>p. fst p = rw \<or> snd p = rw) (pairRunways g [] runways) =
        replicate (count_list runways rw)
          (rw, rw\<lparr> runway_identifier := opposedRname (runway_identifier rw),
                    displaced_threshold_distance := 0,
                    llz_identifier := None,
                    runway_true_bearing := opposedCourseDeg g (runway_true_bearing rw),
                    is_closed := Some True \<rparr>))"
proof (intro conjI impI)
  assume a: "runway_identifier rw \<notin> found \<and>
    (\<forall>orw\<in>set runways. runway_identifier orw \<noteq> opposedRname (runway_identifier rw))"
  then have "find (\<lambda>orw. runway_identifier orw = opposedRname (runway_identifier rw)) runways = None"
    using find_ident_None by blast
  with a show "pairStep g runways (found, pairs) rw =
        (found, pairs @
           [(rw, rw\<lparr> runway_identifier := opposedRname (runway_identifier rw),
                     displaced_threshold_distance := 0,
                     llz_identifier := None,
                     runway_true_bearing := opposedCourseDeg g (runway_true_bearing rw),
                     is_closed := Some True \<rparr>)])"
    by (simp add: pairStep_stub closedEnd_def)
next
  assume a: "(\<forall>r\<in>set runways. wfRunwayIdent (runway_identifier r)) \<and> rw \<in> set runways \<and>
       (\<forall>orw\<in>set runways. runway_identifier orw \<noteq> opposedRname (runway_identifier rw))"
  then show "filter (\<lambda>p. fst p = rw \<or> snd p = rw) (pairRunways g [] runways) =
        replicate (count_list runways rw)
          (rw, rw\<lparr> runway_identifier := opposedRname (runway_identifier rw),
                    displaced_threshold_distance := 0,
                    llz_identifier := None,
                    runway_true_bearing := opposedCourseDeg g (runway_true_bearing rw),
                    is_closed := Some True \<rparr>)"
    using pairState_orphan [of runways rw runways g]
    by (simp add: pairRunways_def closedEnd_def)
qed

theorem C3_witness:
  "pairRunways flatGeo [] [rw09] =
     [(rw09, rw09\<lparr> runway_identifier := ''RW27'', displaced_threshold_distance := 0,
                   llz_identifier := None, runway_true_bearing := 268, is_closed := Some True \<rparr>)]"
proof -
  have opp: "opposedRname (runway_identifier rw09) = ''RW27''"
    by (simp add: rw09_def runwayEnd_def) code_simp
  have brg: "opposedCourseDeg flatGeo (runway_true_bearing rw09) = 268"
    by (simp add: rw09_def runwayEnd_def flatGeo_def)
  have h: "(\<forall>r\<in>set [rw09]. wfRunwayIdent (runway_identifier r)) \<and> rw09 \<in> set [rw09] \<and>
       (\<forall>orw\<in>set [rw09]. runway_identifier orw \<noteq> opposedRname (runway_identifier rw09))"
    unfolding opp by (simp add: rw09_def runwayEnd_def) code_simp
  have "filter (\<lambda>p. fst p = rw09 \<or> snd p = rw09) (pairRunways flatGeo [] [rw09]) =
        replicate (count_list [rw09] rw09)
          (rw09, rw09\<lparr> runway_identifier := opposedRname (runway_identifier rw09),
                    displaced_threshold_distance := 0,
                    llz_identifier := None,
                    runway_true_bearing := opposedCourseDeg flatGeo (runway_true_bearing rw09),
                    is_closed := Some True \<rparr>)"
    using C3_closed_end_synthesized [of rw09 "{}" "[rw09]" flatGeo "[]"] h by blast
  then have f: "filter (\<lambda>p. fst p = rw09 \<or> snd p = rw09) (pairRunways flatGeo [] [rw09]) =
     [(rw09, rw09\<lparr> runway_identifier := ''RW27'', displaced_threshold_distance := 0,
                   llz_identifier := None, runway_true_bearing := 268, is_closed := Some True \<rparr>)]"
    by (simp add: opp brg)
  have "length (pairRunways flatGeo [] [rw09]) = 1"
    by (simp add: pairRunways_def pairState_def pairStep_def Let_def split: option.split)
  then obtain p where p: "pairRunways flatGeo [] [rw09] = [p]"
    by (cases "pairRunways flatGeo [] [rw09]") auto
  with f show ?thesis by (simp split: if_splits)
qed

theorem C3_counterexample:
  "opposedRname (runway_identifier rw18) = ''RW36''
   \<and> find (\<lambda>orw. runway_identifier orw = ''RW36'') [rw00, rw18] = None
   \<and> pairRunways flatGeo [] [rw00, rw18] = [(rw00, rw18)]"
  by code_simp

section \<open>Claims about the runway writer\<close>

lemma runwayPairStep_numRunwayIls:
  "numRunwayIls (runwayPairStep g aptId l p) =
     numRunwayIls l + (if valueStrOpt (llz_identifier (fst p)) = [] then 1 else 0)"
  by (simp add: runwayPairStep_def Let_def)

lemma runwayLoop_numRunwayIls:
  "numRunwayIls (foldl (runwayPairStep g aptId) l ps) =
     numRunwayIls l + int (length (filter (\<lambda>r. valueStrOpt (llz_identifier r) = []) (map fst ps)))"
  by (induction ps arbitrary: l) (simp_all add: runwayPairStep_numRunwayIls)

lemma airportUpdate_ils:
  "airport_id row = aptid \<Longrightarrow> num_runway_end_ils (airportUpdate aptid surface l row) = numRunwayIls l"
  by (simp add: airportUpdate_def)

lemma airportUpdate_other:
  "airport_id row \<noteq> aptid \<Longrightarrow> airportUpdate aptid surface l row = row"
  by (simp add: airportUpdate_def)

text \<open>
  Claim C10. The value \<^verbatim>\<open>writeRunwaysForAirport\<close> writes to the column
  \<^verbatim>\<open>num_runway_end_ils\<close> of the airport's row is the number of runway pairs whose
  primary end has an empty \<^verbatim>\<open>llz_identifier\<close>. A pair whose primary end carries a
  localizer identifier is not counted, and the count is a function of the primary ends
  alone: the secondary ends do not enter it. The rows of other airports keep their value.
\<close>

theorem C10_num_runway_end_ils:
  "i < length (airportTable c) \<longrightarrow>
     num_runway_end_ils (airportTable (writeRunwaysForAirport g defaultRect c runways apt) ! i) =
       (if airport_id (airportTable c ! i) = getAirportId (airportIndex c) apt
        then int (length (filter (\<lambda>primaryRec. valueStrOpt (llz_identifier primaryRec) = [])
                            (map fst (pairRunways g [] runways))))
        else num_runway_end_ils (airportTable c ! i))"
proof
  assume i: "i < length (airportTable c)"
  have n: "numRunwayIls (runwayLoop g defaultRect c apt runways) =
           int (length (filter (\<lambda>r. valueStrOpt (llz_identifier r) = [])
                            (map fst (pairRunways g [] runways))))"
    by (simp add: runwayLoop_def runwayLoop_numRunwayIls runwayLoopInit_def)
  show "num_runway_end_ils (airportTable (writeRunwaysForAirport g defaultRect c runways apt) ! i) =
       (if airport_id (airportTable c ! i) = getAirportId (airportIndex c) apt
        then int (length (filter (\<lambda>primaryRec. valueStrOpt (llz_identifier primaryRec) = [])
                            (map fst (pairRunways g [] runways))))
        else num_runway_end_ils (airportTable c ! i))"
    using i n by (simp add: writeRunwaysForAirport_def Let_def airportUpdate_ils airportUpdate_other)
qed

theorem C10_witness:
  "num_runway_end_ils
     (airportTable (writeRunwaysForAirport flatGeo nullRect sampleCompiler
        [rw09, rw13L, rw31R, rw36] ''KJFK'') ! 0) = 1"
proof -
  have len: "0 < length (airportTable sampleCompiler)"
    by code_simp
  have aid: "airport_id (airportTable sampleCompiler ! 0) = getAirportId (airportIndex sampleCompiler) ''KJFK''"
    by code_simp
  have cnt: "int (length (filter (\<lambda>primaryRec. valueStrOpt (llz_identifier primaryRec) = [])
                            (map fst (pairRunways flatGeo [] [rw09, rw13L, rw31R, rw36])))) = 1"
    by code_simp
  show ?thesis
    using C10_num_runway_end_ils [of 0 sampleCompiler flatGeo nullRect "[rw09, rw13L, rw31R, rw36]" "''KJFK''"]
      len aid cnt by simp
qed

subsection \<open>The airport rectangle\<close>










subsection \<open>What writeAirports leaves behind\<close>







section \<open>Claims about the airway writer\<close>

lemma airwayLoop_snoc: "airwayLoop (rows @ [cur]) = airwayStep (airwayLoop rows) cur"
  by (simp add: airwayLoop_def)

text \<open>What the loop remembers of the rows it has read, when their names are not empty.\<close>

lemma airwayLoop_last:
  assumes "\<forall>r\<in>set rows. route_identifier r \<noteq> []"
  shows "lastRec (airwayLoop rows) = (if rows = [] then None else Some (last rows))
       \<and> lastName (airwayLoop rows) = (if rows = [] then [] else route_identifier (last rows))
       \<and> (rows \<noteq> [] \<longrightarrow>
            lastEndOfRoute (airwayLoop rows) = endOfRouteCode (waypoint_description_code (last rows)))"
  using assms
proof (induction rows rule: rev_induct)
  case Nil
  then show ?case by (simp add: airwayLoop_def airwayLoopInit_def)
next
  case (snoc cur rows)
  show ?case
    by (simp add: airwayLoop_snoc airwayStep_def Let_def split: option.split)
qed

text \<open>The three cases of an iteration that has a row before it.\<close>

lemma airwayStep_insert:
  assumes "lastName s \<noteq> []" "lastRec s = Some l" "route_identifier cur = lastName s"
    "\<not> lastEndOfRoute s"
  shows "airwayStep s cur =
     s\<lparr> inserted := inserted s @ [airwaySegment l cur (fragmentNumber s) (sequenceNumber s)],
         sequenceNumber := sequenceNumber s + 1,
         lastRec := Some cur, lastName := route_identifier cur,
         lastEndOfRoute := endOfRouteCode (waypoint_description_code cur) \<rparr>"
  using assms by (simp add: airwayStep_def Let_def)

lemma airwayStep_fragment:
  assumes "lastName s \<noteq> []" "route_identifier cur = lastName s" "lastEndOfRoute s"
  shows "airwayStep s cur =
     s\<lparr> fragmentNumber := fragmentNumber s + 1, sequenceNumber := 1,
         lastRec := Some cur, lastName := route_identifier cur,
         lastEndOfRoute := endOfRouteCode (waypoint_description_code cur) \<rparr>"
  using assms by (simp add: airwayStep_def Let_def)

lemma airwayStep_name:
  assumes "lastName s \<noteq> []" "route_identifier cur \<noteq> lastName s"
  shows "airwayStep s cur =
     s\<lparr> lastRec := Some cur, lastName := route_identifier cur,
         lastEndOfRoute := endOfRouteCode (waypoint_description_code cur),
         fragmentNumber := 1, sequenceNumber := 1 \<rparr>"
  using assms by (simp add: airwayStep_def Let_def)

lemma airwayStep_first:
  assumes "lastName s = []"
  shows "airwayStep s cur =
     s\<lparr> lastRec := Some cur, lastName := route_identifier cur,
         lastEndOfRoute := endOfRouteCode (waypoint_description_code cur) \<rparr>"
  using assms by (simp add: airwayStep_def Let_def)

text \<open>The iteration for the row \<open>cur\<close> that follows the rows \<open>pre\<close>.\<close>

lemma airway_iteration:
  assumes names: "\<forall>r\<in>set (pre @ [cur]). route_identifier r \<noteq> []"
  shows "airwayStep (airwayLoop pre) cur =
    (if pre = [] then
       (airwayLoop pre)\<lparr> lastRec := Some cur, lastName := route_identifier cur,
         lastEndOfRoute := endOfRouteCode (waypoint_description_code cur) \<rparr>
     else if route_identifier cur \<noteq> route_identifier (last pre) then
       (airwayLoop pre)\<lparr> lastRec := Some cur, lastName := route_identifier cur,
         lastEndOfRoute := endOfRouteCode (waypoint_description_code cur),
         fragmentNumber := 1, sequenceNumber := 1 \<rparr>
     else if endOfRouteCode (waypoint_description_code (last pre)) then
       (airwayLoop pre)\<lparr> fragmentNumber := fragmentNumber (airwayLoop pre) + 1, sequenceNumber := 1,
         lastRec := Some cur, lastName := route_identifier cur,
         lastEndOfRoute := endOfRouteCode (waypoint_description_code cur) \<rparr>
     else
       (airwayLoop pre)\<lparr> inserted := inserted (airwayLoop pre) @
           [airwaySegment (last pre) cur (fragmentNumber (airwayLoop pre)) (sequenceNumber (airwayLoop pre))],
         sequenceNumber := sequenceNumber (airwayLoop pre) + 1,
         lastRec := Some cur, lastName := route_identifier cur,
         lastEndOfRoute := endOfRouteCode (waypoint_description_code cur) \<rparr>)"
proof -
  from names have n: "\<forall>r\<in>set pre. route_identifier r \<noteq> []" by simp
  note l = airwayLoop_last [OF n]
  show ?thesis
  proof (cases "pre = []")
    case True
    then show ?thesis using l by (simp add: airwayStep_first)
  next
    case False
    then have ne: "lastName (airwayLoop pre) \<noteq> []"
      and ln: "lastName (airwayLoop pre) = route_identifier (last pre)"
      and lr: "lastRec (airwayLoop pre) = Some (last pre)"
      and le: "lastEndOfRoute (airwayLoop pre) = endOfRouteCode (waypoint_description_code (last pre))"
      using l n by simp_all
    show ?thesis
    proof (cases "route_identifier cur = route_identifier (last pre)")
      case diff: False
      then show ?thesis using False ne ln by (simp add: airwayStep_name)
    next
      case same: True
      show ?thesis
      proof (cases "endOfRouteCode (waypoint_description_code (last pre))")
        case True
        then show ?thesis using False same ne ln le by (simp add: airwayStep_fragment)
      next
        case eor: False
        then show ?thesis
          using False same ne ln le lr airwayStep_insert [of "airwayLoop pre" "last pre" cur] by simp
      qed
    qed
  qed
qed

lemma airway_iteration_fields:
  assumes names: "\<forall>r\<in>set (pre @ [cur]). route_identifier r \<noteq> []"
  shows "inserted (airwayLoop (pre @ [cur])) =
       inserted (airwayLoop pre) @
         (if pre \<noteq> [] \<and> route_identifier cur = route_identifier (last pre) \<and>
             \<not> endOfRouteCode (waypoint_description_code (last pre))
          then [airwaySegment (last pre) cur (fragmentNumber (airwayLoop pre))
                  (sequenceNumber (airwayLoop pre))]
          else [])"
    and "sequenceNumber (airwayLoop (pre @ [cur])) =
       (if pre = [] then sequenceNumber (airwayLoop pre)
        else if route_identifier cur \<noteq> route_identifier (last pre) then 1
        else if endOfRouteCode (waypoint_description_code (last pre)) then 1
        else sequenceNumber (airwayLoop pre) + 1)"
    and "fragmentNumber (airwayLoop (pre @ [cur])) =
       (if pre = [] then fragmentNumber (airwayLoop pre)
        else if route_identifier cur \<noteq> route_identifier (last pre) then 1
        else if endOfRouteCode (waypoint_description_code (last pre))
          then fragmentNumber (airwayLoop pre) + 1
        else fragmentNumber (airwayLoop pre))"
  unfolding airwayLoop_snoc airway_iteration [OF names] by simp_all

lemma airwaySegment_fields:
  "airway_name (airwaySegment l cur f q) = route_identifier l"
  "from_waypoint_id (airwaySegment l cur f q) = waypoint_id l"
  "to_waypoint_id (airwaySegment l cur f q) = waypoint_id cur"
  "airway_fragment_no (airwaySegment l cur f q) = f"
  "sequence_no (airwaySegment l cur f q) = q"
  by (simp_all add: airwaySegment_def Let_def)

text \<open>A segment is inserted between two rows of its route.\<close>

lemma filter_last: "xs \<noteq> [] \<Longrightarrow> P (last xs) \<Longrightarrow> 1 \<le> length (filter P xs)"
proof -
  assume "xs \<noteq> []" "P (last xs)"
  then have "last xs \<in> set (filter P xs)" by simp
  then have "filter P xs \<noteq> []" by (metis empty_iff empty_set)
  then show ?thesis by (cases "filter P xs") simp_all
qed

lemma airway_segment_rows:
  assumes "\<forall>r\<in>set rows. route_identifier r \<noteq> []"
  shows "\<forall>seg\<in>set (inserted (airwayLoop rows)).
           2 \<le> length (filter (\<lambda>r. route_identifier r = airway_name seg) rows)"
  using assms
proof (induction rows rule: rev_induct)
  case Nil
  then show ?case by (simp add: airwayLoop_def airwayLoopInit_def)
next
  case (snoc cur pre)
  then have names: "\<forall>r\<in>set (pre @ [cur]). route_identifier r \<noteq> []"
    and IH: "\<forall>seg\<in>set (inserted (airwayLoop pre)).
           2 \<le> length (filter (\<lambda>r. route_identifier r = airway_name seg) pre)"
    by simp_all
  show ?case
  proof
    fix seg assume seg: "seg \<in> set (inserted (airwayLoop (pre @ [cur])))"
    show "2 \<le> length (filter (\<lambda>r. route_identifier r = airway_name seg) (pre @ [cur]))"
    proof (cases "seg \<in> set (inserted (airwayLoop pre))")
      case True
      then show ?thesis using IH by fastforce
    next
      case False
      with seg have c: "pre \<noteq> []" "route_identifier cur = route_identifier (last pre)"
        and s: "seg = airwaySegment (last pre) cur (fragmentNumber (airwayLoop pre))
                  (sequenceNumber (airwayLoop pre))"
        unfolding airway_iteration_fields(1) [OF names] by (auto split: if_splits)
      have "1 \<le> length (filter (\<lambda>r. route_identifier r = route_identifier (last pre)) pre)"
        using c(1) by (intro filter_last) simp_all
      then show ?thesis using c(2) by (simp add: s airwaySegment_fields)
    qed
  qed
qed

text \<open>
  Claim C2, as amended. Scanning airway rows that all carry a route identifier, the
  iteration for a row inserts a segment from the previous row to the current row exactly
  when the row is not the first one, its route name is the name of the previous row, and
  the waypoint description code of the previous row does not have E as its second
  character; the segment carries the current fragment and sequence numbers, and the
  sequence number is then incremented. When the previous row ended the route and the name
  is the same, the fragment number is incremented and the sequence number is 1 again; when
  the name changes, both are 1 again. A route of a single row gets no segment. (The
  loop takes an empty previous route name as the sign of the first row, so after a row
  without a route identifier nothing is inserted.)
\<close>

theorem C2_airway_segments:
  "((\<forall>r\<in>set (pre @ [cur]). route_identifier r \<noteq> []) \<longrightarrow>
      inserted (airwayLoop (pre @ [cur])) =
        inserted (airwayLoop pre) @
          (if pre \<noteq> [] \<and> route_identifier cur = route_identifier (last pre) \<and>
              \<not> endOfRouteCode (waypoint_description_code (last pre))
           then [airwaySegment (last pre) cur (fragmentNumber (airwayLoop pre))
                   (sequenceNumber (airwayLoop pre))]
           else [])
      \<and> sequenceNumber (airwayLoop (pre @ [cur])) =
        (if pre = [] then sequenceNumber (airwayLoop pre)
         else if route_identifier cur \<noteq> route_identifier (last pre) then 1
         else if endOfRouteCode (waypoint_description_code (last pre)) then 1
         else sequenceNumber (airwayLoop pre) + 1)
      \<and> fragmentNumber (airwayLoop (pre @ [cur])) =
        (if pre = [] then fragmentNumber (airwayLoop pre)
         else if route_identifier cur \<noteq> route_identifier (last pre) then 1
         else if endOfRouteCode (waypoint_description_code (last pre))
           then fragmentNumber (airwayLoop pre) + 1
         else fragmentNumber (airwayLoop pre)))
   \<and> from_waypoint_id (airwaySegment l cur f q) = waypoint_id l
   \<and> to_waypoint_id (airwaySegment l cur f q) = waypoint_id cur
   \<and> airway_fragment_no (airwaySegment l cur f q) = f
   \<and> sequence_no (airwaySegment l cur f q) = q
   \<and> sequenceNumber (airwayLoop []) = 1 \<and> fragmentNumber (airwayLoop []) = 1
   \<and> ((\<forall>r\<in>set rows. route_identifier r \<noteq> []) \<and>
       length (filter (\<lambda>r. route_identifier r = route) rows) \<le> 1 \<longrightarrow>
         (\<forall>seg\<in>set (writeAirways rows). airway_name seg \<noteq> route))"
proof -
  have p1: "(\<forall>r\<in>set (pre @ [cur]). route_identifier r \<noteq> []) \<longrightarrow>
      inserted (airwayLoop (pre @ [cur])) =
        inserted (airwayLoop pre) @
          (if pre \<noteq> [] \<and> route_identifier cur = route_identifier (last pre) \<and>
              \<not> endOfRouteCode (waypoint_description_code (last pre))
           then [airwaySegment (last pre) cur (fragmentNumber (airwayLoop pre))
                   (sequenceNumber (airwayLoop pre))]
           else [])
      \<and> sequenceNumber (airwayLoop (pre @ [cur])) =
        (if pre = [] then sequenceNumber (airwayLoop pre)
         else if route_identifier cur \<noteq> route_identifier (last pre) then 1
         else if endOfRouteCode (waypoint_description_code (last pre)) then 1
         else sequenceNumber (airwayLoop pre) + 1)
      \<and> fragmentNumber (airwayLoop (pre @ [cur])) =
        (if pre = [] then fragmentNumber (airwayLoop pre)
         else if route_identifier cur \<noteq> route_identifier (last pre) then 1
         else if endOfRouteCode (waypoint_description_code (last pre))
           then fragmentNumber (airwayLoop pre) + 1
         else fragmentNumber (airwayLoop pre))"
  proof (intro impI conjI)
    assume n: "\<forall>r\<in>set (pre @ [cur]). route_identifier r \<noteq> []"
    show "inserted (airwayLoop (pre @ [cur])) =
        inserted (airwayLoop pre) @
          (if pre \<noteq> [] \<and> route_identifier cur = route_identifier (last pre) \<and>
              \<not> endOfRouteCode (waypoint_description_code (last pre))
           then [airwaySegment (last pre) cur (fragmentNumber (airwayLoop pre))
                   (sequenceNumber (airwayLoop pre))]
           else [])"
      by (rule airway_iteration_fields(1) [OF n])
    show "sequenceNumber (airwayLoop (pre @ [cur])) =
        (if pre = [] then sequenceNumber (airwayLoop pre)
         else if route_identifier cur \<noteq> route_identifier (last pre) then 1
         else if endOfRouteCode (waypoint_description_code (last pre)) then 1
         else sequenceNumber (airwayLoop pre) + 1)"
      by (rule airway_iteration_fields(2) [OF n])
    show "fragmentNumber (airwayLoop (pre @ [cur])) =
        (if pre = [] then fragmentNumber (airwayLoop pre)
         else if route_identifier cur \<noteq> route_identifier (last pre) then 1
         else if endOfRouteCode (waypoint_description_code (last pre))
           then fragmentNumber (airwayLoop pre) + 1
         else fragmentNumber (airwayLoop pre))"
      by (rule airway_iteration_fields(3) [OF n])
  qed
  have p2: "from_waypoint_id (airwaySegment l cur f q) = waypoint_id l
   \<and> to_waypoint_id (airwaySegment l cur f q) = waypoint_id cur
   \<and> airway_fragment_no (airwaySegment l cur f q) = f
   \<and> sequence_no (airwaySegment l cur f q) = q
   \<and> sequenceNumber (airwayLoop []) = 1 \<and> fragmentNumber (airwayLoop []) = 1"
    by (simp add: airwaySegment_fields airwayLoop_def airwayLoopInit_def)
  have p3: "(\<forall>r\<in>set rows. route_identifier r \<noteq> []) \<and>
       length (filter (\<lambda>r. route_identifier r = route) rows) \<le> 1 \<longrightarrow>
         (\<forall>seg\<in>set (writeAirways rows). airway_name seg \<noteq> route)"
  proof (intro impI ballI)
    fix seg
    assume a: "(\<forall>r\<in>set rows. route_identifier r \<noteq> []) \<and>
       length (filter (\<lambda>r. route_identifier r = route) rows) \<le> 1"
      and "seg \<in> set (writeAirways rows)"
    then have "2 \<le> length (filter (\<lambda>r. route_identifier r = airway_name seg) rows)"
      using airway_segment_rows [of rows] by (simp add: writeAirways_def)
    then show "airway_name seg \<noteq> route" using a by auto
  qed
  from p1 p2 p3 show ?thesis by blast
qed

theorem C2_witness:
  "inserted (airwayLoop ([n1_1, n1_2, n1_3] @ [n1_4])) =
     inserted (airwayLoop [n1_1, n1_2, n1_3]) @ [airwaySegment n1_3 n1_4 2 1]
   \<and> sequenceNumber (airwayLoop ([n1_1, n1_2, n1_3] @ [n1_4])) = 2
   \<and> fragmentNumber (airwayLoop ([n1_1, n1_2, n1_3] @ [n1_4])) = 2
   \<and> ''N3'' \<notin> airway_name ` set (writeAirways [n1_1, n1_2, n3_1])
   \<and> map sequence_no (writeAirways [n1_1, n1_2, n1_3, n1_4, n2_1, n2_2]) = [1, 1, 1]
   \<and> map airway_fragment_no (writeAirways [n1_1, n1_2, n1_3, n1_4, n2_1, n2_2]) = [1, 2, 1]"
proof -
  have h1: "\<forall>r\<in>set ([n1_1, n1_2, n1_3] @ [n1_4]). route_identifier r \<noteq> []"
    by (simp add: n1_1_def n1_2_def n1_3_def n1_4_def airwayRow_def)
  have h2: "(\<forall>r\<in>set [n1_1, n1_2, n3_1]. route_identifier r \<noteq> []) \<and>
            length (filter (\<lambda>r. route_identifier r = ''N3'') [n1_1, n1_2, n3_1]) \<le> 1"
    by (simp add: n1_1_def n1_2_def n3_1_def airwayRow_def)
  have e: "[n1_1, n1_2, n1_3] \<noteq> []" "last [n1_1, n1_2, n1_3] = n1_3"
    "route_identifier n1_4 = route_identifier n1_3"
    "\<not> endOfRouteCode (waypoint_description_code n1_3)"
    "fragmentNumber (airwayLoop [n1_1, n1_2, n1_3]) = 2"
    "sequenceNumber (airwayLoop [n1_1, n1_2, n1_3]) = 1"
    by simp_all code_simp+
  note t = C2_airway_segments [of "[n1_1, n1_2, n1_3]" n1_4 n1_3 1 1 "[n1_1, n1_2, n3_1]" "''N3''"]
  from t h1 have a: "inserted (airwayLoop ([n1_1, n1_2, n1_3] @ [n1_4])) =
     inserted (airwayLoop [n1_1, n1_2, n1_3]) @ [airwaySegment n1_3 n1_4 2 1]"
    "sequenceNumber (airwayLoop ([n1_1, n1_2, n1_3] @ [n1_4])) = 2"
    "fragmentNumber (airwayLoop ([n1_1, n1_2, n1_3] @ [n1_4])) = 2"
    using e by simp_all
  from t h2 have "\<forall>seg\<in>set (writeAirways [n1_1, n1_2, n3_1]). airway_name seg \<noteq> ''N3''"
    by blast
  then have b: "''N3'' \<notin> airway_name ` set (writeAirways [n1_1, n1_2, n3_1])"
    by (auto simp only: image_iff)
  have c: "map sequence_no (writeAirways [n1_1, n1_2, n1_3, n1_4, n2_1, n2_2]) = [1, 1, 1]"
    "map airway_fragment_no (writeAirways [n1_1, n1_2, n1_3, n1_4, n2_1, n2_2]) = [1, 2, 1]"
    by code_simp+
  from a b c show ?thesis by (intro conjI)
qed

theorem C2_counterexample:
  "route_identifier unnamed_2 = route_identifier unnamed_1
   \<and> \<not> endOfRouteCode (waypoint_description_code unnamed_1)
   \<and> writeAirways [unnamed_1, unnamed_2] = []"
  by code_simp

section \<open>Claims about the column update passes\<close>

lemma updateMagvar_tables:
  "waypoint (updateMagvar g db) = map (\<lambda>r. r\<lparr> mag_var := getMagVar g (lonx r, laty r) \<rparr>) (waypoint db)"
  "ndb (updateMagvar g db) = map (\<lambda>r. r\<lparr> mag_var := getMagVar g (lonx r, laty r) \<rparr>) (ndb db)"
  "ils (updateMagvar g db) = ils db"
  by (simp_all add: updateMagvar_def updateColumnInTable_def magvarFunc_def magvarBind_def)

text \<open>
  Claim C6. After the magnetic variation pass, the column \<^verbatim>\<open>mag_var\<close> of every row of
  the tables \<^verbatim>\<open>waypoint\<close> and \<^verbatim>\<open>ndb\<close> is the value of the magnetic model at the
  position (\<^verbatim>\<open>lonx\<close>, \<^verbatim>\<open>laty\<close>) of that row; the pass keeps the rows, their order and their
  positions.
\<close>

theorem C6_magvar_pass:
  "(\<forall>r\<in>set (waypoint (updateMagvar g db)) \<union> set (ndb (updateMagvar g db)).
      mag_var r = getMagVar g (lonx r, laty r))
   \<and> map row_id (waypoint (updateMagvar g db)) = map row_id (waypoint db)
   \<and> map lonx (waypoint (updateMagvar g db)) = map lonx (waypoint db)
   \<and> map laty (waypoint (updateMagvar g db)) = map laty (waypoint db)
   \<and> map row_id (ndb (updateMagvar g db)) = map row_id (ndb db)
   \<and> map lonx (ndb (updateMagvar g db)) = map lonx (ndb db)
   \<and> map laty (ndb (updateMagvar g db)) = map laty (ndb db)"
  unfolding updateMagvar_tables by (auto simp add: comp_def)

theorem C6_witness:
  "map mag_var (waypoint (updateMagvar flatGeo sampleTables)) = [1, -3]
   \<and> map mag_var (ndb (updateMagvar flatGeo sampleTables)) = [-2]
   \<and> map lonx (waypoint (updateMagvar flatGeo sampleTables)) = [10, -30]"
proof -
  have m: "getMagVar flatGeo (x, y) = x / 10" for x y
    by (simp add: flatGeo_def)
  have lw: "length (waypoint (updateMagvar flatGeo sampleTables)) = 2"
    and ln: "length (ndb (updateMagvar flatGeo sampleTables)) = 1"
    by (simp_all add: updateMagvar_tables sampleTables_def)
  note t = C6_magvar_pass [of flatGeo sampleTables]
  have lon: "map lonx (waypoint (updateMagvar flatGeo sampleTables)) = [10, -30]"
    "map lonx (ndb (updateMagvar flatGeo sampleTables)) = [-20]"
    using t by (simp_all add: sampleTables_def)
  from t have "\<forall>r\<in>set (waypoint (updateMagvar flatGeo sampleTables)). mag_var r = lonx r / 10"
    and "\<forall>r\<in>set (ndb (updateMagvar flatGeo sampleTables)). mag_var r = lonx r / 10"
    by (simp_all add: m)
  then have "map mag_var (waypoint (updateMagvar flatGeo sampleTables))
             = map (\<lambda>x. x / 10) (map lonx (waypoint (updateMagvar flatGeo sampleTables)))"
    and "map mag_var (ndb (updateMagvar flatGeo sampleTables))
             = map (\<lambda>x. x / 10) (map lonx (ndb (updateMagvar flatGeo sampleTables)))"
    by simp_all
  then show ?thesis unfolding lon by simp
qed

lemma updateIlsGeometry_rows:
  "ils (updateIlsGeometry g featherLen db) =
     map (\<lambda>r. case ilsFunc g featherLen r of None \<Rightarrow> r | Some v \<Rightarrow> ilsBind r v) (ils db)"
  "waypoint (updateIlsGeometry g featherLen db) = waypoint db"
  "ndb (updateIlsGeometry g featherLen db) = ndb db"
  by (simp_all add: updateIlsGeometry_def updateColumnInTable_def)

text \<open>
  Claim C4. For every row of the table \<^verbatim>\<open>ils\<close> the geometry pass writes three points:
  with the heading reversed to the opposed course of the localizer heading, the two
  corners are the projections from the localizer origin along the reversed heading minus
  and plus half the width, for the feather length, and the midpoint is the projection
  from the origin along the reversed heading for the feather length minus half the
  distance between the two corners. Every projection is the normalized endpoint. The
  other columns of the row stay as they are.
\<close>

theorem C4_ils_feather:
  "i < length (ils db) \<longrightarrow>
     (let from = ils db ! i;
          to = ils (updateIlsGeometry g featherLen db) ! i;
          origin = (ils_lonx from, ils_laty from);
          len = nmToMeter g (real_of_int featherLen);
          reversed = opposedCourseDeg g (loc_heading from);
          corner1 = normalize g (endpoint g origin len (reversed - loc_width from / 2));
          corner2 = normalize g (endpoint g origin len (reversed + loc_width from / 2));
          midpoint = normalize g (endpoint g origin (len - distanceMeterTo g corner1 corner2 / 2) reversed)
      in (end1_lonx to, end1_laty to) = corner1
       \<and> (end_mid_lonx to, end_mid_laty to) = midpoint
       \<and> (end2_lonx to, end2_laty to) = corner2
       \<and> ils_id to = ils_id from \<and> ils_lonx to = ils_lonx from \<and> ils_laty to = ils_laty from
       \<and> loc_heading to = loc_heading from \<and> loc_width to = loc_width from)
   \<and> length (ils (updateIlsGeometry g featherLen db)) = length (ils db)"
  by (simp add: updateIlsGeometry_rows ilsFunc_def ilsBind_def Let_def getLonX_def getLatY_def)

theorem C4_witness:
  "(end1_lonx (ils (updateIlsGeometry flatGeo 9 sampleTables) ! 0),
    end1_laty (ils (updateIlsGeometry flatGeo 9 sampleTables) ! 0)) = (- (4167 / 25000), - (1389 / 250000))
   \<and> (end_mid_lonx (ils (updateIlsGeometry flatGeo 9 sampleTables) ! 0),
      end_mid_laty (ils (updateIlsGeometry flatGeo 9 sampleTables) ! 0)) = (- (40281 / 250000), 0)
   \<and> (end2_lonx (ils (updateIlsGeometry flatGeo 9 sampleTables) ! 0),
      end2_laty (ils (updateIlsGeometry flatGeo 9 sampleTables) ! 0)) = (- (4167 / 25000), 1389 / 250000)"
proof -
  have h: "0 < length (ils sampleTables)" by (simp add: sampleTables_def)
  have r: "ils sampleTables ! 0 =
      \<lparr> ils_id = 1, ils_lonx = 0, ils_laty = 0, loc_heading = 90, loc_width = 4,
        end1_lonx = 0, end1_laty = 0, end_mid_lonx = 0, end_mid_laty = 0,
        end2_lonx = 0, end2_laty = 0 \<rparr>"
    by (simp add: sampleTables_def)
  from C4_ils_feather [of 0 sampleTables flatGeo 9] h show ?thesis
    by (simp add: Let_def r flatGeo_def)
qed

section \<open>Claims about the METAR index\<close>

lemma wellFormedIndex_clear: "wellFormedIndex clear"
  by (simp add: wellFormedIndex_def clear_def)

lemma wellFormedIndex_distinct:
  assumes "wellFormedIndex idx"
  shows "distinct (map md_ident (spatialIndex idx))"
proof -
  have "i = j" if "i < length (spatialIndex idx)" "j < length (spatialIndex idx)"
    "md_ident (spatialIndex idx ! i) = md_ident (spatialIndex idx ! j)" for i j
  proof -
    from assms that have "identIndexMap idx (md_ident (spatialIndex idx ! i)) = Some i"
      "identIndexMap idx (md_ident (spatialIndex idx ! i)) = Some j"
      unfolding wellFormedIndex_def by metis+
    then show ?thesis by simp
  qed
  then show ?thesis unfolding distinct_conv_nth by fastforce
qed

text \<open>The two outcomes of an update: a new station, or a station of the index.\<close>

lemma updateOrInsert_new:
  assumes "identIndexMap idx station = None"
  shows "updateOrInsert idx metar station ts =
     idx\<lparr> identIndexMap := (identIndexMap idx)(station \<mapsto> length (spatialIndex idx)),
          spatialIndex := spatialIndex idx @
            [\<lparr> md_ident = station, md_metar = metar, md_timestamp = ts \<rparr>] \<rparr>"
  using assms by (simp add: updateOrInsert_def)

lemma updateOrInsert_old:
  assumes "identIndexMap idx station = Some i" "i < length (spatialIndex idx)"
  shows "updateOrInsert idx metar station ts =
     (if md_timestamp (spatialIndex idx ! i) < ts
      then idx\<lparr> spatialIndex := (spatialIndex idx)
             [i := \<lparr> md_ident = station, md_metar = metar, md_timestamp = ts \<rparr>] \<rparr>
      else idx)"
  using assms by (simp add: updateOrInsert_def)

lemma wellFormedIndex_updateOrInsert:
  assumes wf: "wellFormedIndex idx"
  shows "wellFormedIndex (updateOrInsert idx metar station ts)"
proof (cases "identIndexMap idx station")
  case None
  then have no: "\<And>i. i < length (spatialIndex idx) \<Longrightarrow> md_ident (spatialIndex idx ! i) \<noteq> station"
    using wf unfolding wellFormedIndex_def by (metis option.distinct(1))
  show ?thesis
    unfolding updateOrInsert_new [OF None] wellFormedIndex_def
  proof (intro allI)
    fix s i
    show "(identIndexMap
            (idx\<lparr> identIndexMap := (identIndexMap idx)(station \<mapsto> length (spatialIndex idx)),
                 spatialIndex := spatialIndex idx @
                   [\<lparr> md_ident = station, md_metar = metar, md_timestamp = ts \<rparr>] \<rparr>) s = Some i)
          \<longleftrightarrow> (i < length (spatialIndex
                 (idx\<lparr> identIndexMap := (identIndexMap idx)(station \<mapsto> length (spatialIndex idx)),
                      spatialIndex := spatialIndex idx @
                        [\<lparr> md_ident = station, md_metar = metar, md_timestamp = ts \<rparr>] \<rparr>)) \<and>
               md_ident (spatialIndex
                 (idx\<lparr> identIndexMap := (identIndexMap idx)(station \<mapsto> length (spatialIndex idx)),
                      spatialIndex := spatialIndex idx @
                        [\<lparr> md_ident = station, md_metar = metar, md_timestamp = ts \<rparr>] \<rparr>) ! i) = s)"
    proof (cases "i < length (spatialIndex idx)")
      case True
      then show ?thesis
        using wf no [OF True] unfolding wellFormedIndex_def by (auto simp add: nth_append)
    next
      case False
      then show ?thesis
        using wf unfolding wellFormedIndex_def
        by (cases "i = length (spatialIndex idx)") (auto simp add: nth_append)
    qed
  qed
next
  case (Some i)
  then have i: "i < length (spatialIndex idx)" "md_ident (spatialIndex idx ! i) = station"
    using wf unfolding wellFormedIndex_def by blast+
  show ?thesis
  proof (cases "md_timestamp (spatialIndex idx ! i) < ts")
    case False
    then show ?thesis using wf by (simp add: updateOrInsert_old [OF Some i(1)])
  next
    case True
    have "md_ident ((spatialIndex idx)[i := \<lparr> md_ident = station, md_metar = metar, md_timestamp = ts \<rparr>] ! j)
          = md_ident (spatialIndex idx ! j)" if "j < length (spatialIndex idx)" for j
      using i that by (cases "j = i") simp_all
    note same = this
    have old: "\<And>s j. (identIndexMap idx s = Some j) =
                 (j < length (spatialIndex idx) \<and> md_ident (spatialIndex idx ! j) = s)"
      using wf unfolding wellFormedIndex_def by blast
    show ?thesis
      unfolding updateOrInsert_old [OF Some i(1)] wellFormedIndex_def
    proof (intro allI)
      fix s j
      show "(identIndexMap
              (if md_timestamp (spatialIndex idx ! i) < ts
               then idx\<lparr> spatialIndex := (spatialIndex idx)
                      [i := \<lparr> md_ident = station, md_metar = metar, md_timestamp = ts \<rparr>] \<rparr>
               else idx) s = Some j)
            \<longleftrightarrow> (j < length (spatialIndex
                   (if md_timestamp (spatialIndex idx ! i) < ts
                    then idx\<lparr> spatialIndex := (spatialIndex idx)
                           [i := \<lparr> md_ident = station, md_metar = metar, md_timestamp = ts \<rparr>] \<rparr>
                    else idx)) \<and>
                 md_ident (spatialIndex
                   (if md_timestamp (spatialIndex idx ! i) < ts
                    then idx\<lparr> spatialIndex := (spatialIndex idx)
                           [i := \<lparr> md_ident = station, md_metar = metar, md_timestamp = ts \<rparr>] \<rparr>
                    else idx) ! j) = s)"
        using True same [of j] by (cases "j < length (spatialIndex idx)") (simp_all add: old)
    qed
  qed
qed

text \<open>After an update the station has an entry that is not older than the record.\<close>

lemma updateOrInsert_station:
  assumes wf: "wellFormedIndex idx"
  shows "\<exists>e\<in>set (spatialIndex (updateOrInsert idx metar station ts)).
           md_ident e = station \<and> ts \<le> md_timestamp e"
proof (cases "identIndexMap idx station")
  case None
  then show ?thesis by (simp add: updateOrInsert_new)
next
  case (Some i)
  then have i: "i < length (spatialIndex idx)" "md_ident (spatialIndex idx ! i) = station"
    using wf unfolding wellFormedIndex_def by blast+
  show ?thesis
  proof (cases "md_timestamp (spatialIndex idx ! i) < ts")
    case True
    then have "\<lparr> md_ident = station, md_metar = metar, md_timestamp = ts \<rparr>
               \<in> set (spatialIndex (updateOrInsert idx metar station ts))"
      using i by (simp add: updateOrInsert_old [OF Some i(1)] set_update_memI)
    then show ?thesis by force
  next
    case False
    then have "spatialIndex idx ! i \<in> set (spatialIndex (updateOrInsert idx metar station ts))"
      using i by (simp add: updateOrInsert_old [OF Some i(1)])
    then show ?thesis using i False by force
  qed
qed

text \<open>An entry of the index is never replaced by an older one.\<close>

lemma updateOrInsert_keeps:
  assumes wf: "wellFormedIndex idx" and e: "e \<in> set (spatialIndex idx)"
  shows "\<exists>e'\<in>set (spatialIndex (updateOrInsert idx metar station ts)).
           md_ident e' = md_ident e \<and> md_timestamp e \<le> md_timestamp e'"
proof (cases "identIndexMap idx station")
  case None
  then show ?thesis using e by (auto simp add: updateOrInsert_new)
next
  case (Some i)
  then have i: "i < length (spatialIndex idx)" "md_ident (spatialIndex idx ! i) = station"
    using wf unfolding wellFormedIndex_def by blast+
  show ?thesis
  proof (cases "md_timestamp (spatialIndex idx ! i) < ts")
    case False
    then show ?thesis using e by (auto simp add: updateOrInsert_old [OF Some i(1)])
  next
    case True
    from e obtain j where j: "j < length (spatialIndex idx)" "spatialIndex idx ! j = e"
      by (auto simp add: in_set_conv_nth)
    show ?thesis
    proof (cases "j = i")
      case same: True
      have "\<lparr> md_ident = station, md_metar = metar, md_timestamp = ts \<rparr>
               \<in> set (spatialIndex (updateOrInsert idx metar station ts))"
        using i True by (simp add: updateOrInsert_old [OF Some i(1)] set_update_memI)
      moreover have "md_ident e = station" "md_timestamp e \<le> ts" using same j i True by auto
      ultimately show ?thesis
        by (intro bexI [where x = "\<lparr> md_ident = station, md_metar = metar, md_timestamp = ts \<rparr>"])
          simp_all
    next
      case other: False
      then have "(spatialIndex idx)[i := \<lparr> md_ident = station, md_metar = metar, md_timestamp = ts \<rparr>] ! j = e"
        using j by simp
      then have "e \<in> set (spatialIndex (updateOrInsert idx metar station ts))"
        using j True by (auto simp add: updateOrInsert_old [OF Some i(1)] in_set_conv_nth)
      then show ?thesis by force
    qed
  qed
qed

text \<open>Every entry after an update is an entry of the index or the record.\<close>

lemma updateOrInsert_origin:
  "set (spatialIndex (updateOrInsert idx metar station ts))
     \<subseteq> insert \<lparr> md_ident = station, md_metar = metar, md_timestamp = ts \<rparr> (set (spatialIndex idx))"
proof (cases "identIndexMap idx station")
  case None
  then show ?thesis by (auto simp add: updateOrInsert_new)
next
  case (Some i)
  show ?thesis
    using set_update_subset_insert [of "spatialIndex idx" i]
    by (auto simp add: updateOrInsert_def Some)
qed

subsection \<open>Reading a file\<close>

lemma read_wellFormed:
  "wellFormedIndex idx \<Longrightarrow>
   wellFormedIndex (foldl (\<lambda>i r. updateOrInsert i (md_metar r) (md_ident r) (md_timestamp r)) idx records)"
  by (induction records arbitrary: idx) (simp_all add: wellFormedIndex_updateOrInsert)

lemma read_keeps:
  assumes "wellFormedIndex idx" "e \<in> set (spatialIndex idx)"
  shows "\<exists>e'\<in>set (spatialIndex
            (foldl (\<lambda>i r. updateOrInsert i (md_metar r) (md_ident r) (md_timestamp r)) idx records)).
           md_ident e' = md_ident e \<and> md_timestamp e \<le> md_timestamp e'"
  using assms
proof (induction records arbitrary: idx e)
  case Nil
  then show ?case by auto
next
  case (Cons r records)
  let ?idx = "updateOrInsert idx (md_metar r) (md_ident r) (md_timestamp r)"
  from updateOrInsert_keeps [OF Cons.prems]
  obtain e1 where e1: "e1 \<in> set (spatialIndex ?idx)" "md_ident e1 = md_ident e"
    "md_timestamp e \<le> md_timestamp e1" by blast
  have "wellFormedIndex ?idx" using Cons.prems(1) by (rule wellFormedIndex_updateOrInsert)
  from Cons.IH [OF this e1(1)]
  obtain e2 where "e2 \<in> set (spatialIndex
      (foldl (\<lambda>i r. updateOrInsert i (md_metar r) (md_ident r) (md_timestamp r)) ?idx records))"
    "md_ident e2 = md_ident e1" "md_timestamp e1 \<le> md_timestamp e2" by blast
  then show ?case using e1 by (intro bexI [where x = e2]) simp_all
qed

lemma read_records:
  assumes "wellFormedIndex idx" "r \<in> set records"
  shows "\<exists>e\<in>set (spatialIndex
            (foldl (\<lambda>i r. updateOrInsert i (md_metar r) (md_ident r) (md_timestamp r)) idx records)).
           md_ident e = md_ident r \<and> md_timestamp r \<le> md_timestamp e"
  using assms
proof (induction records arbitrary: idx)
  case Nil
  then show ?case by simp
next
  case (Cons r0 records)
  let ?idx = "updateOrInsert idx (md_metar r0) (md_ident r0) (md_timestamp r0)"
  have wf: "wellFormedIndex ?idx" using Cons.prems(1) by (rule wellFormedIndex_updateOrInsert)
  show ?case
  proof (cases "r \<in> set records")
    case True
    from Cons.IH [OF wf True] show ?thesis by simp
  next
    case False
    then have r: "r = r0" using Cons.prems(2) by simp
    from updateOrInsert_station [OF Cons.prems(1), of "md_metar r0" "md_ident r0" "md_timestamp r0"]
    obtain e1 where e1: "e1 \<in> set (spatialIndex ?idx)" "md_ident e1 = md_ident r0"
      "md_timestamp r0 \<le> md_timestamp e1" by blast
    from read_keeps [OF wf e1(1), of records]
    obtain e2 where "e2 \<in> set (spatialIndex
        (foldl (\<lambda>i r. updateOrInsert i (md_metar r) (md_ident r) (md_timestamp r)) ?idx records))"
      "md_ident e2 = md_ident e1" "md_timestamp e1 \<le> md_timestamp e2" by blast
    then show ?thesis using e1 r by (intro bexI [where x = e2]) simp_all
  qed
qed

lemma metarData_fields:
  "\<lparr> md_ident = md_ident r, md_metar = md_metar r, md_timestamp = md_timestamp r \<rparr> = (r :: MetarData)"
  by (cases r) simp

lemma read_origin:
  "set (spatialIndex
     (foldl (\<lambda>i r. updateOrInsert i (md_metar r) (md_ident r) (md_timestamp r)) idx records))
   \<subseteq> set (spatialIndex idx) \<union> set records"
proof (induction records arbitrary: idx)
  case Nil
  then show ?case by simp
next
  case (Cons r records)
  have "set (spatialIndex (updateOrInsert idx (md_metar r) (md_ident r) (md_timestamp r)))
        \<subseteq> insert r (set (spatialIndex idx))"
    using updateOrInsert_origin [of idx "md_metar r" "md_ident r" "md_timestamp r"]
    by (simp add: metarData_fields)
  with Cons.IH [of "updateOrInsert idx (md_metar r) (md_ident r) (md_timestamp r)"]
  show ?case by auto
qed

text \<open>
  Claim C7, against the index as the specification describes it. Reading records into a
  well-formed index leaves a well-formed index with at most one entry for a station
  identifier. Every record read has an entry of its station that is not older than the
  record, an entry that was in the index before a merging read has one that is not older,
  and every entry is one of the records read or, after a merging read, an entry of the
  index before. The result counts the records read. An update for a station that is in
  the index replaces its entry when the record is later and leaves the index as it is
  otherwise.
\<close>

theorem C7_metar_index:
  "wellFormedIndex idx \<longrightarrow>
     wellFormedIndex (fst (read idx records merge))
     \<and> distinct (map md_ident (spatialIndex (fst (read idx records merge))))
     \<and> (\<forall>r\<in>set records. \<exists>e\<in>set (spatialIndex (fst (read idx records merge))).
           md_ident e = md_ident r \<and> md_timestamp r \<le> md_timestamp e)
     \<and> (merge \<longrightarrow> (\<forall>e\<in>set (spatialIndex idx). \<exists>e'\<in>set (spatialIndex (fst (read idx records merge))).
           md_ident e' = md_ident e \<and> md_timestamp e \<le> md_timestamp e'))
     \<and> set (spatialIndex (fst (read idx records merge)))
          \<subseteq> set records \<union> (if merge then set (spatialIndex idx) else {})
     \<and> snd (read idx records merge) = int (length records)
     \<and> (\<forall>i. identIndexMap idx station = Some i \<longrightarrow>
           spatialIndex (updateOrInsert idx metar station ts) =
             (if md_timestamp (spatialIndex idx ! i) < ts
              then (spatialIndex idx)[i := \<lparr> md_ident = station, md_metar = metar, md_timestamp = ts \<rparr>]
              else spatialIndex idx))"
proof
  assume wf: "wellFormedIndex idx"
  let ?start = "if merge then idx else clear"
  have wfs: "wellFormedIndex ?start" using wf by (simp add: wellFormedIndex_clear)
  have f: "fst (read idx records merge) =
      foldl (\<lambda>i r. updateOrInsert i (md_metar r) (md_ident r) (md_timestamp r)) ?start records"
    by (simp add: read_def)
  have a: "wellFormedIndex (fst (read idx records merge))"
    unfolding f using wfs by (rule read_wellFormed)
  have b: "distinct (map md_ident (spatialIndex (fst (read idx records merge))))"
    using a by (rule wellFormedIndex_distinct)
  have c: "\<forall>r\<in>set records. \<exists>e\<in>set (spatialIndex (fst (read idx records merge))).
           md_ident e = md_ident r \<and> md_timestamp r \<le> md_timestamp e"
    unfolding f using read_records [OF wfs] by blast
  have d: "merge \<longrightarrow> (\<forall>e\<in>set (spatialIndex idx). \<exists>e'\<in>set (spatialIndex (fst (read idx records merge))).
           md_ident e' = md_ident e \<and> md_timestamp e \<le> md_timestamp e')"
  proof (intro impI ballI)
    fix e assume "merge" "e \<in> set (spatialIndex idx)"
    then show "\<exists>e'\<in>set (spatialIndex (fst (read idx records merge))).
           md_ident e' = md_ident e \<and> md_timestamp e \<le> md_timestamp e'"
      unfolding f using read_keeps [OF wf, of e records] by simp
  qed
  have e: "set (spatialIndex (fst (read idx records merge)))
          \<subseteq> set records \<union> (if merge then set (spatialIndex idx) else {})"
    unfolding f using read_origin [of ?start records] by (auto simp add: clear_def split: if_splits)
  have g: "snd (read idx records merge) = int (length records)"
    by (simp add: read_def)
  have h: "\<forall>i. identIndexMap idx station = Some i \<longrightarrow>
           spatialIndex (updateOrInsert idx metar station ts) =
             (if md_timestamp (spatialIndex idx ! i) < ts
              then (spatialIndex idx)[i := \<lparr> md_ident = station, md_metar = metar, md_timestamp = ts \<rparr>]
              else spatialIndex idx)"
  proof (intro allI impI)
    fix i assume s: "identIndexMap idx station = Some i"
    then have "i < length (spatialIndex idx)" using wf unfolding wellFormedIndex_def by blast
    from updateOrInsert_old [OF s this]
    show "spatialIndex (updateOrInsert idx metar station ts) =
             (if md_timestamp (spatialIndex idx ! i) < ts
              then (spatialIndex idx)[i := \<lparr> md_ident = station, md_metar = metar, md_timestamp = ts \<rparr>]
              else spatialIndex idx)" by simp
  qed
  from a b c d e g h
  show "wellFormedIndex (fst (read idx records merge))
     \<and> distinct (map md_ident (spatialIndex (fst (read idx records merge))))
     \<and> (\<forall>r\<in>set records. \<exists>e\<in>set (spatialIndex (fst (read idx records merge))).
           md_ident e = md_ident r \<and> md_timestamp r \<le> md_timestamp e)
     \<and> (merge \<longrightarrow> (\<forall>e\<in>set (spatialIndex idx). \<exists>e'\<in>set (spatialIndex (fst (read idx records merge))).
           md_ident e' = md_ident e \<and> md_timestamp e \<le> md_timestamp e'))
     \<and> set (spatialIndex (fst (read idx records merge)))
          \<subseteq> set records \<union> (if merge then set (spatialIndex idx) else {})
     \<and> snd (read idx records merge) = int (length records)
     \<and> (\<forall>i. identIndexMap idx station = Some i \<longrightarrow>
           spatialIndex (updateOrInsert idx metar station ts) =
             (if md_timestamp (spatialIndex idx ! i) < ts
              then (spatialIndex idx)[i := \<lparr> md_ident = station, md_metar = metar, md_timestamp = ts \<rparr>]
              else spatialIndex idx))"
    by (intro conjI)
qed

theorem C7_witness:
  "spatialIndex (fst (read clear [kaaa_12, kbbb_12, kaaa_13] True)) = [kaaa_13, kbbb_12]
   \<and> spatialIndex (fst (read (fst (read clear [kaaa_13, kbbb_12] True)) [kaaa_12] True))
       = [kaaa_13, kbbb_12]
   \<and> distinct (map md_ident (spatialIndex (fst (read clear [kaaa_12, kbbb_12, kaaa_13] True))))"
proof -
  from C7_metar_index [of clear "[kaaa_12, kbbb_12, kaaa_13]" True "''KAAA''" "[]" 0]
  have "distinct (map md_ident (spatialIndex (fst (read clear [kaaa_12, kbbb_12, kaaa_13] True))))"
    using wellFormedIndex_clear by blast
  moreover have "spatialIndex (fst (read clear [kaaa_12, kbbb_12, kaaa_13] True)) = [kaaa_13, kbbb_12]"
    "spatialIndex (fst (read (fst (read clear [kaaa_13, kbbb_12] True)) [kaaa_12] True))
       = [kaaa_13, kbbb_12]"
    by code_simp+
  ultimately show ?thesis by (intro conjI)
qed

section \<open>Claims about the approach record\<close>

subsection \<open>Reading from the stream\<close>

lemma readUByte_ok:
  "bs_pos x < length (bs_data x) \<Longrightarrow>
   readUByte x = Parsed (bs_data x ! bs_pos x, x\<lparr> bs_pos := bs_pos x + 1 \<rparr>)"
  by (simp add: readUByte_def)

lemma readUShort_ok:
  "bs_pos x + 2 \<le> length (bs_data x) \<Longrightarrow>
   \<exists>w. readUShort x = Parsed (w, x\<lparr> bs_pos := bs_pos x + 2 \<rparr>)"
  by (simp add: readUShort_def readUByte_def bindP_def)

lemma readUInt_ok:
  "bs_pos x + 4 \<le> length (bs_data x) \<Longrightarrow>
   \<exists>w. readUInt x = Parsed (w, x\<lparr> bs_pos := bs_pos x + 4 \<rparr>)"
  by (simp add: readUInt_def readUShort_def readUByte_def bindP_def)

lemma readRecord_ok:
  "bs_pos x + 6 \<le> length (bs_data x) \<Longrightarrow>
   \<exists>i z. readRecord x =
     Parsed (\<lparr> startOffset = bs_pos x, rec_id = i, rec_size = z \<rparr>, x\<lparr> bs_pos := bs_pos x + 6 \<rparr>)"
  by (simp add: readRecord_def readUInt_def readUShort_def readUByte_def bindP_def tellg_def)

text \<open>A read at an offset of the stream, as a read of the stream moved there.\<close>

lemma readUByte_at:
  assumes "bs_pos bs + k < length (bs_data bs)"
  shows "readUByte (bs\<lparr> bs_pos := bs_pos bs + k \<rparr>) =
         Parsed (bs_data bs ! (bs_pos bs + k), bs\<lparr> bs_pos := bs_pos bs + (k + 1) \<rparr>)"
  using assms by (simp add: readUByte_def)

lemma readUInt_at:
  assumes "bs_pos bs + k + 4 \<le> length (bs_data bs)"
  shows "\<exists>w. readUInt (bs\<lparr> bs_pos := bs_pos bs + k \<rparr>) =
         Parsed (w, bs\<lparr> bs_pos := bs_pos bs + (k + 4) \<rparr>)"
  using readUInt_ok [of "bs\<lparr> bs_pos := bs_pos bs + k \<rparr>"] assms by (simp add: add.assoc)

subsection \<open>Bit fields\<close>

lemma unat_ucast_byte: "unat (ucast (b :: 8 word) :: 32 word) = unat b"
proof -
  have "unat b < 2 ^ 32" using unsigned_less [of b, where 'a = nat] by simp
  then show ?thesis by (simp add: unsigned_ucast_eq take_bit_nat_eq_self)
qed

lemma unat_and_mask_nat: "unat ((w :: 'a::len word) AND mask n) = unat w mod 2 ^ n"
proof -
  have "unat (take_bit n w) = take_bit n (unat w)" by (rule unsigned_take_bit_eq)
  then show ?thesis by (simp add: take_bit_eq_mask [symmetric] take_bit_eq_mod del: take_bit_eq_mask)
qed

lemma unat_drop_bit_nat: "unat (drop_bit n (w :: 'a::len word)) = unat w div 2 ^ n"
proof -
  have "unat (drop_bit n w) = drop_bit n (unat w)" by (rule unat_drop_bit_eq)
  also have "\<dots> = unat w div 2 ^ n" by (rule drop_bit_eq_div)
  finally show ?thesis .
qed

lemma low_nibble: "unat ((ucast (b :: 8 word) :: 32 word) AND 0xf) = unat b mod 16"
proof -
  have "(0xf :: 32 word) = mask 4" by (simp add: mask_eq_exp_minus_1)
  then show ?thesis by (simp only: unat_and_mask_nat unat_ucast_byte) simp
qed

lemma bits_4_to_6: "unat (drop_bit 4 (ucast (b :: 8 word) :: 32 word) AND 0x7) = (unat b div 16) mod 8"
proof -
  have "(0x7 :: 32 word) = mask 3" by (simp add: mask_eq_exp_minus_1)
  then show ?thesis by (simp only: unat_and_mask_nat unat_drop_bit_nat unat_ucast_byte) simp
qed

lemma field_28_bits: "unat (drop_bit 5 (w :: 32 word) AND 0xfffffff) = (unat w div 32) mod 2 ^ 28"
proof -
  have "(0xfffffff :: 32 word) = mask 28" by (simp add: mask_eq_exp_minus_1)
  then show ?thesis by (simp only: unat_and_mask_nat unat_drop_bit_nat) simp
qed

lemma bit_7: "((ucast (b :: 8 word) :: 32 word) AND 0x80 = 0x80) \<longleftrightarrow> bit b 7"
proof -
  have p: "(0x80 :: 32 word) = 2 ^ 7" by simp
  have e: "bit (2 ^ 7 :: 32 word) n \<longleftrightarrow> n = 7" for n
    by (simp only: bit_exp_iff) (auto simp add: possible_bit_word)
  have "(ucast b :: 32 word) AND 2 ^ 7 = 2 ^ 7 \<longleftrightarrow> bit (ucast b :: 32 word) 7"
  proof
    assume "(ucast b :: 32 word) AND 2 ^ 7 = 2 ^ 7"
    then have "bit ((ucast b :: 32 word) AND 2 ^ 7) 7 = bit (2 ^ 7 :: 32 word) 7"
      by (simp only:)
    then show "bit (ucast b :: 32 word) 7" by (simp only: bit_and_iff e) simp
  next
    assume a: "bit (ucast b :: 32 word) 7"
    show "(ucast b :: 32 word) AND 2 ^ 7 = 2 ^ 7"
    proof (rule bit_eqI)
      fix n
      show "bit ((ucast b :: 32 word) AND 2 ^ 7) n = bit (2 ^ 7 :: 32 word) n"
        using a by (simp only: bit_and_iff e) auto
    qed
  qed
  then show ?thesis unfolding p by (simp only: bit_ucast_iff) simp
qed

lemma bit_7_unat: "bit (b :: 8 word) 7 \<longleftrightarrow> 128 \<le> unat b"
proof -
  have lt: "unat b < 256" using unsigned_less [of b, where 'a = nat] by simp
  have "bit b 7 \<longleftrightarrow> bit (unat b) 7" by (simp add: bit_unsigned_iff)
  also have "\<dots> \<longleftrightarrow> odd (unat b div 2 ^ 7)" by (rule bit_iff_odd)
  also have "\<dots> \<longleftrightarrow> 128 \<le> unat b"
  proof (cases "128 \<le> unat b")
    case True
    with lt have "unat b div 2 ^ 7 = 1" by simp
    with True show ?thesis by simp
  next
    case False
    then have "unat b div 2 ^ 7 = 0" by simp
    with False show ?thesis by simp
  qed
  finally show ?thesis .
qed

subsection \<open>The header of the approach record\<close>

lemma readApproachHeader_ok:
  assumes len: "bs_pos bs + 32 \<le> length (bs_data bs)"
    and fl: "readUByte (bs\<lparr> bs_pos := bs_pos bs + 8 \<rparr>) = Parsed (flags, bsA)"
    and ff: "readUInt (bs\<lparr> bs_pos := bs_pos bs + 12 \<rparr>) = Parsed (fixFlags, bsB)"
  shows "\<exists>a bs1. readApproachHeader env msfsApproachNew bs = Parsed (a, bs1) \<and>
           bs1 = bs\<lparr> bs_pos := bs_pos bs + (if msfsApproachNew then 36 else 32) \<rparr> \<and>
           startOffset (ap_record a) = bs_pos bs \<and>
           approachType a = ucast flags AND 0xf \<and>
           runwayDesignator a = drop_bit 4 (ucast flags) AND 0x7 \<and>
           gpsOverlay a = (ucast flags AND (0x80 :: 32 word) = 0x80) \<and>
           fixType a = fixFlags AND 0xf \<and>
           fixIdent a = intToIcao env (drop_bit 5 fixFlags AND 0xfffffff) True \<and>
           legs a = [] \<and> missedLegs a = [] \<and> transitions a = []"
proof -
  obtain i z where r: "readRecord bs =
      Parsed (\<lparr> startOffset = bs_pos bs, rec_id = i, rec_size = z \<rparr>, bs\<lparr> bs_pos := bs_pos bs + 6 \<rparr>)"
    using readRecord_ok [of bs] len by auto
  have b6: "readUByte (bs\<lparr> bs_pos := bs_pos bs + 6 \<rparr>) =
      Parsed (bs_data bs ! (bs_pos bs + 6), bs\<lparr> bs_pos := bs_pos bs + 7 \<rparr>)"
    using readUByte_at [of bs 6] len by simp
  have b7: "readUByte (bs\<lparr> bs_pos := bs_pos bs + 7 \<rparr>) =
      Parsed (bs_data bs ! (bs_pos bs + 7), bs\<lparr> bs_pos := bs_pos bs + 8 \<rparr>)"
    using readUByte_at [of bs 7] len by simp
  have b8: "readUByte (bs\<lparr> bs_pos := bs_pos bs + 8 \<rparr>) =
      Parsed (flags, bs\<lparr> bs_pos := bs_pos bs + 9 \<rparr>)"
    using readUByte_at [of bs 8] len fl by simp
  have b9: "readUByte (bs\<lparr> bs_pos := bs_pos bs + 9 \<rparr>) =
      Parsed (bs_data bs ! (bs_pos bs + 9), bs\<lparr> bs_pos := bs_pos bs + 10 \<rparr>)"
    using readUByte_at [of bs 9] len by simp
  have b10: "readUByte (bs\<lparr> bs_pos := bs_pos bs + 10 \<rparr>) =
      Parsed (bs_data bs ! (bs_pos bs + 10), bs\<lparr> bs_pos := bs_pos bs + 11 \<rparr>)"
    using readUByte_at [of bs 10] len by simp
  have b11: "readUByte (bs\<lparr> bs_pos := bs_pos bs + 11 \<rparr>) =
      Parsed (bs_data bs ! (bs_pos bs + 11), bs\<lparr> bs_pos := bs_pos bs + 12 \<rparr>)"
    using readUByte_at [of bs 11] len by simp
  have w12: "readUInt (bs\<lparr> bs_pos := bs_pos bs + 12 \<rparr>) =
      Parsed (fixFlags, bs\<lparr> bs_pos := bs_pos bs + 16 \<rparr>)"
    using readUInt_at [of bs 12] len ff by auto
  obtain w16 where w16: "readUInt (bs\<lparr> bs_pos := bs_pos bs + 16 \<rparr>) =
      Parsed (w16, bs\<lparr> bs_pos := bs_pos bs + 20 \<rparr>)"
    using readUInt_at [of bs 16] len by auto
  obtain w20 where w20: "readUInt (bs\<lparr> bs_pos := bs_pos bs + 20 \<rparr>) =
      Parsed (w20, bs\<lparr> bs_pos := bs_pos bs + 24 \<rparr>)"
    using readUInt_at [of bs 20] len by auto
  obtain w24 where w24: "readUInt (bs\<lparr> bs_pos := bs_pos bs + 24 \<rparr>) =
      Parsed (w24, bs\<lparr> bs_pos := bs_pos bs + 28 \<rparr>)"
    using readUInt_at [of bs 24] len by auto
  obtain w28 where w28: "readUInt (bs\<lparr> bs_pos := bs_pos bs + 28 \<rparr>) =
      Parsed (w28, bs\<lparr> bs_pos := bs_pos bs + 32 \<rparr>)"
    using readUInt_at [of bs 28] len by auto
  show ?thesis
    unfolding readApproachHeader_def readByte_def readFloat_def
    by (simp add: r b6 b7 b8 b9 b10 b11 w12 w16 w20 w24 w28 bindP_def skip_def Let_def add.commute)
qed

text \<open>
  Claim C8. When the 32 bytes of the primary header can be read, the constructor decodes
  them: the approach type is the flags byte AND 0xf, its low nibble; the runway designator
  is the flags byte shifted right by 4 AND 0x7, its bits 4 to 6; the GPS overlay flag is bit
  7 of the flags byte (flags AND 0x80 = 0x80); the fix identifier is the converter applied to
  the fix word shifted right by 5 AND 0xfffffff, a 28 bit field. The converter is not part
  of the sources at hand and is a parameter: when it returns at most five characters, so
  has the fix identifier.
\<close>

theorem C8_approach_header_bit_fields:
  "tellg bs + 32 \<le> length (bs_data bs) \<and>
   readUByte (seekg bs (tellg bs + 8)) = Parsed (flags, bsA) \<and>
   readUInt (seekg bs (tellg bs + 12)) = Parsed (fixFlags, bsB) \<longrightarrow>
     (\<exists>a bs1. readApproachHeader env msfsApproachNew bs = Parsed (a, bs1) \<and>
        approachType a = ucast flags AND 0xf \<and>
        unat (approachType a) = unat flags mod 16 \<and>
        runwayDesignator a = drop_bit 4 (ucast flags) AND 0x7 \<and>
        unat (runwayDesignator a) = unat flags div 16 mod 8 \<and>
        gpsOverlay a = (ucast flags AND (0x80 :: 32 word) = 0x80) \<and>
        gpsOverlay a = bit flags 7 \<and>
        fixIdent a = intToIcao env (drop_bit 5 fixFlags AND 0xfffffff) True \<and>
        unat (drop_bit 5 fixFlags AND 0xfffffff) = unat fixFlags div 32 mod 2 ^ 28 \<and>
        ((\<forall>code. length (intToIcao env code True) \<le> 5) \<longrightarrow> length (fixIdent a) \<le> 5))"
proof
  assume a: "tellg bs + 32 \<le> length (bs_data bs) \<and>
   readUByte (seekg bs (tellg bs + 8)) = Parsed (flags, bsA) \<and>
   readUInt (seekg bs (tellg bs + 12)) = Parsed (fixFlags, bsB)"
  then have len: "bs_pos bs + 32 \<le> length (bs_data bs)"
    and fl: "readUByte (bs\<lparr> bs_pos := bs_pos bs + 8 \<rparr>) = Parsed (flags, bsA)"
    and ff: "readUInt (bs\<lparr> bs_pos := bs_pos bs + 12 \<rparr>) = Parsed (fixFlags, bsB)"
    by (simp_all add: tellg_def seekg_def)
  from readApproachHeader_ok [OF len fl ff, of env msfsApproachNew]
  obtain a bs1 where h: "readApproachHeader env msfsApproachNew bs = Parsed (a, bs1)"
    "approachType a = ucast flags AND 0xf"
    "runwayDesignator a = drop_bit 4 (ucast flags) AND 0x7"
    "gpsOverlay a = (ucast flags AND (0x80 :: 32 word) = 0x80)"
    "fixIdent a = intToIcao env (drop_bit 5 fixFlags AND 0xfffffff) True"
    by blast
  have "unat (approachType a) = unat flags mod 16"
    unfolding h(2) by (rule low_nibble)
  moreover have "unat (runwayDesignator a) = unat flags div 16 mod 8"
    unfolding h(3) by (rule bits_4_to_6)
  moreover have "gpsOverlay a = bit flags 7"
    unfolding h(4) by (rule bit_7)
  moreover have "unat (drop_bit 5 fixFlags AND 0xfffffff) = unat fixFlags div 32 mod 2 ^ 28"
    by (rule field_28_bits)
  moreover have "(\<forall>code. length (intToIcao env code True) \<le> 5) \<longrightarrow> length (fixIdent a) \<le> 5"
    unfolding h(5) by blast
  ultimately show "\<exists>a bs1. readApproachHeader env msfsApproachNew bs = Parsed (a, bs1) \<and>
        approachType a = ucast flags AND 0xf \<and>
        unat (approachType a) = unat flags mod 16 \<and>
        runwayDesignator a = drop_bit 4 (ucast flags) AND 0x7 \<and>
        unat (runwayDesignator a) = unat flags div 16 mod 8 \<and>
        gpsOverlay a = (ucast flags AND (0x80 :: 32 word) = 0x80) \<and>
        gpsOverlay a = bit flags 7 \<and>
        fixIdent a = intToIcao env (drop_bit 5 fixFlags AND 0xfffffff) True \<and>
        unat (drop_bit 5 fixFlags AND 0xfffffff) = unat fixFlags div 32 mod 2 ^ 28 \<and>
        ((\<forall>code. length (intToIcao env code True) \<le> 5) \<longrightarrow> length (fixIdent a) \<le> 5)"
    using h by (intro exI [of _ a] exI [of _ bs1] conjI)
qed

text \<open>The sample stream, read field by field.\<close>

lemma sample_readRecord:
  "readRecord approachStream =
     Parsed (\<lparr> startOffset = 0, rec_id = 0x24, rec_size = 0x28 \<rparr>, \<lparr> bs_data = approachBytes, bs_pos = 6 \<rparr>)"
  "readRecord \<lparr> bs_data = approachBytes, bs_pos = 32 \<rparr> =
     Parsed (\<lparr> startOffset = 32, rec_id = 0x99, rec_size = 8 \<rparr>, \<lparr> bs_data = approachBytes, bs_pos = 38 \<rparr>)"
  by code_simp+

lemma sample_readUByte:
  "readUByte \<lparr> bs_data = approachBytes, bs_pos = 6 \<rparr> = Parsed (0x30, \<lparr> bs_data = approachBytes, bs_pos = 7 \<rparr>)"
  "readUByte \<lparr> bs_data = approachBytes, bs_pos = 7 \<rparr> = Parsed (0x0d, \<lparr> bs_data = approachBytes, bs_pos = 8 \<rparr>)"
  "readUByte \<lparr> bs_data = approachBytes, bs_pos = 8 \<rparr> = Parsed (0x95, \<lparr> bs_data = approachBytes, bs_pos = 9 \<rparr>)"
  "readUByte \<lparr> bs_data = approachBytes, bs_pos = 9 \<rparr> = Parsed (0, \<lparr> bs_data = approachBytes, bs_pos = 10 \<rparr>)"
  "readUByte \<lparr> bs_data = approachBytes, bs_pos = 10 \<rparr> = Parsed (0, \<lparr> bs_data = approachBytes, bs_pos = 11 \<rparr>)"
  "readUByte \<lparr> bs_data = approachBytes, bs_pos = 11 \<rparr> = Parsed (0, \<lparr> bs_data = approachBytes, bs_pos = 12 \<rparr>)"
  by code_simp+

lemma sample_readUInt:
  "readUInt \<lparr> bs_data = approachBytes, bs_pos = 12 \<rparr> = Parsed (0x60722, \<lparr> bs_data = approachBytes, bs_pos = 16 \<rparr>)"
  "readUInt \<lparr> bs_data = approachBytes, bs_pos = 16 \<rparr> = Parsed (0x201041, \<lparr> bs_data = approachBytes, bs_pos = 20 \<rparr>)"
  "readUInt \<lparr> bs_data = approachBytes, bs_pos = 20 \<rparr> = Parsed (0x447a0000, \<lparr> bs_data = approachBytes, bs_pos = 24 \<rparr>)"
  "readUInt \<lparr> bs_data = approachBytes, bs_pos = 24 \<rparr> = Parsed (0x43050000, \<lparr> bs_data = approachBytes, bs_pos = 28 \<rparr>)"
  "readUInt \<lparr> bs_data = approachBytes, bs_pos = 28 \<rparr> = Parsed (0x44fa0000, \<lparr> bs_data = approachBytes, bs_pos = 32 \<rparr>)"
  by code_simp+

lemma sample_fields:
  "(ucast (0x95 :: 8 word) :: 32 word) = 0x95"
  "(0x95 :: 32 word) AND 0xf = 5" "drop_bit 4 (0x95 :: 32 word) AND 7 = 1" "(0x95 :: 32 word) AND 0x80 = 0x80"
  "(0x60722 :: 32 word) AND 0xf = 2" "drop_bit 5 (0x60722 :: 32 word) AND 0xfffffff = 12345"
  "(0x201041 :: 32 word) AND 0x7ff = 65" "drop_bit 11 (0x201041 :: 32 word) AND 0x1fffff = 1026"
  by code_simp+

lemma sample_intToIcao:
  "intToIcao (sampleEnv sim dbg) 12345 True = ''FIX45''"
  "intToIcao (sampleEnv sim dbg) 65 True = ''FIX65''"
  "intToIcao (sampleEnv sim dbg) 1026 True = ''FIX26''"
  by (simp_all add: sampleEnv_def) code_simp+

lemma sample_header:
  "readApproachHeader (sampleEnv sim dbg) False approachStream =
     Parsed (sampleApproach, \<lparr> bs_data = approachBytes, bs_pos = 32 \<rparr>)"
  unfolding readApproachHeader_def readByte_def readFloat_def
  by (simp add: sample_readRecord approachStream_def [symmetric] bindP_def Let_def)
     (simp add: sample_readUByte sample_readUInt sample_fields sample_intToIcao sampleApproach_def)

theorem C8_witness:
  "readApproachHeader (sampleEnv MSFS False) False approachStream =
     Parsed (sampleApproach, \<lparr> bs_data = approachBytes, bs_pos = 32 \<rparr>)
   \<and> unat (approachType sampleApproach) = 5
   \<and> unat (runwayDesignator sampleApproach) = 1
   \<and> gpsOverlay sampleApproach
   \<and> fixIdent sampleApproach = intToIcao (sampleEnv MSFS False) 12345 True
   \<and> length (fixIdent sampleApproach) \<le> 5"
proof -
  have h: "tellg approachStream + 32 \<le> length (bs_data approachStream) \<and>
      readUByte (seekg approachStream (tellg approachStream + 8)) =
        Parsed (0x95, \<lparr> bs_data = approachBytes, bs_pos = 9 \<rparr>) \<and>
      readUInt (seekg approachStream (tellg approachStream + 12)) =
        Parsed (0x60722, \<lparr> bs_data = approachBytes, bs_pos = 16 \<rparr>)"
    by code_simp
  note p = sample_header [of MSFS False]
  have c: "\<forall>code. length (intToIcao (sampleEnv MSFS False) code True) \<le> 5"
    by (simp add: sampleEnv_def twoDigits_def)
  from C8_approach_header_bit_fields [of approachStream "0x95" "\<lparr> bs_data = approachBytes, bs_pos = 9 \<rparr>"
      "0x60722" "\<lparr> bs_data = approachBytes, bs_pos = 16 \<rparr>" "sampleEnv MSFS False" False] h
  obtain a bs1 where a: "readApproachHeader (sampleEnv MSFS False) False approachStream = Parsed (a, bs1)"
    "unat (approachType a) = unat (0x95 :: 8 word) mod 16"
    "unat (runwayDesignator a) = unat (0x95 :: 8 word) div 16 mod 8"
    "gpsOverlay a = bit (0x95 :: 8 word) 7"
    "fixIdent a = intToIcao (sampleEnv MSFS False) (drop_bit 5 0x60722 AND 0xfffffff) True"
    "(\<forall>code. length (intToIcao (sampleEnv MSFS False) code True) \<le> 5) \<longrightarrow> length (fixIdent a) \<le> 5"
    by blast
  from a(1) p have e: "a = sampleApproach" by simp
  have b7: "bit (0x95 :: 8 word) 7" by (simp add: bit_7_unat)
  show ?thesis
    using p a(2-6) c b7 unfolding e sample_fields by simp
qed

subsection \<open>A subrecord of an unnamed type\<close>

lemma subRecord_default:
  assumes "readRecord (stream st) = Parsed (r, bs)"
    and "apprRecordType env (rec_id r) \<notin>
     {LEGS, LEGS_MSFS, LEGS_MSFS_116, LEGS_MSFS_118,
      MISSED_LEGS, MISSED_LEGS_MSFS, MISSED_LEGS_MSFS_116, MISSED_LEGS_MSFS_118,
      TRANSITION, TRANSITION_MSFS, TRANSITION_MSFS_116}"
    and "\<not> checkSubRecord env r"
  shows "subRecord env st =
       Parsed (Continue (st\<lparr> stream := seekToEnd r bs,
         log := (if DEBUG_INFORMATION env \<or> getSimulatorType env \<noteq> MSFS
                 then log st @ [\<lparr> level = QtWarningMsg, log_recType = apprRecordType env (rec_id r),
                                   log_ident = fixAirportIdent (approach st), log_offset = tellg bs \<rparr>]
                 else log st) \<rparr>))"
  using assms by (simp add: subRecord_def bindP_def Let_def)

lemma subRecords_done:
  "\<not> tellg (stream st) < startOffset (ap_record (approach st)) + unat (rec_size (ap_record (approach st)))
   \<Longrightarrow> subRecords n env st = Parsed st"
  by (cases n) (simp_all add: Let_def)

lemma subRecords_continue:
  "tellg (stream st) < startOffset (ap_record (approach st)) + unat (rec_size (ap_record (approach st)))
   \<Longrightarrow> subRecord env st = Parsed (Continue st1)
   \<Longrightarrow> subRecords (Suc n) env st = subRecords n env st1"
  by (simp add: bindP_def Let_def)

text \<open>The child record of the sample stream has the tag 0x99, which names no subrecord type.\<close>

lemma sample_child:
  "readRecord (stream sampleLoop) =
     Parsed (\<lparr> startOffset = 32, rec_id = 0x99, rec_size = 8 \<rparr>, \<lparr> bs_data = approachBytes, bs_pos = 38 \<rparr>)"
  "apprRecordType (sampleEnv sim dbg) 0x99 = UnnamedRecordType 0x99"
  "\<not> checkSubRecord (sampleEnv sim dbg) \<lparr> startOffset = 32, rec_id = 0x99, rec_size = 8 \<rparr>"
  "tellg (stream sampleLoop) <
      startOffset (ap_record (approach sampleLoop)) + unat (rec_size (ap_record (approach sampleLoop)))"
  by (simp_all add: sampleLoop_def sample_readRecord sampleEnv_def sampleApproach_def tellg_def)

lemma sample_subRecords:
  "subRecords (Suc n) (sampleEnv sim dbg) sampleLoop =
     Parsed (sampleLoop\<lparr> stream := \<lparr> bs_data = approachBytes, bs_pos = 40 \<rparr>,
       log := (if dbg \<or> sim \<noteq> MSFS
               then [\<lparr> level = QtWarningMsg, log_recType = UnnamedRecordType 0x99,
                       log_ident = ''FIX26'', log_offset = 38 \<rparr>]
               else []) \<rparr>)"
proof -
  let ?r = "\<lparr> startOffset = 32, rec_id = 0x99, rec_size = 8 \<rparr>"
  let ?bs = "\<lparr> bs_data = approachBytes, bs_pos = 38 \<rparr>"
  let ?st = "sampleLoop\<lparr> stream := \<lparr> bs_data = approachBytes, bs_pos = 40 \<rparr>,
       log := (if dbg \<or> sim \<noteq> MSFS
               then [\<lparr> level = QtWarningMsg, log_recType = UnnamedRecordType 0x99,
                       log_ident = ''FIX26'', log_offset = 38 \<rparr>]
               else []) \<rparr>"
  have "subRecord (sampleEnv sim dbg) sampleLoop =
      Parsed (Continue (sampleLoop\<lparr> stream := seekToEnd ?r ?bs,
         log := (if DEBUG_INFORMATION (sampleEnv sim dbg) \<or> getSimulatorType (sampleEnv sim dbg) \<noteq> MSFS
                 then log sampleLoop @ [\<lparr> level = QtWarningMsg,
                                   log_recType = apprRecordType (sampleEnv sim dbg) (rec_id ?r),
                                   log_ident = fixAirportIdent (approach sampleLoop), log_offset = tellg ?bs \<rparr>]
                 else log sampleLoop) \<rparr>))"
    by (rule subRecord_default) (simp_all add: sample_child)
  also have "\<dots> = Parsed (Continue ?st)"
    by (simp add: sampleEnv_def sampleLoop_def sampleApproach_def seekToEnd_def seekg_def tellg_def)
  finally have s: "subRecord (sampleEnv sim dbg) sampleLoop = Parsed (Continue ?st)" .
  have d: "\<not> tellg (stream ?st) <
      startOffset (ap_record (approach ?st)) + unat (rec_size (ap_record (approach ?st)))"
    by (simp add: sampleLoop_def sampleApproach_def tellg_def)
  from subRecords_continue [OF sample_child(4) s, of n] subRecords_done [OF d, of n "sampleEnv sim dbg"]
  show ?thesis by simp
qed

lemma sample_readApproach:
  "readApproach (Suc n) (sampleEnv sim dbg) False approachStream =
     Parsed (sampleLoop\<lparr> stream := \<lparr> bs_data = approachBytes, bs_pos = 40 \<rparr>,
       log := (if dbg \<or> sim \<noteq> MSFS
               then [\<lparr> level = QtWarningMsg, log_recType = UnnamedRecordType 0x99,
                       log_ident = ''FIX26'', log_offset = 38 \<rparr>]
               else []) \<rparr>)"
  unfolding readApproach_def sample_header
  using sample_subRecords [of n sim dbg] by (simp add: bindP_def sampleLoop_def)

text \<open>
  Claim C9, as the code has it. A child record whose header can be read, whose type is none
  of the leg, missed leg and transition types and for which the check of the subrecord does
  not end the loop, does not fail the parse: the stream is moved to the end of the child,
  that is its start offset plus its size, and the loop goes on with the next child while
  the stream is inside the parent. A warning is logged when the simulator is not MSFS or
  when the build defines DEBUG_INFORMATION; otherwise the log is left as it is. No message
  of debug level is logged.
\<close>

theorem C9_unknown_subrecord_skipped:
  "readRecord (stream st) = Parsed (r, bs) \<and>
   apprRecordType env (rec_id r) \<notin>
     {LEGS, LEGS_MSFS, LEGS_MSFS_116, LEGS_MSFS_118,
      MISSED_LEGS, MISSED_LEGS_MSFS, MISSED_LEGS_MSFS_116, MISSED_LEGS_MSFS_118,
      TRANSITION, TRANSITION_MSFS, TRANSITION_MSFS_116} \<and>
   \<not> checkSubRecord env r \<longrightarrow>
     subRecord env st =
       Parsed (Continue (st\<lparr> stream := seekToEnd r bs,
         log := (if DEBUG_INFORMATION env \<or> getSimulatorType env \<noteq> MSFS
                 then log st @ [\<lparr> level = QtWarningMsg, log_recType = apprRecordType env (rec_id r),
                                   log_ident = fixAirportIdent (approach st), log_offset = tellg bs \<rparr>]
                 else log st) \<rparr>))
     \<and> tellg (seekToEnd r bs) = startOffset r + unat (rec_size r)
     \<and> (tellg (stream st) < startOffset (ap_record (approach st)) + unat (rec_size (ap_record (approach st))) \<longrightarrow>
          subRecords (Suc n) env st =
            subRecords n env (st\<lparr> stream := seekToEnd r bs,
              log := (if DEBUG_INFORMATION env \<or> getSimulatorType env \<noteq> MSFS
                      then log st @ [\<lparr> level = QtWarningMsg, log_recType = apprRecordType env (rec_id r),
                                        log_ident = fixAirportIdent (approach st), log_offset = tellg bs \<rparr>]
                      else log st) \<rparr>))"
proof
  assume a: "readRecord (stream st) = Parsed (r, bs) \<and>
   apprRecordType env (rec_id r) \<notin>
     {LEGS, LEGS_MSFS, LEGS_MSFS_116, LEGS_MSFS_118,
      MISSED_LEGS, MISSED_LEGS_MSFS, MISSED_LEGS_MSFS_116, MISSED_LEGS_MSFS_118,
      TRANSITION, TRANSITION_MSFS, TRANSITION_MSFS_116} \<and>
   \<not> checkSubRecord env r"
  let ?st = "st\<lparr> stream := seekToEnd r bs,
         log := (if DEBUG_INFORMATION env \<or> getSimulatorType env \<noteq> MSFS
                 then log st @ [\<lparr> level = QtWarningMsg, log_recType = apprRecordType env (rec_id r),
                                   log_ident = fixAirportIdent (approach st), log_offset = tellg bs \<rparr>]
                 else log st) \<rparr>"
  from a have s: "subRecord env st = Parsed (Continue ?st)"
    by (intro subRecord_default) (elim conjE, assumption)+
  have t: "tellg (seekToEnd r bs) = startOffset r + unat (rec_size r)"
    by (simp add: tellg_def seekToEnd_def seekg_def)
  have l: "tellg (stream st) < startOffset (ap_record (approach st)) + unat (rec_size (ap_record (approach st))) \<longrightarrow>
          subRecords (Suc n) env st = subRecords n env ?st"
    by (intro impI subRecords_continue [OF _ s])
  from s t l show "subRecord env st = Parsed (Continue ?st)
     \<and> tellg (seekToEnd r bs) = startOffset r + unat (rec_size r)
     \<and> (tellg (stream st) < startOffset (ap_record (approach st)) + unat (rec_size (ap_record (approach st))) \<longrightarrow>
          subRecords (Suc n) env st = subRecords n env ?st)"
    by (intro conjI)
qed

theorem C9_witness:
  "subRecords (Suc 0) (sampleEnv P3D_V5 False) sampleLoop =
     Parsed (sampleLoop\<lparr> stream := \<lparr> bs_data = approachBytes, bs_pos = 40 \<rparr>,
       log := [\<lparr> level = QtWarningMsg, log_recType = UnnamedRecordType 0x99,
                 log_ident = ''FIX26'', log_offset = 38 \<rparr>] \<rparr>)
   \<and> parsedLog (readApproach 5 (sampleEnv P3D_V5 False) False approachStream) =
       Some [\<lparr> level = QtWarningMsg, log_recType = UnnamedRecordType 0x99,
               log_ident = ''FIX26'', log_offset = 38 \<rparr>]"
proof -
  let ?r = "\<lparr> startOffset = 32, rec_id = 0x99, rec_size = 8 \<rparr>"
  let ?bs = "\<lparr> bs_data = approachBytes, bs_pos = 38 \<rparr>"
  have h: "readRecord (stream sampleLoop) = Parsed (?r, ?bs) \<and>
      apprRecordType (sampleEnv P3D_V5 False) (rec_id ?r) \<notin>
        {LEGS, LEGS_MSFS, LEGS_MSFS_116, LEGS_MSFS_118,
         MISSED_LEGS, MISSED_LEGS_MSFS, MISSED_LEGS_MSFS_116, MISSED_LEGS_MSFS_118,
         TRANSITION, TRANSITION_MSFS, TRANSITION_MSFS_116} \<and>
      \<not> checkSubRecord (sampleEnv P3D_V5 False) ?r"
    by (simp add: sample_child)
  note c = sample_child(4)
  from C9_unknown_subrecord_skipped [of sampleLoop ?r ?bs "sampleEnv P3D_V5 False" 0] h c
  have "subRecords (Suc 0) (sampleEnv P3D_V5 False) sampleLoop =
      subRecords 0 (sampleEnv P3D_V5 False)
        (sampleLoop\<lparr> stream := seekToEnd ?r ?bs,
           log := (if DEBUG_INFORMATION (sampleEnv P3D_V5 False) \<or>
                      getSimulatorType (sampleEnv P3D_V5 False) \<noteq> MSFS
                   then log sampleLoop @
                     [\<lparr> level = QtWarningMsg,
                        log_recType = apprRecordType (sampleEnv P3D_V5 False) (rec_id ?r),
                        log_ident = fixAirportIdent (approach sampleLoop), log_offset = tellg ?bs \<rparr>]
                   else log sampleLoop) \<rparr>)"
    by blast
  also have "\<dots> = Parsed (sampleLoop\<lparr> stream := \<lparr> bs_data = approachBytes, bs_pos = 40 \<rparr>,
       log := [\<lparr> level = QtWarningMsg, log_recType = UnnamedRecordType 0x99,
                 log_ident = ''FIX26'', log_offset = 38 \<rparr>] \<rparr>)"
    by (simp add: sampleEnv_def sampleLoop_def sampleApproach_def seekToEnd_def seekg_def tellg_def)
  finally have 1: "subRecords (Suc 0) (sampleEnv P3D_V5 False) sampleLoop =
     Parsed (sampleLoop\<lparr> stream := \<lparr> bs_data = approachBytes, bs_pos = 40 \<rparr>,
       log := [\<lparr> level = QtWarningMsg, log_recType = UnnamedRecordType 0x99,
                 log_ident = ''FIX26'', log_offset = 38 \<rparr>] \<rparr>)" .
  have 2: "parsedLog (readApproach 5 (sampleEnv P3D_V5 False) False approachStream) =
       Some [\<lparr> level = QtWarningMsg, log_recType = UnnamedRecordType 0x99,
               log_ident = ''FIX26'', log_offset = 38 \<rparr>]"
    using sample_readApproach [of 4 P3D_V5 False] by (simp add: parsedLog_def)
  from 1 2 show ?thesis by (intro conjI)
qed

theorem C9_counterexample:
  "getSimulatorType (sampleEnv MSFS False) = MSFS
   \<and> parsedPos (readApproach 5 (sampleEnv MSFS False) False approachStream) = Some 40
   \<and> parsedLog (readApproach 5 (sampleEnv MSFS False) False approachStream) = Some []
   \<and> parsedLog (readApproach 5 (sampleEnv MSFS True) False approachStream) =
       Some [\<lparr> level = QtWarningMsg, log_recType = UnnamedRecordType 0x99,
               log_ident = ''FIX26'', log_offset = 38 \<rparr>]"
  using sample_readApproach [of 4 MSFS False] sample_readApproach [of 4 MSFS True]
  by (simp add: parsedLog_def parsedPos_def tellg_def sampleEnv_def)

end
